(* ===== verification/Prelude.thy ===== *)
theory Prelude
  imports
    Main
    "HOL-Library.Word"
    "HOL-Library.AList"
    "HOL-Library.Multiset"
    "HOL-Library.List_Lexorder"
    "HOL-Library.Char_ord"
begin

unbundle bit_operations_syntax

text \<open>
  What every component shares: the outcome of a Go call (a value, an error value, or a panic),
  the sequencing of such calls with and without state, Go maps as association lists with distinct
  keys, byte slices, two's complement 64-bit integers, and the collections of facts the component
  proofs use.

  \<^item> \<open>outcome\<close>: a Go function returning \<open>(T, error)\<close> returns \<open>Ok v\<close> or \<open>Err e\<close>; a run-time panic
    (slice bounds, \<open>big.Int.FillBytes\<close>) is \<open>Panic\<close>, so that it can never be mistaken for a value.
  \<^item> \<open>then_ok\<close> and \<open>st_then\<close> are the early-return idiom \<open>if err != nil { return ... }\<close>; the state
    reached when the error occurred is kept, as the Go code keeps its side effects.
  \<^item> \<open>gomap\<close>: a Go map as an association list. \<open>gm_wf\<close> (distinct keys) is an invariant of every
    operation. The order of the list is never observed by the code except through an iteration
    order handed in explicitly, since Go iterates over maps in an unspecified order.
\<close>

named_theorems go_outcome \<open>inversion rules for sequenced outcomes\<close>
named_theorems gomap_simps \<open>lookups after updates of Go maps\<close>

section \<open>Outcomes\<close>

datatype ('e, 'a) outcome = Ok 'a | Err 'e | Panic string

fun then_ok :: "('e, 'a) outcome \<Rightarrow> ('a \<Rightarrow> ('e, 'b) outcome) \<Rightarrow> ('e, 'b) outcome" where
  "then_ok (Ok x) f = f x"
| "then_ok (Err e) f = Err e"
| "then_ok (Panic p) f = Panic p"

fun st_then ::
  "('e, 'a) outcome \<times> 's \<Rightarrow> ('a \<Rightarrow> 's \<Rightarrow> ('e, 'b) outcome \<times> 's) \<Rightarrow> ('e, 'b) outcome \<times> 's" where
  "st_then (Ok x, s) f = f x s"
| "st_then (Err e, s) f = (Err e, s)"
| "st_then (Panic p, s) f = (Panic p, s)"

fun map_err :: "('e \<Rightarrow> 'f) \<Rightarrow> ('e, 'a) outcome \<Rightarrow> ('f, 'a) outcome" where
  "map_err f (Ok x) = Ok x"
| "map_err f (Err e) = Err (f e)"
| "map_err f (Panic p) = Panic p"

text \<open>\<open>if b { return err }\<close>, and the error results of functions given as sums or options.\<close>

definition fail_if :: "bool \<Rightarrow> 'e \<Rightarrow> ('e, unit) outcome" where
  "fail_if b e = (if b then Err e else Ok ())"

fun of_sum :: "('x \<Rightarrow> 'e) \<Rightarrow> 'x + 'a \<Rightarrow> ('e, 'a) outcome" where
  "of_sum f (Inl x) = Err (f x)"
| "of_sum f (Inr a) = Ok a"

fun of_option :: "'e \<Rightarrow> 'a option \<Rightarrow> ('e, 'a) outcome" where
  "of_option e None = Err e"
| "of_option e (Some a) = Ok a"

definition is_ok :: "('e, 'a) outcome \<Rightarrow> bool" where
  "is_ok r = (case r of Ok _ \<Rightarrow> True | _ \<Rightarrow> False)"

lemma is_ok_simps [simp]: "is_ok (Ok x)" "\<not> is_ok (Err e)" "\<not> is_ok (Panic p)"
  by (simp_all add: is_ok_def)

lemma then_ok_Ok_iff [go_outcome]:
  "then_ok m f = Ok y \<longleftrightarrow> (\<exists>x. m = Ok x \<and> f x = Ok y)"
  by (cases m) auto

lemma then_ok_Err_iff [go_outcome]:
  "then_ok m f = Err e \<longleftrightarrow> m = Err e \<or> (\<exists>x. m = Ok x \<and> f x = Err e)"
  by (cases m) auto

lemma then_ok_Panic_iff:
  "then_ok m f = Panic p \<longleftrightarrow> m = Panic p \<or> (\<exists>x. m = Ok x \<and> f x = Panic p)"
  by (cases m) auto

lemma st_then_Ok_iff [go_outcome]:
  "st_then m f = (Ok y, t) \<longleftrightarrow> (\<exists>x s. m = (Ok x, s) \<and> f x s = (Ok y, t))"
  by (cases m; cases "fst m") auto

lemma st_then_Err_iff [go_outcome]:
  "st_then m f = (Err e, t) \<longleftrightarrow> m = (Err e, t) \<or> (\<exists>x s. m = (Ok x, s) \<and> f x s = (Err e, t))"
  by (cases m; cases "fst m") auto

lemma map_err_Ok_iff [go_outcome]: "map_err f m = Ok y \<longleftrightarrow> m = Ok y"
  by (cases m) auto

lemma map_err_Err_iff [go_outcome]: "map_err f m = Err e \<longleftrightarrow> (\<exists>e'. m = Err e' \<and> e = f e')"
  by (cases m) auto

lemma fail_if_Ok_iff [go_outcome]: "fail_if b e = Ok u \<longleftrightarrow> \<not> b"
  by (simp add: fail_if_def)

lemma fail_if_Err_iff [go_outcome]: "fail_if b e = Err e' \<longleftrightarrow> b \<and> e' = e"
  by (auto simp: fail_if_def)

lemma fail_if_simps [simp]: "fail_if True e = Err e" "fail_if False e = Ok ()"
  by (simp_all add: fail_if_def)

lemma of_sum_Ok_iff [go_outcome]: "of_sum f s = Ok a \<longleftrightarrow> s = Inr a"
  by (cases s) auto

lemma of_sum_Err_iff [go_outcome]: "of_sum f s = Err e \<longleftrightarrow> (\<exists>x. s = Inl x \<and> e = f x)"
  by (cases s) auto

lemma of_option_Ok_iff [go_outcome]: "of_option e s = Ok a \<longleftrightarrow> s = Some a"
  by (cases s) auto

lemma of_option_Err_iff [go_outcome]: "of_option e s = Err e' \<longleftrightarrow> s = None \<and> e' = e"
  by (cases s) auto

lemma outcome_no_panic [simp]:
  "fail_if b e \<noteq> Panic p" "of_sum f s \<noteq> Panic p" "of_option e t \<noteq> Panic p"
  by (auto simp: fail_if_def elim: of_sum.elims of_option.elims)

lemma map_err_no_panic: "m \<noteq> Panic p \<Longrightarrow> map_err f m \<noteq> Panic p"
  by (cases m) auto

lemma then_ok_no_panic:
  "m \<noteq> Panic p \<Longrightarrow> (\<And>x. m = Ok x \<Longrightarrow> f x \<noteq> Panic p) \<Longrightarrow> then_ok m f \<noteq> Panic p"
  by (cases m) auto

lemma st_then_no_panic:
  "fst m \<noteq> Panic p \<Longrightarrow> (\<And>x s. m = (Ok x, s) \<Longrightarrow> fst (f x s) \<noteq> Panic p) \<Longrightarrow>
   fst (st_then m f) \<noteq> Panic p"
  by (cases m; cases "fst m") auto

lemma fst_st_then: "fst (st_then (m, s) f) = then_ok m (\<lambda>x. fst (f x s))"
  by (cases m) auto

lemma fst_st_then_Ok_iff:
  "fst (st_then m f) = Ok y \<longleftrightarrow> (\<exists>x s. m = (Ok x, s) \<and> fst (f x s) = Ok y)"
  by (cases m; cases "fst m") auto

text \<open>A relation between states that every stage keeps is kept by the sequence.\<close>

lemma st_then_state:
  assumes "\<And>s. P s s" and "\<And>a b c. P a b \<Longrightarrow> P b c \<Longrightarrow> P a c"
    and "P s0 (snd m)" and "\<And>x s. m = (Ok x, s) \<Longrightarrow> P s (snd (f x s))"
  shows "P s0 (snd (st_then m f))"
proof (cases m)
  case (Pair r s)
  with assms show ?thesis by (cases r) auto
qed

lemma st_then_inv:
  assumes "I (snd m)" and "\<And>x s. m = (Ok x, s) \<Longrightarrow> I s \<Longrightarrow> I (snd (f x s))"
  shows "I (snd (st_then m f))"
proof (cases m)
  case (Pair r s)
  with assms show ?thesis by (cases r) auto
qed

section \<open>Go maps\<close>

lemma unit_option_iff [simp]: "m \<noteq> Some () \<longleftrightarrow> m = None"
  by (cases m) auto

type_synonym ('k, 'v) gomap = "('k \<times> 'v) list"

abbreviation gm_get :: "('k, 'v) gomap \<Rightarrow> 'k \<Rightarrow> 'v option" where
  "gm_get m k \<equiv> map_of m k"

definition gm_put :: "'k \<Rightarrow> 'v \<Rightarrow> ('k, 'v) gomap \<Rightarrow> ('k, 'v) gomap" where
  "gm_put k v m = AList.update k v m"

definition gm_del :: "'k \<Rightarrow> ('k, 'v) gomap \<Rightarrow> ('k, 'v) gomap" where
  "gm_del k m = AList.delete k m"

definition gm_wf :: "('k, 'v) gomap \<Rightarrow> bool" where
  "gm_wf m \<longleftrightarrow> distinct (map fst m)"

lemma gm_get_put [simp, gomap_simps]: "gm_get (gm_put k v m) = (gm_get m)(k \<mapsto> v)"
  by (simp add: gm_put_def update_conv' fun_upd_def)

lemma gm_get_del [simp, gomap_simps]: "gm_get (gm_del k m) = (gm_get m)(k := None)"
  by (simp add: gm_del_def AList.delete_conv' fun_upd_def)

lemma gm_wf_Nil [simp]: "gm_wf []"
  by (simp add: gm_wf_def)

lemma gm_wf_put [simp, intro]: "gm_wf m \<Longrightarrow> gm_wf (gm_put k v m)"
  by (simp add: gm_wf_def gm_put_def distinct_update)

lemma gm_wf_del [simp, intro]: "gm_wf m \<Longrightarrow> gm_wf (gm_del k m)"
  by (simp add: gm_wf_def gm_del_def AList.distinct_delete)

lemma gm_get_in: "gm_wf m \<Longrightarrow> gm_get m k = Some v \<longleftrightarrow> (k, v) \<in> set m"
  by (simp add: gm_wf_def map_of_eq_Some_iff)

lemma gm_get_dom: "(\<exists>v. gm_get m k = Some v) \<longleftrightarrow> k \<in> fst ` set m"
  by (metis dom_map_of_conv_image_fst domD domI)

text \<open>
  One \<open>for range\<close> over a map visits every entry once, in an order the language leaves open: an
  iteration order is any function that permutes the entries.
\<close>

type_synonym 'a iteration = "'a list \<Rightarrow> 'a list"

definition iterates :: "'a iteration \<Rightarrow> bool" where
  "iterates it \<longleftrightarrow> (\<forall>xs. mset (it xs) = mset xs)"

lemma iterates_id [simp]: "iterates (\<lambda>xs. xs)"
  by (simp add: iterates_def)

lemma iterates_rev [simp]: "iterates rev"
  by (simp add: iterates_def)

lemma iterates_set: "iterates it \<Longrightarrow> set (it xs) = set xs"
  by (metis iterates_def set_mset_mset)

lemma iterates_length: "iterates it \<Longrightarrow> length (it xs) = length xs"
  by (metis iterates_def size_mset)

lemma iterates_distinct: "iterates it \<Longrightarrow> distinct (it xs) \<longleftrightarrow> distinct xs"
  by (metis iterates_def mset_eq_imp_distinct_iff)

section \<open>Bytes and strings\<close>

type_synonym byte = "8 word"
type_synonym bytes = "byte list"

text \<open>A Go string is a sequence of bytes, here a \<^typ>\<open>string\<close>; \<open>[]byte(s)\<close> and \<open>string(b)\<close> convert.\<close>

definition byte_of_char :: "char \<Rightarrow> byte" where
  "byte_of_char c = word_of_nat (of_char c)"

definition char_of_byte :: "byte \<Rightarrow> char" where
  "char_of_byte b = char_of (unat b)"

definition bytes_of :: "string \<Rightarrow> bytes" where
  "bytes_of s = map byte_of_char s"

definition string_of :: "bytes \<Rightarrow> string" where
  "string_of bs = map char_of_byte bs"

lemma unat_byte_of_char [simp]: "unat (byte_of_char c) = of_char c"
proof -
  have "(of_char c :: nat) < 2 ^ 8"
    using nat_of_char_less_256 [of c] by simp
  then show ?thesis
    by (simp add: byte_of_char_def unat_of_nat take_bit_nat_eq_self)
qed

lemma byte_unat_less: "unat (b :: byte) < 256"
  using unsigned_less [of b, where ?'a = nat] by simp

lemma char_of_byte_of_char [simp]: "char_of_byte (byte_of_char c) = c"
  by (simp add: char_of_byte_def)

lemma of_char_of_byte [simp]: "of_char (char_of_byte b) = unat b"
  using byte_unat_less [of b] by (simp add: char_of_byte_def)

lemma byte_of_char_of_byte [simp]: "byte_of_char (char_of_byte b) = b"
  by (simp add: byte_of_char_def)

lemma string_of_bytes_of [simp]: "string_of (bytes_of s) = s"
  by (simp add: string_of_def bytes_of_def o_def)

lemma bytes_of_string_of [simp]: "bytes_of (string_of b) = b"
  by (simp add: string_of_def bytes_of_def o_def)

lemma length_bytes_of [simp]: "length (bytes_of s) = length s"
  by (simp add: bytes_of_def)

lemma length_string_of [simp]: "length (string_of b) = length b"
  by (simp add: string_of_def)

lemma bytes_of_inject [simp]: "bytes_of s = bytes_of t \<longleftrightarrow> s = t"
  by (metis string_of_bytes_of)

lemma string_of_inject [simp]: "string_of s = string_of t \<longleftrightarrow> s = t"
  by (metis bytes_of_string_of)

section \<open>64-bit integers and durations\<close>

text \<open>
  Go's \<open>int\<close>, \<open>int64\<close> and \<open>time.Duration\<close> are 64-bit two's complement: \<open>i64\<close> is the wrap-around
  every addition, subtraction and multiplication of the code goes through.
\<close>

definition i64 :: "int \<Rightarrow> int" where
  "i64 n = (n + 2 ^ 63) mod 2 ^ 64 - 2 ^ 63"

definition in_i64 :: "int \<Rightarrow> bool" where
  "in_i64 n \<longleftrightarrow> - (2 ^ 63) \<le> n \<and> n < 2 ^ 63"

lemma i64_id [simp]: "in_i64 n \<Longrightarrow> i64 n = n"
  by (simp add: i64_def in_i64_def)

lemma i64_range: "in_i64 (i64 n)"
proof -
  have "0 \<le> (n + 2 ^ 63) mod 2 ^ 64" "(n + 2 ^ 63) mod 2 ^ 64 < (2 ^ 64 :: int)"
    by simp_all
  then show ?thesis by (simp add: i64_def in_i64_def)
qed

text \<open>Truncated division, as Go's \<open>/\<close> and \<open>%\<close>; the code only divides by positive literals.\<close>

definition go_div :: "int \<Rightarrow> int \<Rightarrow> int" where
  "go_div a b = sgn a * sgn b * (\<bar>a\<bar> div \<bar>b\<bar>)"

definition go_mod :: "int \<Rightarrow> int \<Rightarrow> int" where
  "go_mod a b = a - go_div a b * b"

lemma go_div_nonneg: "0 \<le> a \<Longrightarrow> 0 < b \<Longrightarrow> go_div a b = a div b"
  by (cases "a = 0") (auto simp: go_div_def)

lemma go_mod_nonneg: "0 \<le> a \<Longrightarrow> 0 < b \<Longrightarrow> go_mod a b = a mod b"
  by (simp add: go_mod_def go_div_nonneg minus_div_mult_eq_mod)

text \<open>
  Instants are nanoseconds since the Unix epoch. \<open>t.Sub(u)\<close> (and \<open>time.Since\<close>) saturates at the
  extreme durations instead of wrapping.
\<close>

type_synonym instant = int
type_synonym duration = int

definition second :: duration where "second = 1000000000"
definition minute :: duration where "minute = 60 * second"

definition time_sub :: "instant \<Rightarrow> instant \<Rightarrow> duration" where
  "time_sub t u = max (- (2 ^ 63)) (min (2 ^ 63 - 1) (t - u))"

lemma time_sub_window:
  assumes "0 \<le> w" and "w < 2 ^ 63 - 1"
  shows "(time_sub t u > w \<or> time_sub t u < - w) \<longleftrightarrow> \<bar>t - u\<bar> > w"
  using assms by (auto simp: time_sub_def min_def max_def abs_if)

section \<open>Entropy\<close>

text \<open>
  \<open>crypto/rand.Read\<close> draws the next bytes of an unbounded tape. It never returns an error (it
  aborts the process instead), so the error branches behind it are unreachable.
\<close>

type_synonym entropy = "nat \<Rightarrow> byte"

definition rand_read :: "nat \<Rightarrow> entropy \<Rightarrow> bytes \<times> entropy" where
  "rand_read n r = (map r [0..<n], \<lambda>i. r (i + n))"

lemma length_rand_read [simp]: "length (fst (rand_read n r)) = n"
  by (simp add: rand_read_def)

section \<open>Replies of other services\<close>

text \<open>
  What \<open>http.Client.Do\<close> and reading the body give: the request could not be built, the exchange
  failed, or a status with the body (or the error that cut it short).
\<close>

datatype http_reply = ReqErr string | NetErr string | Reply int "string + string"

definition zero_time :: instant where
  "zero_time = - 62135596800 * second"

end
