(* ===== verification/Go_Std.thy ===== *)
theory Go_Std
  imports Prelude "HOL-Library.Sublist"
begin

text \<open>
  The parts of Go's standard library the issuer computes with: unpadded base64url
  (\<open>encoding/base64\<close> RawURLEncoding), the \<open>strings\<close> functions, \<open>strconv.Atoi\<close> and the decimal
  printing of integers, each written the way the library behaves on byte strings, with the facts
  the components use (base64url is injective, split and join are inverse, Atoi reads back what is
  printed).
\<close>

section \<open>Unpadded base64url\<close>

definition b64_alphabet :: string where
  "b64_alphabet = ''ABCDEFGHIJKLMNOPQRSTUVWXYZabcdefghijklmnopqrstuvwxyz0123456789-_''"

definition b64_char :: "nat \<Rightarrow> char" where
  "b64_char n = b64_alphabet ! n"

fun b64url_nats :: "nat list \<Rightarrow> string" where
  "b64url_nats [] = []"
| "b64url_nats [a] = [b64_char (a div 4), b64_char (a mod 4 * 16)]"
| "b64url_nats [a, b] =
     [b64_char (a div 4), b64_char (a mod 4 * 16 + b div 16), b64_char (b mod 16 * 4)]"
| "b64url_nats (a # b # c # rest) =
     b64_char (a div 4) # b64_char (a mod 4 * 16 + b div 16) #
     b64_char (b mod 16 * 4 + c div 64) # b64_char (c mod 64) # b64url_nats rest"

definition b64url :: "bytes \<Rightarrow> string" where
  "b64url bs = b64url_nats (map unat bs)"

text \<open>A decoder for the same alphabet, to show that the encoding loses nothing.\<close>

fun b64_index_from :: "nat \<Rightarrow> string \<Rightarrow> char \<Rightarrow> nat" where
  "b64_index_from i [] c = i"
| "b64_index_from i (x # xs) c = (if x = c then i else b64_index_from (Suc i) xs c)"

definition b64_val :: "char \<Rightarrow> nat" where
  "b64_val c = b64_index_from 0 b64_alphabet c"

fun b64url_decode_nats :: "string \<Rightarrow> nat list" where
  "b64url_decode_nats (p # q # r # s # rest) =
     (b64_val p * 4 + b64_val q div 16) #
     (b64_val q mod 16 * 16 + b64_val r div 4) #
     (b64_val r mod 4 * 64 + b64_val s) # b64url_decode_nats rest"
| "b64url_decode_nats [p, q, r] =
     [b64_val p * 4 + b64_val q div 16, b64_val q mod 16 * 16 + b64_val r div 4]"
| "b64url_decode_nats [p, q] = [b64_val p * 4 + b64_val q div 16]"
| "b64url_decode_nats _ = []"

lemma b64_val_char_all: "\<forall>n \<in> set [0..<64]. b64_val (b64_char n) = n"
  by code_simp

lemma b64_val_char [simp]: "n < 64 \<Longrightarrow> b64_val (b64_char n) = n"
  using b64_val_char_all by simp

lemma b64_digit_bounds:
  assumes "a < 256" and "b < (256 :: nat)"
  shows "a div 4 < 64" "a mod 4 * 16 < 64" "a mod 4 * 16 + b div 16 < 64"
    "b mod 16 * 4 < 64" "b mod 16 * 4 + a div 64 < 64" "a mod 64 < 64"
  using assms by auto

lemma b64url_decode_encode_nats:
  "\<forall>n \<in> set ns. n < 256 \<Longrightarrow> b64url_decode_nats (b64url_nats ns) = ns"
proof (induction ns rule: b64url_nats.induct)
  case (4 a b c rest)
  then have "a < 256" "b < 256" "c < 256" by auto
  moreover from this have "b div 16 < 16" "c div 64 < 4" by auto
  moreover have "b div 16 * 16 + b mod 16 = b" "c div 64 * 64 + c mod 64 = c" by auto
  ultimately show ?case
    using 4 b64_digit_bounds [of a b] b64_digit_bounds [of c b] by simp
qed (use b64_digit_bounds in \<open>auto simp: div_mult_mod_eq\<close>)

lemma b64url_nats_inject:
  "\<forall>n \<in> set ns. n < 256 \<Longrightarrow> \<forall>n \<in> set ms. n < 256 \<Longrightarrow>
   b64url_nats ns = b64url_nats ms \<longleftrightarrow> ns = ms"
  by (metis b64url_decode_encode_nats)

lemma b64url_inject [simp]: "b64url x = b64url y \<longleftrightarrow> x = y"
proof -
  have "\<forall>n \<in> set (map unat bs). n < 256" for bs :: bytes
    by (auto simp: byte_unat_less)
  then have "b64url x = b64url y \<longleftrightarrow> map unat x = map unat y"
    unfolding b64url_def using b64url_nats_inject by blast
  also have "\<dots> \<longleftrightarrow> x = y"
    by (simp add: inj_map_eq_map inj_on_def word_unat_eq_iff)
  finally show ?thesis .
qed

definition b64url_decode :: "string \<Rightarrow> bytes" where
  "b64url_decode s = map word_of_nat (b64url_decode_nats s)"

lemma b64url_decode_b64url [simp]: "b64url_decode (b64url bs) = bs"
proof -
  have "b64url_decode_nats (b64url bs) = map unat bs"
    unfolding b64url_def by (rule b64url_decode_encode_nats) (auto simp: byte_unat_less)
  then show ?thesis by (simp add: b64url_decode_def o_def)
qed

lemma b64_char_in: "n < 64 \<Longrightarrow> b64_char n \<in> set b64_alphabet"
  unfolding b64_char_def by (rule nth_mem) (simp add: b64_alphabet_def)

lemma b64url_nats_chars:
  "\<forall>n \<in> set ns. n < 256 \<Longrightarrow> set (b64url_nats ns) \<subseteq> set b64_alphabet"
  by (induction ns rule: b64url_nats.induct) (auto intro!: b64_char_in b64_digit_bounds simp: div_less_iff_less_mult)

lemma b64url_chars: "set (b64url bs) \<subseteq> set b64_alphabet"
  unfolding b64url_def by (rule b64url_nats_chars) (auto simp: byte_unat_less)

lemma length_b64url_nats: "length (b64url_nats ns) = (4 * length ns + 2) div 3"
  by (induction ns rule: b64url_nats.induct) auto

lemma length_b64url: "length (b64url bs) = (4 * length bs + 2) div 3"
  by (simp add: b64url_def length_b64url_nats)

lemma b64url_Nil_iff [simp]: "b64url bs = [] \<longleftrightarrow> bs = []"
proof
  assume "b64url bs = []"
  then have "b64url bs = b64url []" by (simp add: b64url_def)
  then show "bs = []" by (simp only: b64url_inject)
qed (simp add: b64url_def)

section \<open>Strings\<close>

text \<open>\<open>strings.Split\<close> on a one-byte separator, and \<open>strings.Join\<close>.\<close>

fun split_on :: "char \<Rightarrow> string \<Rightarrow> string list" where
  "split_on c [] = [[]]"
| "split_on c (x # xs) =
     (if x = c then [] # split_on c xs
      else (case split_on c xs of [] \<Rightarrow> [[x]] | w # ws \<Rightarrow> (x # w) # ws))"

fun join_with :: "string \<Rightarrow> string list \<Rightarrow> string" where
  "join_with sep [] = []"
| "join_with sep [w] = w"
| "join_with sep (w # v # ws) = w @ sep @ join_with sep (v # ws)"

lemma split_on_not_Nil [simp]: "split_on c s \<noteq> []"
  by (induction s) (auto split: list.splits)

lemma join_split [simp]: "join_with [c] (split_on c s) = s"
proof (induction s)
  case (Cons x xs)
  show ?case
  proof (cases "split_on c xs")
    case (Cons w ws)
    with Cons.IH show ?thesis by (cases ws) auto
  qed simp
qed simp

lemma split_on_free: "w \<in> set (split_on c s) \<Longrightarrow> c \<notin> set w"
  by (induction s arbitrary: w) (auto split: if_splits list.splits)

lemma length_split_on: "length (split_on c s) = Suc (count_list s c)"
  by (induction s) (auto split: list.splits)

lemma split_on_append:
  "c \<notin> set a \<Longrightarrow> split_on c (a @ c # b) = a # split_on c b"
  by (induction a) auto

definition has_prefix :: "string \<Rightarrow> string \<Rightarrow> bool" where
  "has_prefix s p \<longleftrightarrow> take (length p) s = p"

lemma has_prefix_iff: "has_prefix s p \<longleftrightarrow> prefix p s"
  by (metis append_take_drop_id has_prefix_def prefix_def append_eq_conv_conj)

text \<open>\<open>strings.Contains\<close>.\<close>

fun contains_sub :: "string \<Rightarrow> string \<Rightarrow> bool" where
  "contains_sub [] p = (p = [])"
| "contains_sub (x # xs) p = (has_prefix (x # xs) p \<or> contains_sub xs p)"

lemma contains_sub_iff: "contains_sub s p \<longleftrightarrow> sublist p s"
  by (induction s) (auto simp: has_prefix_iff sublist_Cons_right)

definition is_upper :: "char \<Rightarrow> bool" where
  "is_upper c \<longleftrightarrow> (65 :: nat) \<le> of_char c \<and> of_char c \<le> (90 :: nat)"

definition is_lower :: "char \<Rightarrow> bool" where
  "is_lower c \<longleftrightarrow> (97 :: nat) \<le> of_char c \<and> of_char c \<le> (122 :: nat)"

definition lower_char :: "char \<Rightarrow> char" where
  "lower_char c = (if is_upper c then char_of (of_char c + (32 :: nat)) else c)"

definition upper_char :: "char \<Rightarrow> char" where
  "upper_char c = (if is_lower c then char_of (of_char c - (32 :: nat)) else c)"

text \<open>
  \<open>strings.ToLower\<close>. Beside the ASCII letters, exactly two runes have an ASCII lower case: the
  Kelvin sign (E2 84 AA) and the capital I with dot (C4 B0). The case of the other non-ASCII runes
  is left as it is: the code only searches the result for ASCII markers.
\<close>

fun to_lower :: "string \<Rightarrow> string" where
  "to_lower [] = []"
| "to_lower (x # xs) =
     (if take 3 (x # xs) = [CHR 0xE2, CHR 0x84, CHR 0xAA] then CHR ''k'' # to_lower (drop 2 xs)
      else if take 2 (x # xs) = [CHR 0xC4, CHR 0xB0] then CHR ''i'' # to_lower (drop 1 xs)
      else lower_char x # to_lower xs)"

text \<open>
  \<open>strings.ToUpper\<close> of a one-byte string. A byte of 0x80 or more is not a rune on its own: it is
  decoded as the replacement character, whose encoding EF BF BD is written out.
\<close>

definition upper_byte :: "char \<Rightarrow> string" where
  "upper_byte c =
     (if of_char c < (128 :: nat) then [upper_char c] else [CHR 0xEF, CHR 0xBF, CHR 0xBD])"

text \<open>\<open>strings.TrimSpace\<close>: the encodings of the runes of \<open>unicode.IsSpace\<close>.\<close>

definition space_runes :: "string list" where
  "space_runes =
     [[CHR 0x09], [CHR 0x0A], [CHR 0x0B], [CHR 0x0C], [CHR 0x0D], [CHR 0x20],
      [CHR 0xC2, CHR 0x85], [CHR 0xC2, CHR 0xA0], [CHR 0xE1, CHR 0x9A, CHR 0x80],
      [CHR 0xE2, CHR 0x80, CHR 0x80], [CHR 0xE2, CHR 0x80, CHR 0x81], [CHR 0xE2, CHR 0x80, CHR 0x82],
      [CHR 0xE2, CHR 0x80, CHR 0x83], [CHR 0xE2, CHR 0x80, CHR 0x84], [CHR 0xE2, CHR 0x80, CHR 0x85],
      [CHR 0xE2, CHR 0x80, CHR 0x86], [CHR 0xE2, CHR 0x80, CHR 0x87], [CHR 0xE2, CHR 0x80, CHR 0x88],
      [CHR 0xE2, CHR 0x80, CHR 0x89], [CHR 0xE2, CHR 0x80, CHR 0x8A], [CHR 0xE2, CHR 0x80, CHR 0xA8],
      [CHR 0xE2, CHR 0x80, CHR 0xA9], [CHR 0xE2, CHR 0x80, CHR 0xAF], [CHR 0xE2, CHR 0x81, CHR 0x9F],
      [CHR 0xE3, CHR 0x80, CHR 0x80]]"

fun trim_left_fuel :: "nat \<Rightarrow> string list \<Rightarrow> string \<Rightarrow> string" where
  "trim_left_fuel 0 sps s = s"
| "trim_left_fuel (Suc n) sps s =
     (case List.find (has_prefix s) sps of
        None \<Rightarrow> s
      | Some p \<Rightarrow> trim_left_fuel n sps (drop (length p) s))"

text \<open>Every step drops at least one byte, so the length of the string is enough fuel.\<close>

definition trim_left :: "string \<Rightarrow> string" where
  "trim_left s = trim_left_fuel (length s) space_runes s"

definition trim_right :: "string \<Rightarrow> string" where
  "trim_right s = rev (trim_left_fuel (length s) (map rev space_runes) (rev s))"

definition trim_space :: "string \<Rightarrow> string" where
  "trim_space s = trim_right (trim_left s)"

lemma trim_left_fuel_done:
  assumes "length s \<le> n" and "\<forall>p \<in> set sps. p \<noteq> []" and "q \<in> set sps"
  shows "\<not> has_prefix (trim_left_fuel n sps s) q"
  using assms
proof (induction n arbitrary: s)
  case 0
  then show ?case by (auto simp: has_prefix_def)
next
  case (Suc n)
  show ?case
  proof (cases "List.find (has_prefix s) sps")
    case None
    then have "\<not> has_prefix s q"
      using Suc.prems(3) by (simp add: find_None_iff)
    with None show ?thesis by simp
  next
    case (Some p)
    then have p: "p \<in> set sps" "has_prefix s p"
      by (auto simp: find_Some_iff)
    with Suc.prems(2) have "p \<noteq> []" by blast
    then have "0 < length p" by simp
    moreover have "length p \<le> length s"
      using p(2) by (metis has_prefix_def length_take min.cobounded1)
    ultimately have "length (drop (length p) s) \<le> n"
      using Suc.prems(1) by (simp only: length_drop)
    with Suc.IH Suc.prems Some show ?thesis by simp
  qed
qed

lemma space_runes_nonempty: "\<forall>p \<in> set space_runes. p \<noteq> []"
  by (simp add: space_runes_def)

text \<open>No white space is left at the front of a trimmed string.\<close>

lemma trim_left_no_space: "q \<in> set space_runes \<Longrightarrow> \<not> has_prefix (trim_left s) q"
  unfolding trim_left_def by (rule trim_left_fuel_done) (auto simp: space_runes_nonempty)

text \<open>\<open>strings.TrimSuffix(s, "/")\<close>.\<close>

definition trim_suffix_slash :: "string \<Rightarrow> string" where
  "trim_suffix_slash s = (if s \<noteq> [] \<and> last s = CHR ''/'' then butlast s else s)"

section \<open>Decimal integers\<close>

definition digit_char :: "nat \<Rightarrow> char" where
  "digit_char d = char_of (48 + d)"

definition is_digit :: "char \<Rightarrow> bool" where
  "is_digit c \<longleftrightarrow> (48 :: nat) \<le> of_char c \<and> of_char c \<le> (57 :: nat)"

definition digit_val :: "char \<Rightarrow> nat" where
  "digit_val c = of_char c - 48"

fun show_nat :: "nat \<Rightarrow> string" where
  "show_nat n = (if n < 10 then [digit_char n] else show_nat (n div 10) @ [digit_char (n mod 10)])"

declare show_nat.simps [simp del]

definition show_int :: "int \<Rightarrow> string" where
  "show_int n = (if n < 0 then CHR ''-'' # show_nat (nat (- n)) else show_nat (nat n))"

definition read_digits :: "string \<Rightarrow> nat" where
  "read_digits s = foldl (\<lambda>n c. 10 * n + digit_val c) 0 s"

text \<open>
  \<open>strconv.Atoi\<close>: an optional sign, at least one digit, nothing else, and a value that fits
  \<open>int\<close> (64 bits); \<open>None\<close> is the error return.
\<close>

definition atoi :: "string \<Rightarrow> int option" where
  "atoi s =
     (let (neg, ds) = (case s of [] \<Rightarrow> (False, [])
                        | c # cs \<Rightarrow> if c = CHR ''-'' then (True, cs)
                                    else if c = CHR ''+'' then (False, cs) else (False, s));
          v = int (read_digits ds);
          n = (if neg then - v else v)
      in if ds = [] \<or> \<not> list_all is_digit ds \<or> \<not> in_i64 n then None else Some n)"

lemma digit_char_facts_all:
  "\<forall>d \<in> set [0..<10]. is_digit (digit_char d) \<and> digit_val (digit_char d) = d \<and>
     digit_char d \<noteq> CHR ''-'' \<and> digit_char d \<noteq> CHR ''+''"
  by code_simp

lemma digit_char_facts:
  assumes "d < 10"
  shows "is_digit (digit_char d)" "digit_val (digit_char d) = d"
    "digit_char d \<noteq> CHR ''-''" "digit_char d \<noteq> CHR ''+''"
  using digit_char_facts_all assms by simp_all

lemma show_nat_digits: "list_all is_digit (show_nat n) \<and> show_nat n \<noteq> []"
proof (induction n rule: show_nat.induct)
  case (1 n)
  then show ?case
    by (subst (1 2) show_nat.simps) (auto simp: digit_char_facts)
qed

lemma read_digits_snoc: "read_digits (s @ [c]) = 10 * read_digits s + digit_val c"
  by (simp add: read_digits_def)

lemma read_show_nat [simp]: "read_digits (show_nat n) = n"
proof (induction n rule: show_nat.induct)
  case (1 n)
  show ?case
  proof (cases "n < 10")
    case True
    then show ?thesis by (simp add: show_nat.simps [of n] read_digits_def digit_char_facts)
  next
    case False
    with "1.IH" show ?thesis
      by (simp add: show_nat.simps [of n] read_digits_snoc digit_char_facts)
  qed
qed

lemma show_nat_head: "show_nat n = c # cs \<Longrightarrow> c \<noteq> CHR ''-'' \<and> c \<noteq> CHR ''+''"
  using show_nat_digits [of n] by (auto simp: is_digit_def)

lemma atoi_show_int [simp]:
  assumes "in_i64 n"
  shows "atoi (show_int n) = Some n"
proof (cases "n < 0")
  case True
  then show ?thesis
    using assms show_nat_digits [of "nat (- n)"] by (simp add: atoi_def show_int_def)
next
  case False
  obtain c cs where s: "show_nat (nat n) = c # cs"
    using show_nat_digits [of "nat n"] by (cases "show_nat (nat n)") auto
  have "list_all is_digit (c # cs)" using show_nat_digits [of "nat n"] s by simp
  moreover have "read_digits (c # cs) = nat n" using read_show_nat [of "nat n"] s by simp
  ultimately show ?thesis
    using False assms show_nat_head [OF s] s by (simp add: atoi_def show_int_def)
qed

end
