(* ===== verification/Session.thy ===== *)
theory Session
  imports Go_Std
begin

text \<open>
  \<open>internal/session/store.go\<close>: the random tokens every identifier is made of, the single-use nonce
  store behind the Nonce Endpoint and the credential offers kept for by-reference retrieval. Each
  operation of the Go \<open>Store\<close> runs under the store's mutex, so a concurrent execution is a sequence
  of these operations; what holds of every sequence holds of every interleaving. The contract the
  issuance service relies on is the locale \<open>nonce_store\<close>, interpreted on this store.
\<close>

section \<open>The store\<close>

record session_store =
  nonces :: "(string, unit) gomap"
  credentialOffers :: "(string, string) gomap"

definition new_session_store :: session_store where
  "new_session_store = \<lparr>nonces = [], credentialOffers = []\<rparr>"

definition RandomToken :: "nat \<Rightarrow> entropy \<Rightarrow> string \<times> entropy" where
  "RandomToken n r = (let (buf, r') = rand_read n r in (b64url buf, r'))"

definition GenerateNonce :: "entropy \<Rightarrow> string \<times> entropy" where
  "GenerateNonce r = RandomToken 32 r"

definition RegisterNonce :: "string \<Rightarrow> session_store \<Rightarrow> session_store" where
  "RegisterNonce n s = s\<lparr>nonces := gm_put n () (nonces s)\<rparr>"

definition ValidateNonce :: "string \<Rightarrow> session_store \<Rightarrow> bool \<times> session_store" where
  "ValidateNonce n s =
     (case gm_get (nonces s) n of
        Some _ \<Rightarrow> (True, s\<lparr>nonces := gm_del n (nonces s)\<rparr>)
      | None \<Rightarrow> (False, s))"

definition InvalidateNonce :: "string \<Rightarrow> session_store \<Rightarrow> session_store" where
  "InvalidateNonce n s = s\<lparr>nonces := gm_del n (nonces s)\<rparr>"

definition StoreCredentialOffer ::
  "string \<Rightarrow> entropy \<Rightarrow> session_store \<Rightarrow> string \<times> entropy \<times> session_store" where
  "StoreCredentialOffer offerJSON r s =
     (let (oid, r') = RandomToken 16 r
      in (oid, r', s\<lparr>credentialOffers := gm_put oid offerJSON (credentialOffers s)\<rparr>))"

definition GetCredentialOffer :: "string \<Rightarrow> session_store \<Rightarrow> string option" where
  "GetCredentialOffer oid s = gm_get (credentialOffers s) oid"

lemmas session_defs =
  RegisterNonce_def ValidateNonce_def InvalidateNonce_def StoreCredentialOffer_def
  GetCredentialOffer_def

definition session_wf :: "session_store \<Rightarrow> bool" where
  "session_wf s \<longleftrightarrow> gm_wf (nonces s) \<and> gm_wf (credentialOffers s)"

definition has_nonce :: "session_store \<Rightarrow> string \<Rightarrow> bool" where
  "has_nonce s n \<longleftrightarrow> gm_get (nonces s) n \<noteq> None"

section \<open>The contract of a single-use nonce store\<close>

datatype 'k nonce_op = Reg 'k | Val 'k | Inv 'k

text \<open>
  A run of a nonce store, counting the validations of \<open>k\<close> that succeed. The operations are
  arguments, so that the same run serves every provider of the interface.
\<close>

fun nonce_hits ::
  "('k \<Rightarrow> 's \<Rightarrow> 's) \<Rightarrow> ('k \<Rightarrow> 's \<Rightarrow> bool \<times> 's) \<Rightarrow> ('k \<Rightarrow> 's \<Rightarrow> 's) \<Rightarrow>
   'k \<Rightarrow> 'k nonce_op list \<Rightarrow> 's \<Rightarrow> nat" where
  "nonce_hits reg val drp k [] s = 0"
| "nonce_hits reg val drp k (Reg j # ops) s = nonce_hits reg val drp k ops (reg j s)"
| "nonce_hits reg val drp k (Inv j # ops) s = nonce_hits reg val drp k ops (drp j s)"
| "nonce_hits reg val drp k (Val j # ops) s =
     (let (ok, s') = val j s
      in (if ok \<and> j = k then 1 else 0) + nonce_hits reg val drp k ops s')"

locale nonce_store =
  fixes reg :: "'k \<Rightarrow> 's \<Rightarrow> 's"
    and val :: "'k \<Rightarrow> 's \<Rightarrow> bool \<times> 's"
    and drp :: "'k \<Rightarrow> 's \<Rightarrow> 's"
    and has :: "'s \<Rightarrow> 'k \<Rightarrow> bool"
  assumes has_reg: "has (reg k s) j \<longleftrightarrow> j = k \<or> has s j"
    and val_result: "fst (val k s) \<longleftrightarrow> has s k"
    and has_val: "has (snd (val k s)) j \<longleftrightarrow> j \<noteq> k \<and> has s j"
    and has_drp: "has (drp k s) j \<longleftrightarrow> j \<noteq> k \<and> has s j"
begin

lemma val_consumes: "\<not> fst (val k (snd (val k s)))"
  by (simp add: val_result has_val)

lemma val_after_reg: "fst (val k (reg k s))"
  by (simp add: val_result has_reg)

lemma hits_bound:
  "nonce_hits reg val drp k ops s \<le> count_list ops (Reg k) + (if has s k then 1 else 0)"
proof (induction ops arbitrary: s)
  case Nil
  then show ?case by simp
next
  case (Cons op ops)
  show ?case
  proof (cases op)
    case (Reg j)
    then show ?thesis using Cons [of "reg j s"] by (auto simp: has_reg split: if_splits)
  next
    case (Inv j)
    then show ?thesis using Cons [of "drp j s"] by (auto simp: has_drp split: if_splits)
  next
    case (Val j)
    then show ?thesis
      using Cons [of "snd (val j s)"] val_result [of j s]
      by (auto simp: has_val split_beta Let_def split: if_splits)
  qed
qed

end

lemma has_nonce_simps [simp]:
  "has_nonce (RegisterNonce n s) m \<longleftrightarrow> m = n \<or> has_nonce s m"
  "has_nonce (InvalidateNonce n s) m \<longleftrightarrow> m \<noteq> n \<and> has_nonce s m"
  "has_nonce (snd (ValidateNonce n s)) m \<longleftrightarrow> m \<noteq> n \<and> has_nonce s m"
  "fst (ValidateNonce n s) \<longleftrightarrow> has_nonce s n"
  by (auto simp: has_nonce_def session_defs split: option.splits)

interpretation session_nonces: nonce_store RegisterNonce ValidateNonce InvalidateNonce has_nonce
  by unfold_locales simp_all

section \<open>Well-formedness and frames\<close>

lemma session_wf_ops [simp, intro]:
  "session_wf new_session_store"
  "session_wf s \<Longrightarrow> session_wf (RegisterNonce n s)"
  "session_wf s \<Longrightarrow> session_wf (InvalidateNonce n s)"
  "session_wf s \<Longrightarrow> session_wf (snd (ValidateNonce n s))"
  "session_wf s \<Longrightarrow> session_wf (snd (snd (StoreCredentialOffer j r s)))"
  by (auto simp: session_wf_def session_defs new_session_store_def split_beta Let_def
      split: option.splits)

lemma offers_unchanged [simp]:
  "credentialOffers (RegisterNonce n s) = credentialOffers s"
  "credentialOffers (InvalidateNonce n s) = credentialOffers s"
  "credentialOffers (snd (ValidateNonce n s)) = credentialOffers s"
  by (auto simp: session_defs split: option.splits)

lemma nonces_unchanged [simp]:
  "nonces (snd (snd (StoreCredentialOffer j r s))) = nonces s"
  by (simp add: session_defs split_beta Let_def)

lemma length_RandomToken: "length (fst (RandomToken n r)) = (4 * n + 2) div 3"
  by (simp add: RandomToken_def rand_read_def length_b64url)

lemma RandomToken_eq: "fst (RandomToken n r) = b64url (fst (rand_read n r))"
  by (simp add: RandomToken_def split_beta)

lemma RandomToken_inject:
  "fst (RandomToken n r) = fst (RandomToken n r') \<longleftrightarrow> (\<forall>i < n. r i = r' i)"
  by (auto simp: RandomToken_eq rand_read_def)

lemma RandomToken_not_Nil [simp]: "0 < n \<Longrightarrow> fst (RandomToken n r) \<noteq> []"
  by (simp add: RandomToken_eq rand_read_def)

section \<open>Properties\<close>

text \<open>In every sequence of nonce operations, and so in every interleaving of concurrent
  requests, a nonce is accepted at most as many times as it was registered (plus once if it was
  registered before): nonces handed out by the Nonce Endpoint are single-use.\<close>

theorem nonce_single_use:
  "nonce_hits RegisterNonce ValidateNonce InvalidateNonce n ops s
     \<le> count_list ops (Reg n) + (if has_nonce s n then 1 else 0)"
  by (rule session_nonces.hits_bound)

text \<open>An offer stored under a fresh id is returned by every later lookup of that id,
  lookups do not consume it, and no nonce operation disturbs it; another offer stored later takes
  another id unless its sixteen random bytes are the same.\<close>

theorem offer_roundtrip:
  assumes "StoreCredentialOffer j r s = (oid, r', s')" and "\<exists>i < 16. r i \<noteq> q i"
  shows "GetCredentialOffer oid s' = Some j \<and>
    GetCredentialOffer oid (RegisterNonce n (InvalidateNonce m (snd (ValidateNonce k s')))) = Some j \<and>
    GetCredentialOffer oid (snd (snd (StoreCredentialOffer j2 q s'))) = Some j"
proof -
  from assms(1) have oid: "oid = fst (RandomToken 16 r)"
    and s': "s' = s\<lparr>credentialOffers := gm_put oid j (credentialOffers s)\<rparr>"
    by (auto simp: StoreCredentialOffer_def split_beta Let_def)
  have "fst (RandomToken 16 q) \<noteq> oid"
    using assms(2) by (auto simp: oid RandomToken_inject)
  then show ?thesis
    by (simp add: s' StoreCredentialOffer_def GetCredentialOffer_def split_beta Let_def)
qed

theorem offer_roundtrip_witness:
  "GetCredentialOffer (fst (RandomToken 16 (\<lambda>_. 0)))
     (snd (snd (StoreCredentialOffer ''b'' (\<lambda>_. 1)
       (snd (snd (StoreCredentialOffer ''a'' (\<lambda>_. 0) new_session_store)))))) = Some ''a''"
proof -
  let ?t = "StoreCredentialOffer ''a'' (\<lambda>_. 0) new_session_store"
  have h: "?t = (fst (RandomToken 16 (\<lambda>_. 0)), fst (snd ?t), snd (snd ?t))"
    by (simp add: StoreCredentialOffer_def split_beta Let_def)
  have "\<exists>i < (16 :: nat). ((\<lambda>_. 0) :: entropy) i \<noteq> (\<lambda>_. 1) i"
    by (rule exI [of _ 0]) simp
  then show ?thesis using offer_roundtrip [OF h, of "\<lambda>_. 1" n m k "''b''" for n m k] by simp
qed

end
