(* ===== verification/OAuth_Error.thy ===== *)
theory OAuth_Error
  imports Prelude
begin

text \<open>
  The error model of \<open>internal/oauth2/error.go\<close>: the OAuth2/OID4VCI error codes, the error body
  (\<open>Error\<close>), the error with its HTTP status (\<open>Exception\<close>) and its three constructors. Go's \<open>error\<close>
  interface has two inhabitants here, an \<open>*oauth2.Exception\<close> and any other error, known by its
  text: the HTTP layer distinguishes them by a type assertion.
\<close>

definition InvalidRequest :: string where "InvalidRequest = ''invalid_request''"
definition InvalidGrant :: string where "InvalidGrant = ''invalid_grant''"
definition InvalidClient :: string where "InvalidClient = ''invalid_client''"
definition InvalidToken :: string where "InvalidToken = ''invalid_token''"
definition InvalidProof :: string where "InvalidProof = ''invalid_proof''"
definition InvalidNonce :: string where "InvalidNonce = ''invalid_nonce''"
definition UnknownCredentialConfiguration :: string where
  "UnknownCredentialConfiguration = ''unknown_credential_configuration''"
definition UnknownCredentialIdentifier :: string where
  "UnknownCredentialIdentifier = ''unknown_credential_identifier''"
definition InvalidCredentialRequest :: string where
  "InvalidCredentialRequest = ''invalid_credential_request''"

lemmas oauth_codes =
  InvalidRequest_def InvalidGrant_def InvalidClient_def InvalidToken_def InvalidProof_def
  InvalidNonce_def UnknownCredentialConfiguration_def UnknownCredentialIdentifier_def
  InvalidCredentialRequest_def

record oauth_error =
  err_code :: string
  err_description :: string

record oauth_exception =
  http_status :: int
  exc_err :: oauth_error

definition exception_text :: "oauth_exception \<Rightarrow> string" where
  "exception_text e = err_code (exc_err e) @ '': '' @ err_description (exc_err e)"

datatype go_error = OAuth oauth_exception | Plain string

fun error_text :: "go_error \<Rightarrow> string" where
  "error_text (OAuth e) = exception_text e"
| "error_text (Plain s) = s"

definition BadRequest :: "string \<Rightarrow> string \<Rightarrow> go_error" where
  "BadRequest code description =
     OAuth \<lparr>http_status = 400, exc_err = \<lparr>err_code = code, err_description = description\<rparr>\<rparr>"

definition Unauthorized :: "string \<Rightarrow> string \<Rightarrow> go_error" where
  "Unauthorized code description =
     OAuth \<lparr>http_status = 401, exc_err = \<lparr>err_code = code, err_description = description\<rparr>\<rparr>"

definition ServiceUnavailable :: "string \<Rightarrow> string \<Rightarrow> go_error" where
  "ServiceUnavailable code description =
     OAuth \<lparr>http_status = 503, exc_err = \<lparr>err_code = code, err_description = description\<rparr>\<rparr>"

text \<open>
  What an endpoint may answer with when it fails: an \<open>Exception\<close> of one of the three statuses,
  never a bare error (which the HTTP layer would turn into a 500).
\<close>

fun has_status :: "int set \<Rightarrow> go_error \<Rightarrow> bool" where
  "has_status S (OAuth e) = (http_status e \<in> S)"
| "has_status S (Plain s) = False"

lemma has_status_ctors [simp]:
  "has_status S (BadRequest c d) \<longleftrightarrow> 400 \<in> S"
  "has_status S (Unauthorized c d) \<longleftrightarrow> 401 \<in> S"
  "has_status S (ServiceUnavailable c d) \<longleftrightarrow> 503 \<in> S"
  by (simp_all add: BadRequest_def Unauthorized_def ServiceUnavailable_def)

lemma has_status_mono: "has_status S e \<Longrightarrow> S \<subseteq> T \<Longrightarrow> has_status T e"
  by (cases e) auto

lemma oauth_ctors_distinct [simp]:
  "BadRequest c d \<noteq> Unauthorized c' d'" "Unauthorized c' d' \<noteq> BadRequest c d"
  "BadRequest c d \<noteq> ServiceUnavailable c' d'" "ServiceUnavailable c' d' \<noteq> BadRequest c d"
  "Unauthorized c d \<noteq> ServiceUnavailable c' d'" "ServiceUnavailable c' d' \<noteq> Unauthorized c d"
  by (simp_all add: BadRequest_def Unauthorized_def ServiceUnavailable_def)

lemma oauth_ctors_inject [simp]:
  "BadRequest c d = BadRequest c' d' \<longleftrightarrow> c = c' \<and> d = d'"
  "Unauthorized c d = Unauthorized c' d' \<longleftrightarrow> c = c' \<and> d = d'"
  "ServiceUnavailable c d = ServiceUnavailable c' d' \<longleftrightarrow> c = c' \<and> d = d'"
  by (simp_all add: BadRequest_def Unauthorized_def ServiceUnavailable_def)

text \<open>The outcome of a function whose Go signature ends in \<open>error\<close>.\<close>

type_synonym 'a result = "(go_error, 'a) outcome"

text \<open>\<open>fails_with S r\<close>: if \<open>r\<close> is an error at all, it is an \<open>Exception\<close> with a status in \<open>S\<close>.\<close>

definition fails_with :: "int set \<Rightarrow> 'a result \<Rightarrow> bool" where
  "fails_with S r = (case r of Err e \<Rightarrow> has_status S e | _ \<Rightarrow> True)"

lemma fails_with_simps [simp]:
  "fails_with S (Ok x)" "fails_with S (Panic p)" "fails_with S (Err e) \<longleftrightarrow> has_status S e"
  by (simp_all add: fails_with_def)

lemma fails_with_then_ok [intro]:
  "fails_with S m \<Longrightarrow> (\<And>x. m = Ok x \<Longrightarrow> fails_with S (f x)) \<Longrightarrow> fails_with S (then_ok m f)"
  by (cases m) auto

lemma fails_with_st_then [intro]:
  "fails_with S (fst m) \<Longrightarrow> (\<And>x s. m = (Ok x, s) \<Longrightarrow> fails_with S (fst (f x s))) \<Longrightarrow>
   fails_with S (fst (st_then m f))"
  by (cases m; cases "fst m") auto

end
