(* ===== verification/Records.thy ===== *)
theory Records
  imports Session OAuth_Error
begin

text \<open>
  \<open>internal/issuance/recordstore.go\<close> and \<open>statusstore.go\<close>: the two interfaces the issuance service
  is written against. A Go interface value is a record of operations (\<open>record_ops\<close>,
  \<open>status_ops\<close>) over the provider's own state; what the service may rely on, whichever provider is
  plugged in, are the laws of the locales \<open>record_store\<close> and \<open>status_store\<close>. They allow any operation
  to fail the way a database call may: without effect, or after its effect with the answer lost.
\<close>

section \<open>Records and the outside world\<close>

record issuance_record =
  rec_ID :: string
  CredentialType :: string
  CredentialData :: string
  SourceType :: string
  SourceRef :: string
  rec_Status :: string
  rec_IssuerState :: string
  CreatedAt :: instant
  UpdatedAt :: instant

definition zero_record :: issuance_record where
  "zero_record = \<lparr>rec_ID = [], CredentialType = [], CredentialData = [], SourceType = [], SourceRef = [],
     rec_Status = [], rec_IssuerState = [], CreatedAt = zero_time, UpdatedAt = zero_time\<rparr>"

text \<open>The entropy tape and the readings of the clock, consumed as the code draws them.\<close>

record world =
  w_rand :: entropy
  w_clock :: "nat \<Rightarrow> instant"

definition time_Now :: "world \<Rightarrow> instant \<times> world" where
  "time_Now w = (w_clock w 0, w\<lparr>w_clock := \<lambda>n. w_clock w (Suc n)\<rparr>)"

definition draw_token :: "nat \<Rightarrow> world \<Rightarrow> string \<times> world" where
  "draw_token n w = (let (t, r) = RandomToken n (w_rand w) in (t, w\<lparr>w_rand := r\<rparr>))"

text \<open>A world for the witnesses: all bytes and all instants are zero.\<close>

definition zero_world :: world where
  "zero_world = \<lparr>w_rand = (\<lambda>_. 0), w_clock = (\<lambda>_. 0)\<rparr>"

section \<open>The interfaces\<close>

record 's record_ops =
  ro_Create :: "string \<Rightarrow> string \<Rightarrow> string \<Rightarrow> string \<Rightarrow> 's \<Rightarrow> world \<Rightarrow> issuance_record \<times> 's \<times> world"
  ro_FindByID :: "string \<Rightarrow> 's \<Rightarrow> issuance_record option \<times> 's"
  ro_FindByIssuerState :: "string \<Rightarrow> 's \<Rightarrow> issuance_record option \<times> 's"
  ro_UpdateStatus :: "string \<Rightarrow> string \<Rightarrow> 's \<Rightarrow> world \<Rightarrow> 's \<times> world"
  ro_UpdateIssuerState :: "string \<Rightarrow> string \<Rightarrow> 's \<Rightarrow> world \<Rightarrow> 's \<times> world"
  ro_FindAll :: "int \<Rightarrow> int \<Rightarrow> string \<Rightarrow> string \<Rightarrow> 's \<Rightarrow> (issuance_record list \<times> int) result \<times> 's"

definition StatusValid :: byte where "StatusValid = 0"
definition StatusInvalid :: byte where "StatusInvalid = 1"
definition StatusSuspended :: byte where "StatusSuspended = 2"

lemmas status_values = StatusValid_def StatusInvalid_def StatusSuspended_def

record 's status_ops =
  so_AllocateIdx :: "string \<Rightarrow> 's \<Rightarrow> int result \<times> 's"
  so_SetStatus :: "string \<Rightarrow> byte \<Rightarrow> 's \<Rightarrow> int option \<times> 's"
  so_FindByRecordID :: "string \<Rightarrow> 's \<Rightarrow> (int \<times> byte) option \<times> 's"
  so_AllEntries :: "'s \<Rightarrow> (int, byte) gomap result \<times> 's"

section \<open>The laws of a record store\<close>

text \<open>\<open>touched id f t t'\<close>: the table is unchanged, or the record \<open>id\<close> exists and had \<open>f\<close> applied and its
  modification time set.\<close>

definition touched ::
  "string \<Rightarrow> (issuance_record \<Rightarrow> issuance_record) \<Rightarrow> (string \<Rightarrow> issuance_record option) \<Rightarrow>
   (string \<Rightarrow> issuance_record option) \<Rightarrow> bool" where
  "touched i f t t' \<longleftrightarrow>
     t' = t \<or> (\<exists>r now. t i = Some r \<and> t' = t(i \<mapsto> (f r)\<lparr>UpdatedAt := now\<rparr>))"

definition set_status :: "string \<Rightarrow> issuance_record \<Rightarrow> issuance_record" where
  "set_status st r = r\<lparr>rec_Status := st\<rparr>"

definition set_issuer_state :: "string \<Rightarrow> issuance_record \<Rightarrow> issuance_record" where
  "set_issuer_state st r = r\<lparr>rec_IssuerState := st\<rparr>"

text \<open>What a record says of the credential it stands for; no update changes it.\<close>

definition content :: "issuance_record \<Rightarrow> string \<times> string \<times> string \<times> string \<times> string \<times> instant" where
  "content r = (rec_ID r, CredentialType r, CredentialData r, SourceType r, SourceRef r, CreatedAt r)"

lemma content_updates [simp]:
  "content (set_status st r) = content r" "content (set_issuer_state st r) = content r"
  "content (r\<lparr>UpdatedAt := u\<rparr>) = content r" "rec_Status (set_status st r) = st"
  "rec_IssuerState (set_issuer_state st r) = st" "rec_Status (set_issuer_state st r) = rec_Status r"
  "rec_IssuerState (set_status st r) = rec_IssuerState r"
  by (simp_all add: content_def set_status_def set_issuer_state_def)

text \<open>\<open>R\<close> is the record of operations the client calls; \<open>tab\<close> is the table a state holds and \<open>sound\<close> the
  provider's invariant.\<close>

locale record_store =
  fixes R :: "'s record_ops"
    and tab :: "'s \<Rightarrow> string \<Rightarrow> issuance_record option"
    and sound :: "'s \<Rightarrow> bool"
  assumes create:
    "sound s \<Longrightarrow> ro_Create R ct cd st sr s w = (r, s', w') \<Longrightarrow>
     sound s' \<and>
     (r = zero_record \<and> (tab s' = tab s \<or> (\<exists>i q. tab s i = None \<and> tab s' = (tab s)(i \<mapsto> q))) \<or>
      tab s' = (tab s)(rec_ID r \<mapsto> r) \<and> rec_Status r = ''pending'' \<and> CredentialType r = ct)"
    and find: "sound s \<Longrightarrow> ro_FindByID R i s = (res, s') \<Longrightarrow>
     sound s' \<and> tab s' = tab s \<and> (res = None \<or> res = tab s i)"
    and find_issuer_state: "sound s \<Longrightarrow> ro_FindByIssuerState R is s = (res, s') \<Longrightarrow>
     sound s' \<and> tab s' = tab s \<and> (case res of None \<Rightarrow> True | Some r \<Rightarrow> tab s (rec_ID r) = Some r)"
    and update_status: "sound s \<Longrightarrow> ro_UpdateStatus R i st s w = (s', w') \<Longrightarrow>
     sound s' \<and> touched i (set_status st) (tab s) (tab s')"
    and update_issuer_state: "sound s \<Longrightarrow> ro_UpdateIssuerState R i st s w = (s', w') \<Longrightarrow>
     sound s' \<and> touched i (set_issuer_state st) (tab s) (tab s')"
    and find_all: "sound s \<Longrightarrow> ro_FindAll R offset limit field order s = (page, s') \<Longrightarrow>
     sound s' \<and> tab s' = tab s \<and>
     (case page of Ok (rs, n) \<Rightarrow> (\<forall>r \<in> set rs. tab s (rec_ID r) = Some r) | _ \<Rightarrow> True)"
    and keyed: "sound s \<Longrightarrow> tab s i = Some r \<Longrightarrow> rec_ID r = i"

section \<open>The laws of a status list store\<close>

locale status_store =
  fixes S :: "'s status_ops"
    and ent :: "'s \<Rightarrow> string \<Rightarrow> (int \<times> byte) option"
    and sane :: "'s \<Rightarrow> bool"
    and room :: "'s \<Rightarrow> bool"
  assumes alloc_old: "sane s \<Longrightarrow> ent s r = Some (i, v) \<Longrightarrow> so_AllocateIdx S r s = (res, s') \<Longrightarrow>
     sane s' \<and> ent s' = ent s \<and> (res = Ok i \<or> (\<exists>e. res = Err e))"
    and alloc_new: "sane s \<Longrightarrow> room s \<Longrightarrow> ent s r = None \<Longrightarrow> so_AllocateIdx S r s = (res, s') \<Longrightarrow>
     sane s' \<and>
     (ent s' = ent s \<and> (\<exists>e. res = Err e) \<or>
      (\<exists>i. (\<forall>q j v. ent s q = Some (j, v) \<longrightarrow> j < i) \<and> ent s' = (ent s)(r \<mapsto> (i, StatusValid)) \<and>
           (res = Ok i \<or> (\<exists>e. res = Err e))))"
    and set_result: "sane s \<Longrightarrow> so_SetStatus S r v s = (upd, s') \<Longrightarrow>
     sane s' \<and>
     (ent s' = ent s \<and> upd = None \<or>
      (\<exists>i u. ent s r = Some (i, u) \<and> ent s' = (ent s)(r \<mapsto> (i, v)) \<and> (upd = Some i \<or> upd = None)))"
    and lookup: "sane s \<Longrightarrow> so_FindByRecordID S r s = (hit, s') \<Longrightarrow>
     sane s' \<and> ent s' = ent s \<and> (hit = None \<or> hit = ent s r)"
    and entries: "sane s \<Longrightarrow> so_AllEntries S s = (all, s') \<Longrightarrow>
     sane s' \<and> ent s' = ent s \<and> (\<forall>p. all \<noteq> Panic p) \<and>
     (case all of Ok m \<Rightarrow> gm_wf m \<and> (\<forall>i v. gm_get m i = Some v \<longleftrightarrow> (\<exists>r. ent s r = Some (i, v))) | _ \<Rightarrow> True)"
    and idx_inj: "sane s \<Longrightarrow> ent s r = Some (i, u) \<Longrightarrow> ent s q = Some (i, v) \<Longrightarrow> r = q"
    and idx_range: "sane s \<Longrightarrow> ent s r = Some (i, u) \<Longrightarrow> 0 \<le> i \<and> i < 2 ^ 63 - 1"

end
