(* ===== verification/Memory_Store.thy ===== *)
theory Memory_Store
  imports Records
begin

text \<open>
  \<open>internal/issuance/store.go\<close>: the in-memory store, one Go struct serving as both the record store
  and the status list store. Every operation holds the matching mutex, so an execution is a sequence
  of these operations. Two things Go leaves open are arguments: \<open>it\<close>, the order in which a map is
  iterated, and \<open>big\<close>, what \<open>sort.Slice\<close> does above twelve elements (below, it is the insertion
  sort modelled here).
\<close>

section \<open>The store\<close>

record memory_store =
  mem_records :: "(string, issuance_record) gomap"
  byIssuerState :: "(string, string) gomap"
  statusNextIdx :: int
  statusByIdx :: "(int, byte) gomap"
  statusByRecID :: "(string, int) gomap"

definition NewStore :: memory_store where
  "NewStore = \<lparr>mem_records = [], byIssuerState = [], statusNextIdx = 0, statusByIdx = [], statusByRecID = []\<rparr>"

definition mem_Create ::
  "string \<Rightarrow> string \<Rightarrow> string \<Rightarrow> string \<Rightarrow> memory_store \<Rightarrow> world \<Rightarrow>
   issuance_record \<times> memory_store \<times> world" where
  "mem_Create credentialType credentialData sourceType sourceRef s w0 =
     (let data = (if credentialData = [] then ''{}'' else credentialData);
          (now, w1) = time_Now w0;
          (rid, w2) = draw_token 16 w1;
          rc = \<lparr>rec_ID = rid, CredentialType = credentialType, CredentialData = data,
                SourceType = sourceType, SourceRef = sourceRef, rec_Status = ''pending'',
                rec_IssuerState = [], CreatedAt = now, UpdatedAt = now\<rparr>
      in (rc, s\<lparr>mem_records := gm_put rid rc (mem_records s)\<rparr>, w2))"

definition mem_FindByID :: "string \<Rightarrow> memory_store \<Rightarrow> issuance_record option \<times> memory_store" where
  "mem_FindByID i s = (gm_get (mem_records s) i, s)"

definition mem_FindByIssuerState ::
  "string \<Rightarrow> memory_store \<Rightarrow> issuance_record option \<times> memory_store" where
  "mem_FindByIssuerState issuerState s =
     (case gm_get (byIssuerState s) issuerState of
        None \<Rightarrow> (None, s)
      | Some i \<Rightarrow> (gm_get (mem_records s) i, s))"

definition mem_mutate ::
  "string \<Rightarrow> (issuance_record \<Rightarrow> issuance_record) \<Rightarrow> memory_store \<Rightarrow> world \<Rightarrow> memory_store \<times> world" where
  "mem_mutate i fn s w =
     (case gm_get (mem_records s) i of
        None \<Rightarrow> (s, w)
      | Some rc \<Rightarrow>
          (let (now, w') = time_Now w
           in (s\<lparr>mem_records := gm_put i ((fn rc)\<lparr>UpdatedAt := now\<rparr>) (mem_records s)\<rparr>, w')))"

definition mem_UpdateStatus ::
  "string \<Rightarrow> string \<Rightarrow> memory_store \<Rightarrow> world \<Rightarrow> memory_store \<times> world" where
  "mem_UpdateStatus i status s w = mem_mutate i (set_status status) s w"

definition mem_UpdateIssuerState ::
  "string \<Rightarrow> string \<Rightarrow> memory_store \<Rightarrow> world \<Rightarrow> memory_store \<times> world" where
  "mem_UpdateIssuerState i issuerState s w =
     (case gm_get (mem_records s) i of
        None \<Rightarrow> (s, w)
      | Some rc \<Rightarrow>
          (let (now, w') = time_Now w
           in (s\<lparr>mem_records := gm_put i (rc\<lparr>rec_IssuerState := issuerState, UpdatedAt := now\<rparr>) (mem_records s),
                 byIssuerState := gm_put issuerState i (byIssuerState s)\<rparr>, w')))"

section \<open>Listing\<close>

definition allowedSortFields :: "string list" where
  "allowedSortFields = [''created_at'', ''updated_at'', ''status'', ''credential_type'']"

definition sort_field :: "string \<Rightarrow> string" where
  "sort_field f = (if f \<in> set allowedSortFields then f else ''created_at'')"

definition sort_order :: "string \<Rightarrow> string" where
  "sort_order ord = (if ord \<noteq> ''asc'' \<and> ord \<noteq> ''desc'' then ''desc'' else ord)"

definition sortLess :: "issuance_record \<Rightarrow> issuance_record \<Rightarrow> string \<Rightarrow> bool" where
  "sortLess a b field =
     (if field = ''updated_at'' then UpdatedAt a < UpdatedAt b
      else if field = ''status'' then rec_Status a < rec_Status b
      else if field = ''credential_type'' then CredentialType a < CredentialType b
      else CreatedAt a < CreatedAt b)"

definition find_all_less :: "string \<Rightarrow> string \<Rightarrow> issuance_record \<Rightarrow> issuance_record \<Rightarrow> bool" where
  "find_all_less field ord a b =
     (if ord = ''desc'' then \<not> sortLess a b field else sortLess a b field)"

text \<open>
  \<open>sort.Slice\<close> sorts up to twelve elements by insertion: each element moves left past the ones it is
  less than. The sorted prefix is kept last element first.
\<close>

fun insert_back :: "('a \<Rightarrow> 'a \<Rightarrow> bool) \<Rightarrow> 'a \<Rightarrow> 'a list \<Rightarrow> 'a list" where
  "insert_back lt x [] = [x]"
| "insert_back lt x (y # ys) = (if lt x y then y # insert_back lt x ys else x # y # ys)"

definition insertion_sort :: "('a \<Rightarrow> 'a \<Rightarrow> bool) \<Rightarrow> 'a list \<Rightarrow> 'a list" where
  "insertion_sort lt xs = rev (foldl (\<lambda>acc x. insert_back lt x acc) [] xs)"

type_synonym 'a big_sort = "('a \<Rightarrow> 'a \<Rightarrow> bool) \<Rightarrow> 'a list \<Rightarrow> 'a list"

definition sort_Slice :: "'a big_sort \<Rightarrow> ('a \<Rightarrow> 'a \<Rightarrow> bool) \<Rightarrow> 'a list \<Rightarrow> 'a list" where
  "sort_Slice big lt xs = (if length xs \<le> 12 then insertion_sort lt xs else big lt xs)"

text \<open>What is relied on above twelve elements: the result is a rearrangement of the slice.\<close>

definition rearranges :: "'a big_sort \<Rightarrow> bool" where
  "rearranges big \<longleftrightarrow> (\<forall>lt. iterates (big lt))"

text \<open>\<open>all[lo:hi]\<close>: out-of-order or negative bounds panic.\<close>

definition go_slice :: "'a list \<Rightarrow> int \<Rightarrow> int \<Rightarrow> ('e, 'a list) outcome" where
  "go_slice xs lo hi =
     (if 0 \<le> lo \<and> lo \<le> hi \<and> hi \<le> int (length xs)
      then Ok (take (nat (hi - lo)) (drop (nat lo) xs))
      else Panic ''slice bounds out of range'')"

text \<open>The records in the order asked for, before the page is cut out of them.\<close>

definition listing ::
  "(string \<times> issuance_record) iteration \<Rightarrow> issuance_record big_sort \<Rightarrow> string \<Rightarrow> string \<Rightarrow> memory_store \<Rightarrow>
   issuance_record list" where
  "listing it big sortField sortOrder s =
     (let field = sort_field sortField; ord = sort_order sortOrder
      in sort_Slice big (find_all_less field ord) (map snd (it (mem_records s))))"

definition mem_FindAll ::
  "(string \<times> issuance_record) iteration \<Rightarrow> issuance_record big_sort \<Rightarrow> int \<Rightarrow> int \<Rightarrow> string \<Rightarrow> string \<Rightarrow>
   memory_store \<Rightarrow> (issuance_record list \<times> int) result \<times> memory_store" where
  "mem_FindAll it big offset limit sortField sortOrder s =
     (let xs = listing it big sortField sortOrder s; n = int (length xs)
      in if offset \<ge> n then (Ok ([], n), s)
         else let e = i64 (offset + limit); e' = (if e > n then n else e)
              in (then_ok (go_slice xs offset e') (\<lambda>p. Ok (p, n)), s))"

section \<open>The status list\<close>

definition mem_AllocateIdx :: "string \<Rightarrow> memory_store \<Rightarrow> int result \<times> memory_store" where
  "mem_AllocateIdx r s =
     (case gm_get (statusByRecID s) r of
        Some idx \<Rightarrow> (Ok idx, s)
      | None \<Rightarrow>
          (let idx = statusNextIdx s
           in (Ok idx, s\<lparr>statusNextIdx := i64 (idx + 1),
                         statusByIdx := gm_put idx StatusValid (statusByIdx s),
                         statusByRecID := gm_put r idx (statusByRecID s)\<rparr>)))"

definition mem_SetStatus :: "string \<Rightarrow> byte \<Rightarrow> memory_store \<Rightarrow> int option \<times> memory_store" where
  "mem_SetStatus r v s =
     (case gm_get (statusByRecID s) r of
        None \<Rightarrow> (None, s)
      | Some idx \<Rightarrow> (Some idx, s\<lparr>statusByIdx := gm_put idx v (statusByIdx s)\<rparr>))"

definition mem_byte_at :: "memory_store \<Rightarrow> int \<Rightarrow> byte" where
  "mem_byte_at s idx = (case gm_get (statusByIdx s) idx of Some v \<Rightarrow> v | None \<Rightarrow> 0)"

definition mem_FindByRecordID :: "string \<Rightarrow> memory_store \<Rightarrow> (int \<times> byte) option \<times> memory_store" where
  "mem_FindByRecordID r s =
     (case gm_get (statusByRecID s) r of
        None \<Rightarrow> (None, s)
      | Some idx \<Rightarrow> (Some (idx, mem_byte_at s idx), s))"

definition mem_AllEntries ::
  "memory_store \<Rightarrow> (int, byte) gomap result \<times> memory_store" where
  "mem_AllEntries s = (Ok (foldl (\<lambda>m (i, v). gm_put i v m) [] (statusByIdx s)), s)"

section \<open>The two interfaces it provides\<close>

definition memory_records ::
  "(string \<times> issuance_record) iteration \<Rightarrow> issuance_record big_sort \<Rightarrow> memory_store record_ops" where
  "memory_records it big =
     \<lparr>ro_Create = mem_Create, ro_FindByID = mem_FindByID, ro_FindByIssuerState = mem_FindByIssuerState,
      ro_UpdateStatus = mem_UpdateStatus, ro_UpdateIssuerState = mem_UpdateIssuerState,
      ro_FindAll = mem_FindAll it big\<rparr>"

definition memory_status :: "memory_store status_ops" where
  "memory_status =
     \<lparr>so_AllocateIdx = mem_AllocateIdx, so_SetStatus = mem_SetStatus,
      so_FindByRecordID = mem_FindByRecordID, so_AllEntries = mem_AllEntries\<rparr>"

section \<open>Invariants and interpretations\<close>

definition mem_table :: "memory_store \<Rightarrow> string \<Rightarrow> issuance_record option" where
  "mem_table s = gm_get (mem_records s)"

definition mem_sound :: "memory_store \<Rightarrow> bool" where
  "mem_sound s \<longleftrightarrow> gm_wf (mem_records s) \<and> (\<forall>i r. gm_get (mem_records s) i = Some r \<longrightarrow> rec_ID r = i)"

lemma foldl_put_get:
  "gm_wf m \<Longrightarrow> gm_get (foldl (\<lambda>m (i, v). gm_put i v m) m0 m) = gm_get m0 ++ gm_get m"
proof (induction m arbitrary: m0)
  case (Cons a m)
  obtain i v where a: "a = (i, v)" by fastforce
  with Cons.prems have "gm_get m i = None"
    by (simp add: gm_wf_def map_of_eq_None_iff)
  with Cons a show ?case
    by (auto simp: gm_wf_def fun_eq_iff map_add_def split: option.splits)
qed simp

lemma foldl_put_wf: "gm_wf m0 \<Longrightarrow> gm_wf (foldl (\<lambda>m (i, v). gm_put i v m) m0 m)"
  by (induction m arbitrary: m0) auto

lemma insert_back_mset: "mset (insert_back lt x ys) = add_mset x (mset ys)"
  by (induction ys) auto

lemma foldl_insert_mset:
  "mset (foldl (\<lambda>acc x. insert_back lt x acc) acc xs) = mset acc + mset xs"
  by (induction xs arbitrary: acc) (simp_all add: insert_back_mset)

lemma insertion_sort_mset: "mset (insertion_sort lt xs) = mset xs"
  by (simp add: insertion_sort_def foldl_insert_mset)

lemma sort_Slice_mset: "rearranges big \<Longrightarrow> mset (sort_Slice big lt xs) = mset xs"
  by (simp add: sort_Slice_def insertion_sort_mset rearranges_def iterates_def)

lemma sort_Slice_set: "rearranges big \<Longrightarrow> set (sort_Slice big lt xs) = set xs"
  using sort_Slice_mset mset_eq_setD by blast

lemma go_slice_subset: "go_slice xs lo hi = Ok ys \<Longrightarrow> set ys \<subseteq> set xs"
  by (auto simp: go_slice_def split: if_splits dest: in_set_takeD in_set_dropD)

lemma mem_sound_ops [simp]:
  "mem_sound NewStore"
  "mem_sound s \<Longrightarrow> mem_sound (fst (snd (mem_Create ct cd st sr s w)))"
  "mem_sound s \<Longrightarrow> mem_sound (fst (mem_UpdateStatus i x s w))"
  "mem_sound s \<Longrightarrow> mem_sound (fst (mem_UpdateIssuerState i x s w))"
  by (auto simp: mem_sound_def NewStore_def mem_Create_def mem_UpdateStatus_def mem_mutate_def
      mem_UpdateIssuerState_def set_status_def split_beta Let_def split: option.splits)

lemma mem_updates_touch:
  "touched i (set_status x) (mem_table s) (mem_table (fst (mem_UpdateStatus i x s w)))"
  "touched i (set_issuer_state x) (mem_table s) (mem_table (fst (mem_UpdateIssuerState i x s w)))"
  by (auto simp: touched_def mem_table_def mem_UpdateStatus_def mem_mutate_def mem_UpdateIssuerState_def
      set_issuer_state_def split_beta Let_def split: option.splits)

lemma mem_Create_eq:
  "mem_Create ct cd st sr s w = (r, s', w') \<Longrightarrow>
   mem_table s' = (mem_table s)(rec_ID r \<mapsto> r) \<and> rec_Status r = ''pending'' \<and> CredentialType r = ct"
  by (auto simp: mem_Create_def mem_table_def split_beta Let_def)

lemma mem_FindAll_members:
  assumes "rearranges big" and "iterates it" and "mem_sound s"
    and "mem_FindAll it big offset limit f ord s = (Ok (rs, n), s')" and "r \<in> set rs"
  shows "mem_table s (rec_ID r) = Some r"
proof -
  have "r \<in> snd ` set (it (mem_records s))"
    using assms(1,4,5)
    by (auto simp: mem_FindAll_def listing_def Let_def go_outcome sort_Slice_set dest!: go_slice_subset split: if_splits)
  then obtain i where "(i, r) \<in> set (mem_records s)"
    using iterates_set [OF assms(2)] by auto
  with assms(3) show ?thesis
    by (auto simp: mem_sound_def mem_table_def gm_get_in)
qed

lemma memory_record_store:
  assumes "rearranges big" and "iterates it"
  shows "record_store (memory_records it big) mem_table mem_sound"
proof unfold_locales
  fix s :: memory_store and ct cd st sr w r s' w'
  assume h: "mem_sound s" "ro_Create (memory_records it big) ct cd st sr s w = (r, s', w')"
  then have "mem_Create ct cd st sr s w = (r, s', w')" by (simp add: memory_records_def)
  with mem_Create_eq mem_sound_ops(2) [OF h(1), of ct cd st sr w]
  show "mem_sound s' \<and> (r = zero_record \<and> (mem_table s' = mem_table s \<or>
      (\<exists>i q. mem_table s i = None \<and> mem_table s' = (mem_table s)(i \<mapsto> q))) \<or>
      mem_table s' = (mem_table s)(rec_ID r \<mapsto> r) \<and> rec_Status r = ''pending'' \<and> CredentialType r = ct)"
    by simp
next
  fix s :: memory_store and i res s'
  assume "mem_sound s" "ro_FindByID (memory_records it big) i s = (res, s')"
  then show "mem_sound s' \<and> mem_table s' = mem_table s \<and> (res = None \<or> res = mem_table s i)"
    by (auto simp: memory_records_def mem_FindByID_def mem_table_def)
next
  fix s :: memory_store and i res s'
  assume "mem_sound s" "ro_FindByIssuerState (memory_records it big) i s = (res, s')"
  then show "mem_sound s' \<and> mem_table s' = mem_table s \<and>
      (case res of None \<Rightarrow> True | Some r \<Rightarrow> mem_table s (rec_ID r) = Some r)"
    by (auto simp: memory_records_def mem_FindByIssuerState_def mem_table_def mem_sound_def
        split: option.splits)
next
  fix s :: memory_store and i x w s' w'
  assume "mem_sound s" "ro_UpdateStatus (memory_records it big) i x s w = (s', w')"
  then show "mem_sound s' \<and> touched i (set_status x) (mem_table s) (mem_table s')"
    using mem_sound_ops(3) [of s i x w] mem_updates_touch(1) [of i x s w] by (simp add: memory_records_def)
next
  fix s :: memory_store and i x w s' w'
  assume "mem_sound s" "ro_UpdateIssuerState (memory_records it big) i x s w = (s', w')"
  then show "mem_sound s' \<and> touched i (set_issuer_state x) (mem_table s) (mem_table s')"
    using mem_sound_ops(4) [of s i x w] mem_updates_touch(2) [of i x s w] by (simp add: memory_records_def)
next
  fix s :: memory_store and offset limit f ord page s'
  assume h: "mem_sound s" "ro_FindAll (memory_records it big) offset limit f ord s = (page, s')"
  then have "s' = s" and m: "mem_FindAll it big offset limit f ord s = (page, s')"
    by (auto simp: memory_records_def mem_FindAll_def Let_def split: if_splits)
  then show "mem_sound s' \<and> mem_table s' = mem_table s \<and>
      (case page of Ok (rs, n) \<Rightarrow> \<forall>r \<in> set rs. mem_table s (rec_ID r) = Some r | _ \<Rightarrow> True)"
    using h mem_FindAll_members [OF assms h(1)] by (auto split: outcome.splits)
next
  fix s :: memory_store and i r
  assume "mem_sound s" "mem_table s i = Some r"
  then show "rec_ID r = i" by (simp add: mem_sound_def mem_table_def)
qed

interpretation memory_rec: record_store "memory_records (\<lambda>xs. xs) insertion_sort" mem_table mem_sound
proof -
  have "rearranges (insertion_sort :: issuance_record big_sort)"
    by (simp add: rearranges_def iterates_def insertion_sort_mset)
  then show "record_store (memory_records (\<lambda>xs. xs) insertion_sort) mem_table mem_sound"
    by (intro memory_record_store) simp_all
qed

text \<open>
  The status list: \<open>mem_entries\<close> joins the two maps, and \<open>mem_sane\<close> says that they describe one
  injective assignment of the indices below the next free one. \<open>mem_room\<close> is the bound under which
  the 64-bit counter does not wrap.
\<close>

definition mem_entries :: "memory_store \<Rightarrow> string \<Rightarrow> (int \<times> byte) option" where
  "mem_entries s r = map_option (\<lambda>i. (i, mem_byte_at s i)) (gm_get (statusByRecID s) r)"

definition mem_sane :: "memory_store \<Rightarrow> bool" where
  "mem_sane s \<longleftrightarrow> gm_wf (statusByIdx s) \<and> gm_wf (statusByRecID s) \<and>
     0 \<le> statusNextIdx s \<and> statusNextIdx s < 2 ^ 63 \<and>
     (\<forall>r i. gm_get (statusByRecID s) r = Some i \<longrightarrow>
        0 \<le> i \<and> i < statusNextIdx s \<and> gm_get (statusByIdx s) i \<noteq> None) \<and>
     (\<forall>r q i. gm_get (statusByRecID s) r = Some i \<and> gm_get (statusByRecID s) q = Some i \<longrightarrow> r = q) \<and>
     (\<forall>i v. gm_get (statusByIdx s) i = Some v \<longrightarrow> (\<exists>r. gm_get (statusByRecID s) r = Some i))"

definition mem_room :: "memory_store \<Rightarrow> bool" where
  "mem_room s \<longleftrightarrow> statusNextIdx s < 2 ^ 63 - 1"

lemma mem_entries_iff:
  "mem_entries s r = Some (i, v) \<longleftrightarrow> gm_get (statusByRecID s) r = Some i \<and> v = mem_byte_at s i"
  by (auto simp: mem_entries_def)

lemma mem_alloc_cases:
  "gm_get (statusByRecID s) r = Some i \<Longrightarrow> mem_AllocateIdx r s = (Ok i, s)"
  "gm_get (statusByRecID s) r = None \<Longrightarrow> mem_AllocateIdx r s =
     (Ok (statusNextIdx s), s\<lparr>statusNextIdx := i64 (statusNextIdx s + 1),
        statusByIdx := gm_put (statusNextIdx s) StatusValid (statusByIdx s),
        statusByRecID := gm_put r (statusNextIdx s) (statusByRecID s)\<rparr>)"
  by (simp_all add: mem_AllocateIdx_def Let_def)

lemma mem_saneD:
  assumes "mem_sane s"
  shows "gm_get (statusByRecID s) r = Some i \<Longrightarrow> 0 \<le> i \<and> i < statusNextIdx s \<and> gm_get (statusByIdx s) i \<noteq> None"
    and "gm_get (statusByRecID s) r = Some i \<Longrightarrow> gm_get (statusByRecID s) q = Some i \<Longrightarrow> r = q"
    and "gm_get (statusByIdx s) i = Some v \<Longrightarrow> \<exists>r. gm_get (statusByRecID s) r = Some i"
  using assms by (simp_all add: mem_sane_def)

lemma mem_sane_alloc:
  assumes "mem_sane s" and "mem_room s"
  shows "mem_sane (snd (mem_AllocateIdx r s))"
proof (cases "gm_get (statusByRecID s) r")
  case None
  let ?n = "statusNextIdx s" and ?t = "snd (mem_AllocateIdx r s)"
  have "in_i64 (?n + 1)"
    using assms by (simp add: mem_sane_def mem_room_def in_i64_def)
  then have t: "statusNextIdx ?t = ?n + 1"
    "gm_get (statusByIdx ?t) = (gm_get (statusByIdx s))(?n \<mapsto> StatusValid)"
    "gm_get (statusByRecID ?t) = (gm_get (statusByRecID s))(r \<mapsto> ?n)"
    "gm_wf (statusByIdx ?t)" "gm_wf (statusByRecID ?t)" "0 \<le> ?n" "?n < 2 ^ 63 - 1"
    using assms by (simp_all add: mem_alloc_cases(2) [OF None] mem_sane_def mem_room_def fun_eq_iff)
  note old = mem_saneD [OF assms(1)]
  have used: "0 \<le> i \<and> i < ?n + 1 \<and> gm_get (statusByIdx ?t) i \<noteq> None"
    if "gm_get (statusByRecID ?t) q = Some i" for q i
    using that old(1) [of q i] t(6) unfolding t by (auto split: if_splits)
  have inj: "q = q'"
    if "gm_get (statusByRecID ?t) q = Some i" "gm_get (statusByRecID ?t) q' = Some i" for q q' i
    using that old(1) [of q i] old(1) [of q' i] old(2) [of q i q'] unfolding t by (auto split: if_splits)
  have cover: "\<exists>q. gm_get (statusByRecID ?t) q = Some i" if "gm_get (statusByIdx ?t) i = Some v" for i v
    using that old(3) [of i v] None unfolding t
    by (cases "i = ?n") (auto intro: exI [of _ r], metis option.distinct(1))
  have bounds: "0 \<le> statusNextIdx ?t" "statusNextIdx ?t < 2 ^ 63" using t(1,6,7) by simp_all
  show ?thesis
    unfolding mem_sane_def using t(4,5) bounds used [folded t(1)] inj cover
    by (intro conjI allI impI; (elim conjE)?; blast)
qed (simp add: mem_alloc_cases assms)

lemma mem_entries_alloc:
  assumes "mem_sane s" and "mem_entries s r = None"
  shows "mem_entries (snd (mem_AllocateIdx r s)) = (mem_entries s)(r \<mapsto> (statusNextIdx s, StatusValid))"
proof
  fix q
  from assms(2) have none: "gm_get (statusByRecID s) r = None" by (simp add: mem_entries_def)
  show "mem_entries (snd (mem_AllocateIdx r s)) q = ((mem_entries s)(r \<mapsto> (statusNextIdx s, StatusValid))) q"
    using mem_saneD(1) [OF assms(1), of q]
    by (cases "gm_get (statusByRecID s) q")
      (auto simp: mem_alloc_cases(2) [OF none] mem_entries_def mem_byte_at_def)
qed

lemma mem_set_sane: "mem_sane s \<Longrightarrow> mem_sane (snd (mem_SetStatus r v s))"
  by (auto simp: mem_SetStatus_def mem_sane_def split: option.splits)

lemma mem_set_entries:
  assumes "mem_sane s"
  shows "(case gm_get (statusByRecID s) r of
      None \<Rightarrow> mem_SetStatus r v s = (None, s) \<and> mem_entries s r = None
    | Some i \<Rightarrow> fst (mem_SetStatus r v s) = Some i \<and> mem_entries s r = Some (i, mem_byte_at s i) \<and>
        mem_entries (snd (mem_SetStatus r v s)) = (mem_entries s)(r \<mapsto> (i, v)))"
proof (cases "gm_get (statusByRecID s) r")
  case (Some i)
  have "mem_entries (snd (mem_SetStatus r v s)) q = ((mem_entries s)(r \<mapsto> (i, v))) q" for q
    using assms Some
    by (cases "gm_get (statusByRecID s) q") (auto simp: mem_SetStatus_def mem_entries_def mem_byte_at_def mem_sane_def)
  with Some show ?thesis by (auto simp: mem_SetStatus_def mem_entries_def)
qed (simp add: mem_SetStatus_def mem_entries_def)

lemma mem_all_entries:
  assumes "mem_sane s"
  shows "\<exists>m. mem_AllEntries s = (Ok m, s) \<and> gm_wf m \<and>
    (\<forall>i v. gm_get m i = Some v \<longleftrightarrow> (\<exists>r. mem_entries s r = Some (i, v)))"
proof (intro exI conjI allI)
  let ?m = "foldl (\<lambda>m (i, v). gm_put i v m) [] (statusByIdx s)"
  show "mem_AllEntries s = (Ok ?m, s)" by (simp add: mem_AllEntries_def)
  show "gm_wf ?m" by (simp add: foldl_put_wf)
  have get: "gm_get ?m = gm_get (statusByIdx s)"
    using assms by (simp add: foldl_put_get mem_sane_def)
  fix i v
  show "gm_get ?m i = Some v \<longleftrightarrow> (\<exists>r. mem_entries s r = Some (i, v))"
    using assms unfolding get mem_entries_iff mem_byte_at_def mem_sane_def
    by (fastforce split: option.splits)
qed

interpretation memory_stat: status_store memory_status mem_entries mem_sane mem_room
proof unfold_locales
  fix s r i v res s'
  assume "mem_sane s" "mem_entries s r = Some (i, v)" "so_AllocateIdx memory_status r s = (res, s')"
  then show "mem_sane s' \<and> mem_entries s' = mem_entries s \<and> (res = Ok i \<or> (\<exists>e. res = Err e))"
    by (auto simp: memory_status_def mem_entries_iff mem_alloc_cases)
next
  fix s r res s'
  assume h: "mem_sane s" "mem_room s" "mem_entries s r = None" "so_AllocateIdx memory_status r s = (res, s')"
  then have a: "mem_AllocateIdx r s = (res, s')" by (simp add: memory_status_def)
  have "res = Ok (statusNextIdx s)"
    using a h(3) by (simp add: mem_entries_def mem_alloc_cases)
  moreover have "\<forall>q j v. mem_entries s q = Some (j, v) \<longrightarrow> j < statusNextIdx s"
    using h(1) by (auto simp: mem_entries_iff mem_sane_def)
  ultimately show "mem_sane s' \<and> (mem_entries s' = mem_entries s \<and> (\<exists>e. res = Err e) \<or>
      (\<exists>i. (\<forall>q j v. mem_entries s q = Some (j, v) \<longrightarrow> j < i) \<and>
         mem_entries s' = (mem_entries s)(r \<mapsto> (i, StatusValid)) \<and> (res = Ok i \<or> (\<exists>e. res = Err e))))"
    using mem_sane_alloc [OF h(1,2), of r] mem_entries_alloc [OF h(1,3)] by (auto simp: a)
next
  fix s r v upd s'
  assume h: "mem_sane s" "so_SetStatus memory_status r v s = (upd, s')"
  then show "mem_sane s' \<and> (mem_entries s' = mem_entries s \<and> upd = None \<or>
      (\<exists>i u. mem_entries s r = Some (i, u) \<and> mem_entries s' = (mem_entries s)(r \<mapsto> (i, v)) \<and>
         (upd = Some i \<or> upd = None)))"
    using mem_set_entries [OF h(1), of r v] mem_set_sane [OF h(1), of r v]
    by (auto simp: memory_status_def split: option.splits)
next
  fix s r hit s'
  assume "mem_sane s" "so_FindByRecordID memory_status r s = (hit, s')"
  then show "mem_sane s' \<and> mem_entries s' = mem_entries s \<and> (hit = None \<or> hit = mem_entries s r)"
    by (auto simp: memory_status_def mem_FindByRecordID_def mem_entries_def split: option.splits)
next
  fix s all s'
  assume h: "mem_sane s" "so_AllEntries memory_status s = (all, s')"
  then show "mem_sane s' \<and> mem_entries s' = mem_entries s \<and> (\<forall>p. all \<noteq> Panic p) \<and>
      (case all of Ok m \<Rightarrow> gm_wf m \<and> (\<forall>i v. gm_get m i = Some v \<longleftrightarrow> (\<exists>r. mem_entries s r = Some (i, v)))
       | _ \<Rightarrow> True)"
    using mem_all_entries [OF h(1)] by (auto simp: memory_status_def)
next
  fix s r i u q v
  assume "mem_sane s" "mem_entries s r = Some (i, u)" "mem_entries s q = Some (i, v)"
  then show "r = q" by (auto simp: mem_entries_iff mem_sane_def)
next
  fix s r i u
  assume "mem_sane s" "mem_entries s r = Some (i, u)"
  then show "0 \<le> i \<and> i < 2 ^ 63 - 1" by (fastforce simp: mem_entries_iff mem_sane_def)
qed

end
