(* ===== verification/Pg_Store.thy ===== *)
theory Pg_Store
  imports Memory_Store
begin

text \<open>
  \<open>internal/issuance/postgres_store.go\<close> over the tables of \<open>db/schema.sql\<close>: the statements it sends
  with the constraints the schema declares (primary keys, the foreign key of a status entry, the two
  unique indices), and the database as a party that can refuse a statement or lose the connection
  after executing it. What the code does not determine is a parameter (\<open>pg_params\<close>): how \<open>jsonb\<close>
  re-renders a document, which strings \<open>TEXT\<close> accepts, the physical and the collation order of rows,
  and the texts of errors.
\<close>

section \<open>The database\<close>

datatype db_event = DbOk | DbErr string | DbLost string nat

record pg_params =
  jsonb_text :: "string \<Rightarrow> string option"
  text_ok :: "string \<Rightarrow> bool"
  pg_scan :: "issuance_record iteration"
  pg_order :: "string \<Rightarrow> string \<Rightarrow> issuance_record iteration"
  pg_message :: "string \<Rightarrow> string"

record pg_store =
  pg_records :: "(string, issuance_record) gomap"
  pg_status :: "(string, int \<times> byte) gomap"
  pg_next_idx :: int
  pg_events :: "nat \<Rightarrow> instant \<times> db_event"

text \<open>
  \<open>pg_events\<close> is what the database will do with the coming statements, each with the reading of the
  database's own clock at its start. \<open>now()\<close> is that reading in whole microseconds, as \<open>TIMESTAMPTZ\<close>
  keeps it; the clock of the process (\<open>world\<close>) plays no part.
\<close>

definition db_now :: "pg_store \<Rightarrow> instant" where
  "db_now s = fst (pg_events s 0) div 1000 * 1000"

definition next_event :: "pg_store \<Rightarrow> db_event \<times> pg_store" where
  "next_event s = (snd (pg_events s 0), s\<lparr>pg_events := \<lambda>n. pg_events s (Suc n)\<rparr>)"

text \<open>
  One statement outside a transaction: it is refused, or it runs (and may itself fail on a
  constraint, without effect), and then its answer arrives or is lost.
\<close>

definition autocommit ::
  "(pg_store \<Rightarrow> 'a option \<times> pg_store) \<Rightarrow> pg_store \<Rightarrow> 'a option \<times> pg_store" where
  "autocommit stmt s =
     (case next_event s of
        (DbOk, s') \<Rightarrow> stmt s'
      | (DbErr e, s') \<Rightarrow> (None, s')
      | (DbLost e n, s') \<Rightarrow> (None, snd (stmt s')))"

section \<open>Statements on \<open>issuance_records\<close>\<close>

definition sql_insert_record ::
  "pg_params \<Rightarrow> issuance_record \<Rightarrow> pg_store \<Rightarrow> issuance_record option \<times> pg_store" where
  "sql_insert_record P row s =
     (case jsonb_text P (CredentialData row) of
        None \<Rightarrow> (None, s)
      | Some data \<Rightarrow>
          if gm_get (pg_records s) (rec_ID row) \<noteq> None \<or>
             \<not> list_all (text_ok P) [rec_ID row, CredentialType row, SourceType row, SourceRef row]
          then (None, s)
          else let row' = row\<lparr>CredentialData := data\<rparr>
               in (Some row', s\<lparr>pg_records := gm_put (rec_ID row) row' (pg_records s)\<rparr>))"

definition sql_select_by_id ::
  "pg_params \<Rightarrow> string \<Rightarrow> pg_store \<Rightarrow> issuance_record option \<times> pg_store" where
  "sql_select_by_id P i s = (if text_ok P i then gm_get (pg_records s) i else None, s)"

definition sql_select_by_issuer_state ::
  "pg_params \<Rightarrow> string \<Rightarrow> pg_store \<Rightarrow> issuance_record option \<times> pg_store" where
  "sql_select_by_issuer_state P st s =
     (if text_ok P st
      then find (\<lambda>r. rec_IssuerState r = st) (pg_scan P (map snd (pg_records s)))
      else None, s)"

definition sql_update_status ::
  "pg_params \<Rightarrow> string \<Rightarrow> string \<Rightarrow> instant \<Rightarrow> pg_store \<Rightarrow> unit option \<times> pg_store" where
  "sql_update_status P i st now s =
     (if \<not> text_ok P i \<or> \<not> text_ok P st then (None, s)
      else case gm_get (pg_records s) i of
        None \<Rightarrow> (Some (), s)
      | Some r \<Rightarrow> (Some (), s\<lparr>pg_records := gm_put i (r\<lparr>rec_Status := st, UpdatedAt := now\<rparr>) (pg_records s)\<rparr>))"

text \<open>The partial unique index on non-empty \<open>issuer_state\<close> values.\<close>

definition issuer_state_taken :: "string \<Rightarrow> string \<Rightarrow> pg_store \<Rightarrow> bool" where
  "issuer_state_taken i st s \<longleftrightarrow>
     st \<noteq> [] \<and> list_ex (\<lambda>(j, r). j \<noteq> i \<and> rec_IssuerState r = st) (pg_records s)"

definition sql_update_issuer_state ::
  "pg_params \<Rightarrow> string \<Rightarrow> string \<Rightarrow> instant \<Rightarrow> pg_store \<Rightarrow> unit option \<times> pg_store" where
  "sql_update_issuer_state P i st now s =
     (if \<not> text_ok P i \<or> \<not> text_ok P st then (None, s)
      else case gm_get (pg_records s) i of
        None \<Rightarrow> (Some (), s)
      | Some r \<Rightarrow>
          if issuer_state_taken i st s then (None, s)
          else (Some (), s\<lparr>pg_records :=
                  gm_put i (r\<lparr>rec_IssuerState := st, UpdatedAt := now\<rparr>) (pg_records s)\<rparr>))"

section \<open>The record store\<close>

definition pg_new_row ::
  "string \<Rightarrow> string \<Rightarrow> string \<Rightarrow> string \<Rightarrow> instant \<Rightarrow> world \<Rightarrow> issuance_record \<times> world" where
  "pg_new_row credentialType credentialData sourceType sourceRef now w0 =
     (let data = (if credentialData = [] then ''{}'' else credentialData);
          (rid, w1) = draw_token 16 w0
      in (\<lparr>rec_ID = rid, CredentialType = credentialType, CredentialData = data,
           SourceType = sourceType, SourceRef = sourceRef, rec_Status = ''pending'',
           rec_IssuerState = [], CreatedAt = now, UpdatedAt = now\<rparr>, w1))"

definition pg_Create ::
  "pg_params \<Rightarrow> string \<Rightarrow> string \<Rightarrow> string \<Rightarrow> string \<Rightarrow> pg_store \<Rightarrow> world \<Rightarrow>
   issuance_record \<times> pg_store \<times> world" where
  "pg_Create P credentialType credentialData sourceType sourceRef s w =
     (let (row, w') = pg_new_row credentialType credentialData sourceType sourceRef (db_now s) w
      in case autocommit (sql_insert_record P row) s of
           (Some r, s') \<Rightarrow> (r, s', w')
         | (None, s') \<Rightarrow> (zero_record, s', w'))"

definition pg_FindByID :: "pg_params \<Rightarrow> string \<Rightarrow> pg_store \<Rightarrow> issuance_record option \<times> pg_store" where
  "pg_FindByID P i s = autocommit (sql_select_by_id P i) s"

definition pg_FindByIssuerState ::
  "pg_params \<Rightarrow> string \<Rightarrow> pg_store \<Rightarrow> issuance_record option \<times> pg_store" where
  "pg_FindByIssuerState P st s = autocommit (sql_select_by_issuer_state P st) s"

definition pg_UpdateStatus ::
  "pg_params \<Rightarrow> string \<Rightarrow> string \<Rightarrow> pg_store \<Rightarrow> world \<Rightarrow> pg_store \<times> world" where
  "pg_UpdateStatus P i st s w =
     (snd (autocommit (sql_update_status P i st (db_now s)) s), w)"

definition pg_UpdateIssuerState ::
  "pg_params \<Rightarrow> string \<Rightarrow> string \<Rightarrow> pg_store \<Rightarrow> world \<Rightarrow> pg_store \<times> world" where
  "pg_UpdateIssuerState P i st s w =
     (snd (autocommit (sql_update_issuer_state P i st (db_now s)) s), w)"

text \<open>
  The count and the page are two statements. A connection lost while the page is read ends the loop
  over its rows early: \<open>FindAll\<close> does not ask \<open>rows.Err()\<close>, so it returns the rows it has. A negative
  limit or offset is refused by the database.
\<close>

definition pg_FindAll ::
  "pg_params \<Rightarrow> int \<Rightarrow> int \<Rightarrow> string \<Rightarrow> string \<Rightarrow> pg_store \<Rightarrow>
   (issuance_record list \<times> int) result \<times> pg_store" where
  "pg_FindAll P offset limit sortField sortOrder s =
     (let field = sort_field sortField; ord = sort_order sortOrder in
      case autocommit (\<lambda>s. (Some (int (length (pg_records s))), s)) s of
        (None, s1) \<Rightarrow> (Ok ([], 0), s1)
      | (Some n, s1) \<Rightarrow>
          if offset < 0 \<or> limit < 0 then (Ok ([], n), snd (next_event s1))
          else let rows = take (nat limit) (drop (nat offset) (pg_order P field ord (map snd (pg_records s1))))
               in case next_event s1 of
                    (DbOk, s2) \<Rightarrow> (Ok (rows, n), s2)
                  | (DbErr e, s2) \<Rightarrow> (Ok ([], n), s2)
                  | (DbLost e k, s2) \<Rightarrow> (Ok (take k rows, n), s2))"

section \<open>The status list\<close>

text \<open>
  \<open>AllocateIdx\<close> is one transaction: an error before the commit rolls everything back, and a commit
  whose answer is lost may have happened. A conflict with a concurrent transaction shows up as an
  error of one of the statements.
\<close>

definition tx_commit :: "'a \<Rightarrow> pg_store \<Rightarrow> pg_store \<Rightarrow> 'a result \<times> pg_store" where
  "tx_commit v old new =
     (case next_event new of
        (DbOk, s') \<Rightarrow> (Ok v, s')
      | (DbErr e, s') \<Rightarrow> (Err (Plain e), old\<lparr>pg_events := pg_events s'\<rparr>)
      | (DbLost e n, s') \<Rightarrow> (Err (Plain e), s'))"

text \<open>A statement inside the transaction: \<open>k\<close> continues, and a failure restores the tables.\<close>

definition tx_stmt ::
  "pg_store \<Rightarrow> pg_store \<Rightarrow> (pg_store \<Rightarrow> 'a result \<times> pg_store) \<Rightarrow> 'a result \<times> pg_store" where
  "tx_stmt old s k =
     (case next_event s of
        (DbOk, s') \<Rightarrow> k s'
      | (DbErr e, s') \<Rightarrow> (Err (Plain e), old\<lparr>pg_events := pg_events s'\<rparr>)
      | (DbLost e n, s') \<Rightarrow> (Err (Plain e), old\<lparr>pg_events := pg_events s'\<rparr>))"

definition tx_fail :: "string \<Rightarrow> pg_store \<Rightarrow> pg_store \<Rightarrow> 'a result \<times> pg_store" where
  "tx_fail e old s = (Err (Plain e), old\<lparr>pg_events := pg_events s\<rparr>)"

definition pg_AllocateIdx :: "pg_params \<Rightarrow> string \<Rightarrow> pg_store \<Rightarrow> int result \<times> pg_store" where
  "pg_AllocateIdx P r s0 =
     tx_stmt s0 s0 (\<lambda>s.
     tx_stmt s0 s (\<lambda>s.
     if \<not> text_ok P r then tx_fail (pg_message P ''text'') s0 s
     else case gm_get (pg_status s) r of
       Some (existing, _) \<Rightarrow> tx_commit existing s0 s
     | None \<Rightarrow>
         tx_stmt s0 s (\<lambda>s.
         if pg_next_idx s + 1 \<ge> 2 ^ 63 then tx_fail (pg_message P ''bigint'') s0 s
         else let idx = pg_next_idx s; s = s\<lparr>pg_next_idx := idx + 1\<rparr> in
         tx_stmt s0 s (\<lambda>s.
         if gm_get (pg_records s) r = None \<or> list_ex (\<lambda>(_, j, _). j = idx) (pg_status s)
         then tx_fail (pg_message P ''constraint'') s0 s
         else tx_commit idx s0 (s\<lparr>pg_status := gm_put r (idx, StatusValid) (pg_status s)\<rparr>)))))"

definition sql_set_status ::
  "pg_params \<Rightarrow> string \<Rightarrow> byte \<Rightarrow> pg_store \<Rightarrow> int option \<times> pg_store" where
  "sql_set_status P r v s =
     (if text_ok P r then
        case gm_get (pg_status s) r of
          None \<Rightarrow> (None, s)
        | Some (idx, _) \<Rightarrow> (Some idx, s\<lparr>pg_status := gm_put r (idx, v) (pg_status s)\<rparr>)
      else (None, s))"

definition pg_SetStatus :: "pg_params \<Rightarrow> string \<Rightarrow> byte \<Rightarrow> pg_store \<Rightarrow> int option \<times> pg_store" where
  "pg_SetStatus P r v s = autocommit (sql_set_status P r v) s"

definition pg_FindByRecordID ::
  "pg_params \<Rightarrow> string \<Rightarrow> pg_store \<Rightarrow> (int \<times> byte) option \<times> pg_store" where
  "pg_FindByRecordID P r s =
     autocommit (\<lambda>s. (if text_ok P r then gm_get (pg_status s) r else None, s)) s"

definition pg_AllEntries :: "pg_store \<Rightarrow> (int, byte) gomap result \<times> pg_store" where
  "pg_AllEntries s =
     (case next_event s of
        (DbOk, s') \<Rightarrow> (Ok (foldl (\<lambda>m (r, i, v). gm_put i v m) [] (pg_status s')), s')
      | (DbErr e, s') \<Rightarrow> (Err (Plain e), s')
      | (DbLost e n, s') \<Rightarrow> (Err (Plain e), s'))"

definition postgres_records :: "pg_params \<Rightarrow> pg_store record_ops" where
  "postgres_records P =
     \<lparr>ro_Create = pg_Create P, ro_FindByID = pg_FindByID P, ro_FindByIssuerState = pg_FindByIssuerState P,
      ro_UpdateStatus = pg_UpdateStatus P, ro_UpdateIssuerState = pg_UpdateIssuerState P,
      ro_FindAll = pg_FindAll P\<rparr>"

definition postgres_status :: "pg_params \<Rightarrow> pg_store status_ops" where
  "postgres_status P =
     \<lparr>so_AllocateIdx = pg_AllocateIdx P, so_SetStatus = pg_SetStatus P,
      so_FindByRecordID = pg_FindByRecordID P, so_AllEntries = pg_AllEntries\<rparr>"

section \<open>What statements and transactions can do\<close>

lemma next_event_tables [simp]:
  "pg_records (snd (next_event s)) = pg_records s" "pg_status (snd (next_event s)) = pg_status s"
  "pg_next_idx (snd (next_event s)) = pg_next_idx s"
  by (simp_all add: next_event_def)

lemma next_event_eq: "\<exists>e ev. next_event s = (e, s\<lparr>pg_events := ev\<rparr>)"
  by (auto simp: next_event_def)

text \<open>An invariant of the tables that a statement keeps is kept under \<open>autocommit\<close>.\<close>

lemma autocommit_cases:
  assumes "autocommit stmt s = (res, s')"
  obtains (run) ev where "stmt (s\<lparr>pg_events := ev\<rparr>) = (res, s')"
  | (refused) ev where "res = None" "s' = s\<lparr>pg_events := ev\<rparr>"
  | (lost) ev where "res = None" "s' = snd (stmt (s\<lparr>pg_events := ev\<rparr>))"
proof -
  obtain e ev where "next_event s = (e, s\<lparr>pg_events := ev\<rparr>)" using next_event_eq by blast
  then show thesis
    using assms run [of ev] refused [of ev] lost [of ev] by (cases e) (auto simp: autocommit_def)
qed

lemma tx_stmt_cases:
  assumes "tx_stmt old s k = (res, s')"
  obtains (fail) e ev where "res = Err e" "s' = old\<lparr>pg_events := ev\<rparr>"
  | (go) ev where "k (s\<lparr>pg_events := ev\<rparr>) = (res, s')"
proof -
  obtain e ev where "next_event s = (e, s\<lparr>pg_events := ev\<rparr>)" using next_event_eq by blast
  then show thesis
    using assms fail go [of ev] by (cases e) (auto simp: tx_stmt_def)
qed

lemma tx_commit_cases:
  assumes "tx_commit v old new = (res, s')"
  obtains (fail) e ev where "res = Err e" "s' = old\<lparr>pg_events := ev\<rparr>"
  | (committed) ev where "s' = new\<lparr>pg_events := ev\<rparr>" "res = Ok v \<or> (\<exists>e. res = Err e)"
proof -
  obtain e ev where "next_event new = (e, new\<lparr>pg_events := ev\<rparr>)" using next_event_eq by blast
  then show thesis
    using assms fail committed [of ev] by (cases e) (auto simp: tx_commit_def)
qed

lemma pg_AllocateIdx_cases:
  assumes "pg_AllocateIdx P r s0 = (res, s')"
  obtains (fail) e ev where "res = Err e" "s' = s0\<lparr>pg_events := ev\<rparr>"
  | (old) i v ev where "gm_get (pg_status s0) r = Some (i, v)" "res = Ok i \<or> (\<exists>e. res = Err e)"
      "s' = s0\<lparr>pg_events := ev\<rparr>"
  | (new) ev where "gm_get (pg_status s0) r = None" "pg_next_idx s0 + 1 < 2 ^ 63"
      "gm_get (pg_records s0) r \<noteq> None" "text_ok P r"
      "s' = s0\<lparr>pg_next_idx := pg_next_idx s0 + 1,
               pg_status := gm_put r (pg_next_idx s0, StatusValid) (pg_status s0), pg_events := ev\<rparr>"
      "res = Ok (pg_next_idx s0) \<or> (\<exists>e. res = Err e)"
  using assms unfolding pg_AllocateIdx_def tx_fail_def Let_def
  by (elim tx_stmt_cases) (auto split: if_splits option.splits elim!: tx_stmt_cases tx_commit_cases)

section \<open>Invariants and interpretations\<close>

definition pg_table :: "pg_store \<Rightarrow> string \<Rightarrow> issuance_record option" where
  "pg_table s = gm_get (pg_records s)"

definition pg_sound :: "pg_store \<Rightarrow> bool" where
  "pg_sound s \<longleftrightarrow> gm_wf (pg_records s) \<and> (\<forall>i r. gm_get (pg_records s) i = Some r \<longrightarrow> rec_ID r = i)"

definition pg_entries :: "pg_store \<Rightarrow> string \<Rightarrow> (int \<times> byte) option" where
  "pg_entries s = gm_get (pg_status s)"

definition pg_sane :: "pg_store \<Rightarrow> bool" where
  "pg_sane s \<longleftrightarrow> gm_wf (pg_status s) \<and> 0 \<le> pg_next_idx s \<and> pg_next_idx s < 2 ^ 63 \<and>
     (\<forall>r i v. gm_get (pg_status s) r = Some (i, v) \<longrightarrow> 0 \<le> i \<and> i < pg_next_idx s) \<and>
     (\<forall>r q i u v. gm_get (pg_status s) r = Some (i, u) \<and> gm_get (pg_status s) q = Some (i, v) \<longrightarrow> r = q)"

lemma pg_events_irrelevant [simp]:
  "pg_table (s\<lparr>pg_events := ev\<rparr>) = pg_table s" "pg_sound (s\<lparr>pg_events := ev\<rparr>) = pg_sound s"
  "pg_entries (s\<lparr>pg_events := ev\<rparr>) = pg_entries s" "pg_sane (s\<lparr>pg_events := ev\<rparr>) = pg_sane s"
  by (simp_all add: pg_table_def pg_sound_def pg_entries_def pg_sane_def)

lemma pg_put_sound:
  "pg_sound s \<Longrightarrow> rec_ID r = i \<Longrightarrow> pg_sound (s\<lparr>pg_records := gm_put i r (pg_records s)\<rparr>)"
  by (simp add: pg_sound_def)

lemma sql_insert_record_cases:
  assumes "sql_insert_record P row s = (res, s')" and "pg_sound s"
  shows "pg_sound s' \<and>
    (res = None \<and> s' = s \<or>
     (\<exists>data. res = Some (row\<lparr>CredentialData := data\<rparr>) \<and> pg_table s (rec_ID row) = None \<and>
        pg_table s' = (pg_table s)(rec_ID row \<mapsto> row\<lparr>CredentialData := data\<rparr>)))"
  using assms
  by (auto simp: sql_insert_record_def pg_put_sound pg_table_def Let_def split: option.splits if_splits)

lemma sql_update_cases:
  assumes "pg_sound s"
  shows "pg_sound (snd (sql_update_status P i st now s)) \<and>
      touched i (set_status st) (pg_table s) (pg_table (snd (sql_update_status P i st now s)))"
    and "pg_sound (snd (sql_update_issuer_state P i st now s)) \<and>
      touched i (set_issuer_state st) (pg_table s) (pg_table (snd (sql_update_issuer_state P i st now s)))"
proof -
  have k: "rec_ID r = i" if "gm_get (pg_records s) i = Some r" for r
    using assms that by (simp add: pg_sound_def)
  show "pg_sound (snd (sql_update_status P i st now s)) \<and>
      touched i (set_status st) (pg_table s) (pg_table (snd (sql_update_status P i st now s)))"
    using assms k
    by (auto simp: sql_update_status_def pg_put_sound touched_def pg_table_def set_status_def split: option.splits)
  show "pg_sound (snd (sql_update_issuer_state P i st now s)) \<and>
      touched i (set_issuer_state st) (pg_table s) (pg_table (snd (sql_update_issuer_state P i st now s)))"
    using assms k
    by (auto simp: sql_update_issuer_state_def pg_put_sound touched_def pg_table_def set_issuer_state_def
        split: option.splits)
qed

lemma touched_refl [simp]: "touched i f t t"
  by (simp add: touched_def)

lemma autocommit_snd_inv:
  assumes "\<And>ev. I (s\<lparr>pg_events := ev\<rparr>)" and "\<And>ev. I (snd (stmt (s\<lparr>pg_events := ev\<rparr>)))"
  shows "I (snd (autocommit stmt s))"
proof -
  obtain e ev where "next_event s = (e, s\<lparr>pg_events := ev\<rparr>)" using next_event_eq by blast
  with assms show ?thesis by (cases e) (simp_all add: autocommit_def)
qed

lemma pg_Create_cases:
  assumes "pg_sound s" and "pg_Create P ct cd st sr s w = (r, s', w')"
  shows "pg_sound s' \<and>
     (r = zero_record \<and> (pg_table s' = pg_table s \<or>
        (\<exists>i q. pg_table s i = None \<and> pg_table s' = (pg_table s)(i \<mapsto> q))) \<or>
      pg_table s' = (pg_table s)(rec_ID r \<mapsto> r) \<and> rec_Status r = ''pending'' \<and> CredentialType r = ct)"
proof -
  obtain row w1 where new: "pg_new_row ct cd st sr (db_now s) w = (row, w1)" by fastforce
  then have row: "rec_Status row = ''pending''" "CredentialType row = ct"
    by (auto simp: pg_new_row_def Let_def split_beta)
  obtain res t where a: "autocommit (sql_insert_record P row) s = (res, t)" by fastforce
  with assms(2) have out: "(r, s') = (case res of Some r \<Rightarrow> (r, t) | None \<Rightarrow> (zero_record, t))"
    by (auto simp: pg_Create_def new split: option.splits)
  show ?thesis
    using a
  proof (cases rule: autocommit_cases)
    case (run ev)
    from sql_insert_record_cases [OF run] assms(1) out row show ?thesis
      by (auto split: option.splits)
  next
    case (refused ev)
    with assms(1) out show ?thesis by simp
  next
    case (lost ev)
    obtain res2 t2 where ins: "sql_insert_record P row (s\<lparr>pg_events := ev\<rparr>) = (res2, t2)" by fastforce
    from sql_insert_record_cases [OF this] assms(1) lost out show ?thesis
      by (auto simp: ins)
  qed
qed

lemma pg_select_cases:
  assumes "autocommit (\<lambda>s. (f s, s)) s = (res, s')" and "\<And>ev. f (s\<lparr>pg_events := ev\<rparr>) = f s"
  shows "(res = None \<or> res = f s) \<and> (\<exists>ev. s' = s\<lparr>pg_events := ev\<rparr>)"
  using assms(1) by (cases rule: autocommit_cases) (auto simp: assms(2))

definition pg_orders_ok :: "pg_params \<Rightarrow> bool" where
  "pg_orders_ok P \<longleftrightarrow> iterates (pg_scan P) \<and> (\<forall>f ord. iterates (pg_order P f ord))"

lemma pg_row_keyed:
  "pg_sound s \<Longrightarrow> r \<in> snd ` set (pg_records s) \<Longrightarrow> pg_table s (rec_ID r) = Some r"
  by (auto simp: pg_sound_def pg_table_def gm_get_in)

lemma pg_issuer_state_hit:
  assumes "pg_orders_ok P" and "pg_sound s"
    and "fst (sql_select_by_issuer_state P st s) = Some r"
  shows "pg_table s (rec_ID r) = Some r"
proof -
  have "r \<in> set (pg_scan P (map snd (pg_records s)))"
    using assms(3) by (auto simp: sql_select_by_issuer_state_def find_Some_iff split: if_splits)
  then have "r \<in> snd ` set (pg_records s)"
    using assms(1) by (simp add: pg_orders_ok_def iterates_set)
  with assms(2) show ?thesis by (rule pg_row_keyed)
qed

lemma pg_FindAll_state: "\<exists>ev. snd (pg_FindAll P offset limit f ord s) = s\<lparr>pg_events := ev\<rparr>"
proof -
  obtain res t where a: "autocommit (\<lambda>s. (Some (int (length (pg_records s))), s)) s = (res, t)" by fastforce
  then obtain ev where t: "t = s\<lparr>pg_events := ev\<rparr>"
    using pg_select_cases [of "\<lambda>s. Some (int (length (pg_records s)))" s res t] by auto
  obtain e ev2 where "next_event t = (e, t\<lparr>pg_events := ev2\<rparr>)" using next_event_eq by blast
  then show ?thesis
    by (cases e; cases res) (auto simp: pg_FindAll_def a t Let_def intro: exI)
qed

lemma pg_FindAll_rows:
  assumes "pg_orders_ok P" and "pg_sound s"
    and "fst (pg_FindAll P offset limit f ord s) = Ok (rs, n)" and "r \<in> set rs"
  shows "pg_table s (rec_ID r) = Some r"
proof -
  obtain res t where a: "autocommit (\<lambda>s. (Some (int (length (pg_records s))), s)) s = (res, t)" by fastforce
  then obtain ev where t: "t = s\<lparr>pg_events := ev\<rparr>"
    using pg_select_cases [of "\<lambda>s. Some (int (length (pg_records s)))" s res t] by auto
  obtain e ev2 where e: "next_event t = (e, t\<lparr>pg_events := ev2\<rparr>)" using next_event_eq by blast
  have "r \<in> set (pg_order P (sort_field f) (sort_order ord) (map snd (pg_records s)))"
    using assms(3,4) e
    by (cases e; cases res)
      (auto simp: pg_FindAll_def a t Let_def split: if_splits dest!: in_set_takeD in_set_dropD)
  then have "r \<in> snd ` set (pg_records s)"
    using assms(1) by (simp add: pg_orders_ok_def iterates_set)
  with assms(2) show ?thesis by (rule pg_row_keyed)
qed

lemma postgres_record_store:
  assumes "pg_orders_ok P"
  shows "record_store (postgres_records P) pg_table pg_sound"
proof unfold_locales
  fix s :: pg_store and ct cd st sr w r s' w'
  assume "pg_sound s" "ro_Create (postgres_records P) ct cd st sr s w = (r, s', w')"
  then show "pg_sound s' \<and> (r = zero_record \<and> (pg_table s' = pg_table s \<or>
      (\<exists>i q. pg_table s i = None \<and> pg_table s' = (pg_table s)(i \<mapsto> q))) \<or>
      pg_table s' = (pg_table s)(rec_ID r \<mapsto> r) \<and> rec_Status r = ''pending'' \<and> CredentialType r = ct)"
    using pg_Create_cases [of s P ct cd st sr w r s' w'] by (simp add: postgres_records_def)
next
  fix s :: pg_store and i res s'
  assume h: "pg_sound s" "ro_FindByID (postgres_records P) i s = (res, s')"
  let ?f = "\<lambda>s. if text_ok P i then gm_get (pg_records s) i else None"
  have "autocommit (\<lambda>s. (?f s, s)) s = (res, s')"
    using h(2) by (simp add: postgres_records_def pg_FindByID_def sql_select_by_id_def [abs_def])
  then have "(res = None \<or> res = ?f s) \<and> (\<exists>ev. s' = s\<lparr>pg_events := ev\<rparr>)"
    by (rule pg_select_cases) simp
  with h(1) show "pg_sound s' \<and> pg_table s' = pg_table s \<and> (res = None \<or> res = pg_table s i)"
    by (auto simp: pg_table_def split: if_splits)
next
  fix s :: pg_store and st res s'
  assume h: "pg_sound s" "ro_FindByIssuerState (postgres_records P) st s = (res, s')"
  let ?f = "\<lambda>s. fst (sql_select_by_issuer_state P st s)"
  have "autocommit (\<lambda>s. (?f s, s)) s = (res, s')"
    using h(2) by (simp add: postgres_records_def pg_FindByIssuerState_def sql_select_by_issuer_state_def [abs_def])
  then have "(res = None \<or> res = ?f s) \<and> (\<exists>ev. s' = s\<lparr>pg_events := ev\<rparr>)"
    by (rule pg_select_cases) (simp add: sql_select_by_issuer_state_def)
  with h(1) pg_issuer_state_hit [OF assms h(1)] show "pg_sound s' \<and> pg_table s' = pg_table s \<and>
      (case res of None \<Rightarrow> True | Some r \<Rightarrow> pg_table s (rec_ID r) = Some r)"
    by (auto split: option.splits)
next
  fix s :: pg_store and i st w s' w'
  assume h: "pg_sound s" "ro_UpdateStatus (postgres_records P) i st s w = (s', w')"
  then have s': "s' = snd (autocommit (sql_update_status P i st (db_now s)) s)"
    by (auto simp: postgres_records_def pg_UpdateStatus_def split_beta Let_def)
  show "pg_sound s' \<and> touched i (set_status st) (pg_table s) (pg_table s')"
    unfolding s' using sql_update_cases(1) [of "s\<lparr>pg_events := _\<rparr>"] h(1)
    by (intro autocommit_snd_inv [where I = "\<lambda>t. pg_sound t \<and> touched i (set_status st) (pg_table s) (pg_table t)"]) auto
next
  fix s :: pg_store and i st w s' w'
  assume h: "pg_sound s" "ro_UpdateIssuerState (postgres_records P) i st s w = (s', w')"
  then have s': "s' = snd (autocommit (sql_update_issuer_state P i st (db_now s)) s)"
    by (auto simp: postgres_records_def pg_UpdateIssuerState_def split_beta Let_def)
  show "pg_sound s' \<and> touched i (set_issuer_state st) (pg_table s) (pg_table s')"
    unfolding s' using sql_update_cases(2) [of "s\<lparr>pg_events := _\<rparr>"] h(1)
    by (intro autocommit_snd_inv [where I = "\<lambda>t. pg_sound t \<and> touched i (set_issuer_state st) (pg_table s) (pg_table t)"]) auto
next
  fix s :: pg_store and offset limit f ord page s'
  assume h: "pg_sound s" "ro_FindAll (postgres_records P) offset limit f ord s = (page, s')"
  then have m: "pg_FindAll P offset limit f ord s = (page, s')" by (simp add: postgres_records_def)
  have rows: "\<forall>rs n. page = Ok (rs, n) \<longrightarrow> (\<forall>r \<in> set rs. pg_table s (rec_ID r) = Some r)"
    using pg_FindAll_rows [OF assms h(1), of offset limit f ord] by (auto simp: m)
  from m pg_FindAll_state [of P offset limit f ord s] h(1) rows
  show "pg_sound s' \<and> pg_table s' = pg_table s \<and>
      (case page of Ok (rs, n) \<Rightarrow> \<forall>r \<in> set rs. pg_table s (rec_ID r) = Some r | _ \<Rightarrow> True)"
    by (auto split: outcome.splits)
next
  fix s :: pg_store and i r
  assume "pg_sound s" "pg_table s i = Some r"
  then show "rec_ID r = i" by (simp add: pg_sound_def pg_table_def)
qed

text \<open>A database without faults whose \<open>jsonb\<close> keeps the text, for the interpretation and witnesses.\<close>

definition plain_pg :: pg_params where
  "plain_pg = \<lparr>jsonb_text = Some, text_ok = (\<lambda>_. True), pg_scan = (\<lambda>xs. xs),
     pg_order = (\<lambda>f ord. insertion_sort (find_all_less f ord)), pg_message = (\<lambda>c. c)\<rparr>"

lemma plain_pg_orders: "pg_orders_ok plain_pg"
  by (simp add: pg_orders_ok_def plain_pg_def iterates_def insertion_sort_mset)

interpretation postgres_rec: record_store "postgres_records plain_pg" pg_table pg_sound
  by (rule postgres_record_store [OF plain_pg_orders])

lemma pg_saneD:
  assumes "pg_sane s"
  shows "gm_get (pg_status s) r = Some (i, v) \<Longrightarrow> 0 \<le> i \<and> i < pg_next_idx s"
    and "gm_get (pg_status s) r = Some (i, u) \<Longrightarrow> gm_get (pg_status s) q = Some (i, v) \<Longrightarrow> r = q"
  using assms unfolding pg_sane_def by blast+

lemma pg_sane_new:
  assumes "pg_sane s" and "pg_next_idx s + 1 < 2 ^ 63"
  shows "pg_sane (s\<lparr>pg_next_idx := pg_next_idx s + 1,
            pg_status := gm_put r (pg_next_idx s, v) (pg_status s), pg_events := ev\<rparr>)"
proof -
  have n: "0 \<le> pg_next_idx s" "gm_wf (pg_status s)" using assms(1) by (simp_all add: pg_sane_def)
  show ?thesis
    unfolding pg_sane_def
    using pg_saneD [OF assms(1)] n assms(2)
    by (auto split: if_splits) (force dest: pg_saneD(1) [OF assms(1)])+
qed

lemma pg_sane_set:
  assumes "pg_sane s" and "gm_get (pg_status s) r = Some (i, u)"
  shows "pg_sane (s\<lparr>pg_status := gm_put r (i, v) (pg_status s)\<rparr>)"
proof -
  have n: "0 \<le> pg_next_idx s" "pg_next_idx s < 2 ^ 63" "gm_wf (pg_status s)"
    using assms(1) by (simp_all add: pg_sane_def)
  show ?thesis
    unfolding pg_sane_def
    using pg_saneD(1) [OF assms] pg_saneD [OF assms(1)] n assms(2) by (auto split: if_splits)
qed

lemma sql_set_status_cases:
  assumes "sql_set_status P r v s = (upd, s')" and "pg_sane s"
  shows "pg_sane s' \<and>
    (pg_entries s' = pg_entries s \<and> upd = None \<or>
     (\<exists>i u. pg_entries s r = Some (i, u) \<and> pg_entries s' = (pg_entries s)(r \<mapsto> (i, v)) \<and> upd = Some i))"
  using assms pg_sane_set [of s r _ _ v]
  by (auto simp: sql_set_status_def pg_entries_def split: if_splits option.splits)

lemma foldl_entries_get:
  assumes "\<And>r q i u v. (r, i, u) \<in> set m \<Longrightarrow> (q, i, v) \<in> set m \<Longrightarrow> u = v"
  shows "gm_get (foldl (\<lambda>m (r :: 'k, i, v). gm_put i v m) m0 m) i = Some v \<longleftrightarrow>
    (\<exists>r. (r, i, v) \<in> set m) \<or> (\<forall>r u. (r, i, u) \<notin> set m) \<and> gm_get m0 i = Some v"
  using assms
proof (induction m arbitrary: m0)
  case (Cons a m)
  obtain r j u where a: "a = (r, j, u)" by (cases a) auto
  have same: "u = v" if "(q, j, v) \<in> set m" for q v
    using Cons.prems [of r j u q v] that by (simp add: a)
  have "gm_get (foldl (\<lambda>m (r, i, v). gm_put i v m) (gm_put j u m0) m) i = Some v \<longleftrightarrow>
    (\<exists>r. (r, i, v) \<in> set m) \<or> (\<forall>r u. (r, i, u) \<notin> set m) \<and> gm_get (gm_put j u m0) i = Some v"
    using Cons.prems by (intro Cons.IH) (meson list.set_intros(2))
  then show ?case using same by (auto simp: a split: if_splits)
qed simp

lemma pg_all_entries:
  assumes "pg_sane s" and "pg_AllEntries s = (all, s')"
  shows "pg_sane s' \<and> pg_entries s' = pg_entries s \<and> (\<forall>p. all \<noteq> Panic p) \<and>
      (case all of Ok m \<Rightarrow> gm_wf m \<and> (\<forall>i v. gm_get m i = Some v \<longleftrightarrow> (\<exists>r. pg_entries s r = Some (i, v)))
       | _ \<Rightarrow> True)"
proof -
  let ?m = "foldl (\<lambda>m (r, i, v). gm_put i v m) [] (pg_status s)"
  have wf: "gm_wf (pg_status s)" using assms(1) by (simp add: pg_sane_def)
  have mem: "(r, i, v) \<in> set (pg_status s) \<longleftrightarrow> pg_entries s r = Some (i, v)" for r i v
    using gm_get_in [OF wf] by (simp add: pg_entries_def)
  have uniq: "u = v" if "(r, i, u) \<in> set (pg_status s)" "(q, i, v) \<in> set (pg_status s)" for r q i u v
    using pg_saneD(2) [OF assms(1), of r i u q v] that unfolding mem by (auto simp: pg_entries_def)
  have fwf: "gm_wf m0 \<Longrightarrow> gm_wf (foldl (\<lambda>m (r, i, v). gm_put i v m) m0 xs)"
    for m0 :: "(int, byte) gomap" and xs :: "(string \<times> int \<times> byte) list"
    by (induction xs arbitrary: m0) auto
  have get: "gm_get ?m i = Some v \<longleftrightarrow> (\<exists>r. pg_entries s r = Some (i, v))" for i v
    using foldl_entries_get [of "pg_status s" "[]" i v] uniq by (auto simp: mem)
  obtain e ev where "next_event s = (e, s\<lparr>pg_events := ev\<rparr>)" using next_event_eq by blast
  then show ?thesis
    using assms get fwf [of "[]" "pg_status s"] by (cases e) (auto simp: pg_AllEntries_def)
qed

lemma postgres_status_store: "status_store (postgres_status P) pg_entries pg_sane (\<lambda>s. True)"
proof unfold_locales
  fix s :: pg_store and r i v res s'
  assume h: "pg_sane s" "pg_entries s r = Some (i, v)" "so_AllocateIdx (postgres_status P) r s = (res, s')"
  then have a: "pg_AllocateIdx P r s = (res, s')" by (simp add: postgres_status_def)
  then show "pg_sane s' \<and> pg_entries s' = pg_entries s \<and> (res = Ok i \<or> (\<exists>e. res = Err e))"
    by (cases rule: pg_AllocateIdx_cases) (use h in \<open>auto simp: pg_entries_def\<close>)
next
  fix s :: pg_store and r res s'
  assume h: "pg_sane s" "pg_entries s r = None" "so_AllocateIdx (postgres_status P) r s = (res, s')"
  then have a: "pg_AllocateIdx P r s = (res, s')" by (simp add: postgres_status_def)
  have old: "\<forall>q j v. pg_entries s q = Some (j, v) \<longrightarrow> j < pg_next_idx s"
    using pg_saneD(1) [OF h(1)] by (auto simp: pg_entries_def)
  from a show "pg_sane s' \<and> (pg_entries s' = pg_entries s \<and> (\<exists>e. res = Err e) \<or>
      (\<exists>i. (\<forall>q j v. pg_entries s q = Some (j, v) \<longrightarrow> j < i) \<and>
         pg_entries s' = (pg_entries s)(r \<mapsto> (i, StatusValid)) \<and> (res = Ok i \<or> (\<exists>e. res = Err e))))"
  proof (cases rule: pg_AllocateIdx_cases)
    case (new ev)
    have "pg_entries s' = (pg_entries s)(r \<mapsto> (pg_next_idx s, StatusValid))"
      by (simp add: new(5) pg_entries_def fun_eq_iff)
    moreover have "pg_sane s'" unfolding new(5) by (rule pg_sane_new [OF h(1) new(2)])
    ultimately show ?thesis using old new(6) by blast
  qed (use h in \<open>auto simp: pg_entries_def\<close>)
next
  fix s :: pg_store and r v upd s'
  assume h: "pg_sane s" "so_SetStatus (postgres_status P) r v s = (upd, s')"
  then have "autocommit (sql_set_status P r v) s = (upd, s')"
    by (simp add: postgres_status_def pg_SetStatus_def)
  then show "pg_sane s' \<and> (pg_entries s' = pg_entries s \<and> upd = None \<or>
      (\<exists>i u. pg_entries s r = Some (i, u) \<and> pg_entries s' = (pg_entries s)(r \<mapsto> (i, v)) \<and>
         (upd = Some i \<or> upd = None)))"
  proof (cases rule: autocommit_cases)
    case (run ev)
    from sql_set_status_cases [OF run] h(1) show ?thesis by auto
  next
    case (lost ev)
    obtain res2 t2 where set: "sql_set_status P r v (s\<lparr>pg_events := ev\<rparr>) = (res2, t2)" by fastforce
    from sql_set_status_cases [OF this] h(1) lost show ?thesis by (auto simp: set)
  qed (use h in simp)
next
  fix s :: pg_store and r hit s'
  assume h: "pg_sane s" "so_FindByRecordID (postgres_status P) r s = (hit, s')"
  let ?f = "\<lambda>s. if text_ok P r then gm_get (pg_status s) r else None"
  have "autocommit (\<lambda>s. (?f s, s)) s = (hit, s')"
    using h(2) by (simp add: postgres_status_def pg_FindByRecordID_def)
  then have "(hit = None \<or> hit = ?f s) \<and> (\<exists>ev. s' = s\<lparr>pg_events := ev\<rparr>)"
    by (rule pg_select_cases) simp
  with h(1) show "pg_sane s' \<and> pg_entries s' = pg_entries s \<and> (hit = None \<or> hit = pg_entries s r)"
    by (auto simp: pg_entries_def split: if_splits)
next
  fix s :: pg_store and all s'
  assume "pg_sane s" "so_AllEntries (postgres_status P) s = (all, s')"
  then show "pg_sane s' \<and> pg_entries s' = pg_entries s \<and> (\<forall>p. all \<noteq> Panic p) \<and>
      (case all of Ok m \<Rightarrow> gm_wf m \<and> (\<forall>i v. gm_get m i = Some v \<longleftrightarrow> (\<exists>r. pg_entries s r = Some (i, v)))
       | _ \<Rightarrow> True)"
    using pg_all_entries by (simp add: postgres_status_def)
next
  fix s :: pg_store and r i u q v
  assume "pg_sane s" "pg_entries s r = Some (i, u)" "pg_entries s q = Some (i, v)"
  then show "r = q" using pg_saneD(2) by (auto simp: pg_entries_def)
next
  fix s :: pg_store and r i u
  assume "pg_sane s" "pg_entries s r = Some (i, u)"
  then show "0 \<le> i \<and> i < 2 ^ 63 - 1" using pg_saneD(1) [of s r i u] by (auto simp: pg_entries_def pg_sane_def)
qed

interpretation postgres_stat: status_store "postgres_status P" pg_entries pg_sane "\<lambda>s. True"
  by (rule postgres_status_store)

section \<open>A database that is up\<close>

text \<open>No statement is refused and no answer lost; the database's clock runs on. \<open>tick\<close> consumes one statement.\<close>

definition up :: "pg_store \<Rightarrow> bool" where
  "up s \<longleftrightarrow> (\<forall>n. snd (pg_events s n) = DbOk)"

definition tick :: "pg_store \<Rightarrow> pg_store" where
  "tick s = s\<lparr>pg_events := \<lambda>n. pg_events s (Suc n)\<rparr>"

lemma tick_tables [simp]:
  "pg_records (tick s) = pg_records s" "pg_status (tick s) = pg_status s" "pg_next_idx (tick s) = pg_next_idx s"
  "pg_table (tick s) = pg_table s" "pg_sound (tick s) = pg_sound s"
  "pg_entries (tick s) = pg_entries s" "pg_sane (tick s) = pg_sane s"
  by (simp_all add: tick_def)

lemma up_simps [simp]:
  "up (s\<lparr>pg_records := x\<rparr>) = up s" "up (s\<lparr>pg_status := y\<rparr>) = up s" "up (s\<lparr>pg_next_idx := n\<rparr>) = up s"
  by (simp_all add: up_def)

lemma up_tick [intro, simp]: "up s \<Longrightarrow> up (tick s)"
  by (simp add: up_def tick_def)

lemma up_event: "up s \<Longrightarrow> next_event s = (DbOk, tick s)"
  by (simp add: up_def next_event_def tick_def)

lemma up_autocommit: "up s \<Longrightarrow> autocommit stmt s = stmt (tick s)"
  by (simp add: autocommit_def up_event)

lemma up_allocate:
  assumes "up s" and "text_ok P r"
  shows "gm_get (pg_status s) r = Some (i, v) \<Longrightarrow> pg_AllocateIdx P r s = (Ok i, tick (tick (tick s)))"
    and "gm_get (pg_status s) r = None \<Longrightarrow> pg_next_idx s + 1 < 2 ^ 63 \<Longrightarrow> gm_get (pg_records s) r \<noteq> None \<Longrightarrow>
      \<not> list_ex (\<lambda>(_, j, _). j = pg_next_idx s) (pg_status s) \<Longrightarrow>
      pg_AllocateIdx P r s = (Ok (pg_next_idx s),
        tick ((tick ((tick (tick (tick s)))\<lparr>pg_next_idx := pg_next_idx s + 1\<rparr>))
          \<lparr>pg_status := gm_put r (pg_next_idx s, StatusValid) (pg_status s)\<rparr>))"
  using assms by (auto simp: pg_AllocateIdx_def tx_stmt_def tx_commit_def up_event Let_def)

lemma up_events [simp]: "up (s\<lparr>pg_events := pg_events t\<rparr>) = up t"
  by (simp add: up_def)

lemma up_allocates:
  assumes "up s" and "pg_AllocateIdx P r s = (res, s')"
  shows "up s'"
  using assms
  by (auto simp: pg_AllocateIdx_def tx_stmt_def tx_commit_def tx_fail_def up_event Let_def split: option.splits if_splits prod.splits)

end
