(* ===== verification/Issuance_Store.thy ===== *)
theory Issuance_Store
  imports Pg_Store
begin

text \<open>
  One store serves the issuance service under both interfaces (\<open>cmd/issuer/main.go\<close> passes the same
  value as \<open>RecordStore\<close> and \<open>StatusListStore\<close>). \<open>issuance_store\<close> joins the two contracts on one
  state: the record operations leave the status list alone and conversely. Both stores of the
  repository are interpreted.
\<close>

locale issuance_store = record_store R tab sound + status_store S ent sane room
  for R :: "'s record_ops" and tab and sound and S :: "'s status_ops" and ent and sane and room +
  assumes create_frame: "ro_Create R ct cd st sr s w = (r, s', w') \<Longrightarrow>
      ent s' = ent s \<and> sane s' = sane s \<and> room s' = room s"
    and find_frame: "ro_FindByID R i s = (hit, s') \<Longrightarrow>
      ent s' = ent s \<and> sane s' = sane s \<and> room s' = room s"
    and find_issuer_state_frame: "ro_FindByIssuerState R i s = (hit, s') \<Longrightarrow>
      ent s' = ent s \<and> sane s' = sane s \<and> room s' = room s"
    and update_status_frame: "ro_UpdateStatus R i st s w = (s', w') \<Longrightarrow>
      ent s' = ent s \<and> sane s' = sane s \<and> room s' = room s"
    and update_issuer_state_frame: "ro_UpdateIssuerState R i st s w = (s', w') \<Longrightarrow>
      ent s' = ent s \<and> sane s' = sane s \<and> room s' = room s"
    and find_all_frame: "ro_FindAll R offset limit field order s = (page, s') \<Longrightarrow>
      ent s' = ent s \<and> sane s' = sane s \<and> room s' = room s"
    and alloc_frame: "so_AllocateIdx S i s = (res, s') \<Longrightarrow> tab s' = tab s \<and> sound s' = sound s"
    and set_frame: "so_SetStatus S i v s = (upd, s') \<Longrightarrow> tab s' = tab s \<and> sound s' = sound s"
    and lookup_frame: "so_FindByRecordID S i s = (slot, s') \<Longrightarrow> tab s' = tab s \<and> sound s' = sound s"
    and entries_frame: "so_AllEntries S s = (all, s') \<Longrightarrow> tab s' = tab s \<and> sound s' = sound s"

section \<open>The in-memory store\<close>

definition mem_list :: "memory_store \<Rightarrow> int \<times> (int, byte) gomap \<times> (string, int) gomap" where
  "mem_list s = (statusNextIdx s, statusByIdx s, statusByRecID s)"

lemma mem_list_decides:
  "mem_list t = mem_list s \<Longrightarrow> mem_entries t = mem_entries s \<and> mem_sane t = mem_sane s \<and> mem_room t = mem_room s"
  by (simp add: mem_list_def mem_entries_def mem_byte_at_def mem_sane_def mem_room_def fun_eq_iff)

lemma mem_records_decide:
  "mem_records t = mem_records s \<Longrightarrow> mem_table t = mem_table s \<and> mem_sound t = mem_sound s"
  by (simp add: mem_table_def mem_sound_def)

lemma mem_record_ops_list:
  "ro_Create (memory_records it big) ct cd st sr s w = (r, s', w') \<Longrightarrow> mem_list s' = mem_list s"
  "ro_FindByID (memory_records it big) i s = (hit, s') \<Longrightarrow> mem_list s' = mem_list s"
  "ro_FindByIssuerState (memory_records it big) i s = (hit, s') \<Longrightarrow> mem_list s' = mem_list s"
  "ro_UpdateStatus (memory_records it big) i x s w = (s', w') \<Longrightarrow> mem_list s' = mem_list s"
  "ro_UpdateIssuerState (memory_records it big) i x s w = (s', w') \<Longrightarrow> mem_list s' = mem_list s"
  "ro_FindAll (memory_records it big) offset limit f ord s = (page, s') \<Longrightarrow> mem_list s' = mem_list s"
  by (auto simp: memory_records_def mem_list_def mem_Create_def mem_FindByID_def mem_FindByIssuerState_def
      mem_UpdateStatus_def mem_mutate_def mem_UpdateIssuerState_def mem_FindAll_def Let_def split_beta
      split: option.splits if_splits)

lemma mem_status_ops_records:
  "so_AllocateIdx memory_status i s = (res, s') \<Longrightarrow> mem_records s' = mem_records s"
  "so_SetStatus memory_status i v s = (upd, s') \<Longrightarrow> mem_records s' = mem_records s"
  "so_FindByRecordID memory_status i s = (slot, s') \<Longrightarrow> mem_records s' = mem_records s"
  "so_AllEntries memory_status s = (all, s') \<Longrightarrow> mem_records s' = mem_records s"
  by (auto simp: memory_status_def mem_AllocateIdx_def mem_SetStatus_def mem_FindByRecordID_def
      mem_AllEntries_def Let_def split: option.splits)

lemma memory_issuance_store:
  assumes "rearranges big" and "iterates it"
  shows "issuance_store (memory_records it big) mem_table mem_sound memory_status mem_entries mem_sane mem_room"
  by (intro issuance_store.intro memory_record_store [OF assms] memory_stat.status_store_axioms
      issuance_store_axioms.intro mem_list_decides mem_records_decide)
    (rule mem_record_ops_list mem_status_ops_records, assumption)+

definition dev_records :: "memory_store record_ops" where
  "dev_records = memory_records (\<lambda>xs. xs) insertion_sort"

interpretation memory: issuance_store dev_records mem_table mem_sound memory_status mem_entries mem_sane mem_room
  unfolding dev_records_def
  by (rule memory_issuance_store) (simp_all add: rearranges_def iterates_def insertion_sort_mset)

section \<open>The Postgres store\<close>

definition pg_list :: "pg_store \<Rightarrow> (string, int \<times> byte) gomap \<times> int" where
  "pg_list s = (pg_status s, pg_next_idx s)"

lemma pg_list_decides:
  "pg_list t = pg_list s \<Longrightarrow> pg_entries t = pg_entries s \<and> pg_sane t = pg_sane s \<and> True = True"
  by (simp add: pg_list_def pg_entries_def pg_sane_def)

lemma pg_records_decide:
  "pg_records t = pg_records s \<Longrightarrow> pg_table t = pg_table s \<and> pg_sound t = pg_sound s"
  by (simp add: pg_table_def pg_sound_def)

lemma autocommit_keeps:
  assumes "\<And>t. g (snd (stmt t)) = g t" and "\<And>ev. g (s\<lparr>pg_events := ev\<rparr>) = g s"
  shows "g (snd (autocommit stmt s)) = g s"
  using assms by (intro autocommit_snd_inv [where I = "\<lambda>t. g t = g s"]) simp_all

lemma pg_list_events [simp]: "pg_list (s\<lparr>pg_events := ev\<rparr>) = pg_list s"
  by (simp add: pg_list_def)

lemma sql_statements_list:
  "pg_list (snd (sql_insert_record P row t)) = pg_list t"
  "pg_list (snd (sql_select_by_id P i t)) = pg_list t"
  "pg_list (snd (sql_select_by_issuer_state P i t)) = pg_list t"
  "pg_list (snd (sql_update_status P i x now t)) = pg_list t"
  "pg_list (snd (sql_update_issuer_state P i x now t)) = pg_list t"
  by (simp_all add: pg_list_def sql_insert_record_def sql_select_by_id_def sql_select_by_issuer_state_def
      sql_update_status_def sql_update_issuer_state_def Let_def split: option.split)

lemma pg_record_ops_list:
  "ro_Create (postgres_records P) ct cd st sr s w = (r, s', w') \<Longrightarrow> pg_list s' = pg_list s"
  "ro_FindByID (postgres_records P) i s = (hit, s') \<Longrightarrow> pg_list s' = pg_list s"
  "ro_FindByIssuerState (postgres_records P) i s = (hit, s') \<Longrightarrow> pg_list s' = pg_list s"
  "ro_UpdateStatus (postgres_records P) i x s w = (s', w') \<Longrightarrow> pg_list s' = pg_list s"
  "ro_UpdateIssuerState (postgres_records P) i x s w = (s', w') \<Longrightarrow> pg_list s' = pg_list s"
  "ro_FindAll (postgres_records P) offset limit f ord s = (page, s') \<Longrightarrow> pg_list s' = pg_list s"
proof (goal_cases)
  case 1
  then show ?case
    using autocommit_keeps [of pg_list "sql_insert_record P (fst (pg_new_row ct cd st sr (db_now s) w))" s] sql_statements_list
    by (auto simp: postgres_records_def pg_Create_def split_beta Let_def split: option.splits prod.splits)
next
  case 2
  then show ?case using autocommit_keeps [of pg_list "sql_select_by_id P i" s] sql_statements_list
    by (simp add: postgres_records_def pg_FindByID_def)
next
  case 3
  then show ?case using autocommit_keeps [of pg_list "sql_select_by_issuer_state P i" s] sql_statements_list
    by (simp add: postgres_records_def pg_FindByIssuerState_def)
next
  case 4
  then show ?case
    using autocommit_keeps [of pg_list "sql_update_status P i x (db_now s)" s] sql_statements_list
    by (auto simp: postgres_records_def pg_UpdateStatus_def split_beta Let_def)
next
  case 5
  then show ?case
    using autocommit_keeps [of pg_list "sql_update_issuer_state P i x (db_now s)" s] sql_statements_list
    by (auto simp: postgres_records_def pg_UpdateIssuerState_def split_beta Let_def)
next
  case 6
  then show ?case
    using pg_FindAll_state [of P offset limit f ord s] by (auto simp: postgres_records_def)
qed

lemma pg_status_ops_records:
  "so_AllocateIdx (postgres_status P) i s = (res, s') \<Longrightarrow> pg_records s' = pg_records s"
  "so_SetStatus (postgres_status P) i v s = (upd, s') \<Longrightarrow> pg_records s' = pg_records s"
  "so_FindByRecordID (postgres_status P) i s = (slot, s') \<Longrightarrow> pg_records s' = pg_records s"
  "so_AllEntries (postgres_status P) s = (all, s') \<Longrightarrow> pg_records s' = pg_records s"
proof (goal_cases)
  case 1
  then have "pg_AllocateIdx P i s = (res, s')" by (simp add: postgres_status_def)
  then show ?case by (cases rule: pg_AllocateIdx_cases) simp_all
next
  case 2
  then show ?case using autocommit_keeps [of pg_records "sql_set_status P i v" s]
    by (auto simp: postgres_status_def pg_SetStatus_def sql_set_status_def split: option.splits)
next
  case 3
  then show ?case
    using autocommit_keeps [of pg_records "\<lambda>s. (if text_ok P i then gm_get (pg_status s) i else None, s)" s]
    by (simp add: postgres_status_def pg_FindByRecordID_def)
next
  case 4
  obtain e ev where "next_event s = (e, s\<lparr>pg_events := ev\<rparr>)" using next_event_eq by blast
  with 4 show ?case by (cases e) (auto simp: postgres_status_def pg_AllEntries_def)
qed

lemma postgres_issuance_store:
  assumes "pg_orders_ok P"
  shows "issuance_store (postgres_records P) pg_table pg_sound (postgres_status P) pg_entries pg_sane (\<lambda>s. True)"
  by (intro issuance_store.intro postgres_record_store [OF assms] postgres_status_store
      issuance_store_axioms.intro pg_list_decides pg_records_decide)
    (rule pg_record_ops_list pg_status_ops_records, assumption)+

interpretation postgres: issuance_store "postgres_records plain_pg" pg_table pg_sound "postgres_status plain_pg"
  pg_entries pg_sane "\<lambda>s. True"
  by (rule postgres_issuance_store [OF plain_pg_orders])

end
