(* ===== verification/Store_Agree.thy ===== *)
theory Store_Agree
  imports Issuance_Store
begin

text \<open>
  The two stores behind the interfaces give the same answers. \<open>perform\<close> is a call on either of them;
  \<open>alike\<close> relates an in-memory store to the tables of a database that is up, whose documents are what
  \<open>jsonb\<close> makes of the stored texts; and \<open>in_contract\<close> names the calls on which the two agree. What it
  excludes is where they differ: identifiers already in use, issuer states given twice or replaced,
  strings the database refuses, and list entries for records that do not exist.
\<close>

section \<open>Calls\<close>

datatype store_call =
    Call_Create string string string string | Call_FindByID string | Call_FindByIssuerState string
  | Call_UpdateStatus string string | Call_UpdateIssuerState string string
  | Call_AllocateIdx string | Call_SetStatus string byte | Call_FindByRecordID string | Call_AllEntries

datatype store_answer =
    A_Record issuance_record | A_Found "issuance_record option" | A_Done | A_Idx "int result"
  | A_Updated "int option" | A_Entry "(int \<times> byte) option" | A_All "(int, byte) gomap result"

fun perform ::
  "'s record_ops \<Rightarrow> 's status_ops \<Rightarrow> store_call \<Rightarrow> 's \<Rightarrow> world \<Rightarrow> store_answer \<times> 's \<times> world" where
  "perform R S (Call_Create ct cd st sr) s w = (let (r, s', w') = ro_Create R ct cd st sr s w in (A_Record r, s', w'))"
| "perform R S (Call_FindByID i) s w = (let (r, s') = ro_FindByID R i s in (A_Found r, s', w))"
| "perform R S (Call_FindByIssuerState st) s w = (let (r, s') = ro_FindByIssuerState R st s in (A_Found r, s', w))"
| "perform R S (Call_UpdateStatus i x) s w = (let (s', w') = ro_UpdateStatus R i x s w in (A_Done, s', w'))"
| "perform R S (Call_UpdateIssuerState i x) s w = (let (s', w') = ro_UpdateIssuerState R i x s w in (A_Done, s', w'))"
| "perform R S (Call_AllocateIdx i) s w = (let (r, s') = so_AllocateIdx S i s in (A_Idx r, s', w))"
| "perform R S (Call_SetStatus i v) s w = (let (r, s') = so_SetStatus S i v s in (A_Updated r, s', w))"
| "perform R S (Call_FindByRecordID i) s w = (let (r, s') = so_FindByRecordID S i s in (A_Entry r, s', w))"
| "perform R S Call_AllEntries s w = (let (r, s') = so_AllEntries S s in (A_All r, s', w))"

fun perform_all ::
  "'s record_ops \<Rightarrow> 's status_ops \<Rightarrow> store_call list \<Rightarrow> 's \<Rightarrow> world \<Rightarrow> store_answer list \<times> 's \<times> world" where
  "perform_all R S [] s w = ([], s, w)"
| "perform_all R S (c # cs) s w =
     (let (a, s', w') = perform R S c s w; (as, s'', w'') = perform_all R S cs s' w' in (a # as, s'', w''))"

section \<open>Stores that hold the same\<close>

text \<open>A row is its record up to what \<open>jsonb\<close> makes of the data and the two timestamps, which each store
  takes from a clock of its own.\<close>

definition row_of :: "pg_params \<Rightarrow> issuance_record \<Rightarrow> issuance_record \<Rightarrow> bool" where
  "row_of P r q \<longleftrightarrow> (\<exists>d. jsonb_text P (CredentialData r) = Some d \<and> 
     q = r\<lparr>CredentialData := d, CreatedAt := CreatedAt q, UpdatedAt := UpdatedAt q\<rparr>)"

definition same_records :: "pg_params \<Rightarrow> memory_store \<Rightarrow> pg_store \<Rightarrow> bool" where
  "same_records P ms ps \<longleftrightarrow> mem_sound ms \<and> pg_sound ps \<and>
     (\<forall>i. rel_option (row_of P) (mem_table ms i) (pg_table ps i)) \<and>
     (\<forall>st i. st \<noteq> [] \<longrightarrow>
        (gm_get (byIssuerState ms) st = Some i \<longleftrightarrow> (\<exists>r. mem_table ms i = Some r \<and> rec_IssuerState r = st)))"

definition same_list :: "memory_store \<Rightarrow> pg_store \<Rightarrow> bool" where
  "same_list ms ps \<longleftrightarrow> mem_sane ms \<and> pg_sane ps \<and> mem_entries ms = pg_entries ps \<and> statusNextIdx ms = pg_next_idx ps"

definition alike :: "pg_params \<Rightarrow> memory_store \<Rightarrow> pg_store \<Rightarrow> bool" where
  "alike P ms ps \<longleftrightarrow> same_records P ms ps \<and> same_list ms ps \<and> up ps"

fun same_answer :: "pg_params \<Rightarrow> store_answer \<Rightarrow> store_answer \<Rightarrow> bool" where
  "same_answer P (A_Record r) (A_Record q) = row_of P r q"
| "same_answer P (A_Found r) (A_Found q) = rel_option (row_of P) r q"
| "same_answer P (A_All (Ok m)) (A_All (Ok n)) = (gm_get m = gm_get n)"
| "same_answer P a b = (a = b)"

fun in_contract :: "pg_params \<Rightarrow> store_call \<Rightarrow> memory_store \<Rightarrow> world \<Rightarrow> bool" where
  "in_contract P (Call_Create ct cd st sr) s w =
     (let rid = fst (draw_token 16 w)
      in mem_table s rid = None \<and> list_all (text_ok P) [rid, ct, st, sr] \<and>
         jsonb_text P (if cd = [] then ''{}'' else cd) \<noteq> None)"
| "in_contract P (Call_FindByID i) s w = text_ok P i"
| "in_contract P (Call_FindByIssuerState st) s w = (text_ok P st \<and> st \<noteq> [])"
| "in_contract P (Call_UpdateStatus i x) s w = (text_ok P i \<and> text_ok P x \<and> mem_table s i \<noteq> None)"
| "in_contract P (Call_UpdateIssuerState i x) s w =
     (text_ok P i \<and> text_ok P x \<and> x \<noteq> [] \<and> gm_get (byIssuerState s) x \<in> {None, Some i} \<and>
      (case mem_table s i of None \<Rightarrow> False | Some r \<Rightarrow> rec_IssuerState r \<in> {[], x}))"
| "in_contract P (Call_AllocateIdx i) s w = (text_ok P i \<and> mem_table s i \<noteq> None \<and> mem_room s)"
| "in_contract P (Call_SetStatus i v) s w = text_ok P i"
| "in_contract P (Call_FindByRecordID i) s w = text_ok P i"
| "in_contract P Call_AllEntries s w = True"

fun all_in_contract ::
  "pg_params \<Rightarrow> memory_store record_ops \<Rightarrow> memory_store status_ops \<Rightarrow> store_call list \<Rightarrow> memory_store \<Rightarrow> world \<Rightarrow> bool" where
  "all_in_contract P R S [] s w = True"
| "all_in_contract P R S (c # cs) s w =
     (in_contract P c s w \<and> (let (a, s', w') = perform R S c s w in all_in_contract P R S cs s' w'))"

section \<open>Records\<close>

lemma tick_list [simp]: "pg_list (tick ps) = pg_list ps"
  by (simp add: tick_def)

lemma tick_alike [simp]:
  "same_records P ms (tick ps) = same_records P ms ps" "same_list ms (tick ps) = same_list ms ps"
  by (simp_all add: same_records_def same_list_def)

lemma same_recordsD:
  assumes "same_records P ms ps"
  shows "mem_sound ms" "pg_sound ps" "rel_option (row_of P) (mem_table ms i) (pg_table ps i)"
    and "st \<noteq> [] \<Longrightarrow> gm_get (byIssuerState ms) st = Some i \<longleftrightarrow> (\<exists>r. mem_table ms i = Some r \<and> rec_IssuerState r = st)"
  using assms by (simp_all add: same_records_def)

lemma row_of_update:
  "row_of P r q \<Longrightarrow> row_of P (r\<lparr>rec_Status := x, UpdatedAt := t\<rparr>) (q\<lparr>rec_Status := x, UpdatedAt := u\<rparr>)"
  "row_of P r q \<Longrightarrow> row_of P (r\<lparr>rec_IssuerState := x, UpdatedAt := t\<rparr>) (q\<lparr>rec_IssuerState := x, UpdatedAt := u\<rparr>)"
  by (cases r; cases q; simp add: row_of_def)+

lemma row_of_state: "row_of P r q \<Longrightarrow> rec_IssuerState q = rec_IssuerState r \<and> rec_ID q = rec_ID r"
  by (cases r; cases q; auto simp: row_of_def)

text \<open>One row written on both sides.\<close>

lemma same_records_put:
  assumes "same_records P ms ps" and "mem_sound ms'" and "pg_sound ps'" and "row_of P r q"
    and "mem_table ms' = (mem_table ms)(i \<mapsto> r)" and "pg_table ps' = (pg_table ps)(i \<mapsto> q)"
    and "\<And>st j. st \<noteq> [] \<Longrightarrow> gm_get (byIssuerState ms') st = Some j \<longleftrightarrow> (\<exists>u. mem_table ms' j = Some u \<and> rec_IssuerState u = st)"
  shows "same_records P ms' ps'"
  using assms same_recordsD(3) [OF assms(1)] by (simp add: same_records_def)

lemma create_alike:
  assumes "same_records P ms ps" and "up ps" and "in_contract P (Call_Create ct cd st sr) ms w" and "w_rand v = w_rand w"
  shows "\<exists>r q ms' ps' w' v'. mem_Create ct cd st sr ms w = (r, ms', w') \<and> pg_Create P ct cd st sr ps v = (q, ps', v') \<and>
    w_rand v' = w_rand w' \<and>
    row_of P r q \<and> same_records P ms' ps' \<and> pg_list ps' = pg_list ps \<and> mem_list ms' = mem_list ms \<and> up ps'"
proof -
  let ?rid = "fst (draw_token 16 w)"
  have rid: "fst (draw_token 16 v) = ?rid" by (simp add: draw_token_def assms(4) split_beta)
  obtain r ms' w' where m: "mem_Create ct cd st sr ms w = (r, ms', w')" by (cases "mem_Create ct cd st sr ms w")
  obtain row v' where row: "pg_new_row ct cd st sr (db_now ps) v = (row, v')" by fastforce
  have r: "rec_ID r = ?rid" "rec_IssuerState r = []" "CredentialData r = (if cd = [] then ''{}'' else cd)"
    "byIssuerState ms' = byIssuerState ms" and w': "w_rand w' = w_rand v'"
    and same: "row = r\<lparr>CreatedAt := db_now ps, UpdatedAt := db_now ps\<rparr>"
    and fs: "CredentialType r = ct" "SourceType r = st" "SourceRef r = sr"
    using m row by (auto simp: mem_Create_def pg_new_row_def draw_token_def time_Now_def Let_def split_beta assms(4))
  have free: "mem_table ms ?rid = None" "pg_table ps ?rid = None"
    using assms(3) same_recordsD(3) [OF assms(1), of ?rid] by (simp_all add: Let_def)
  obtain d where d: "jsonb_text P (CredentialData r) = Some d" using assms(3) by (auto simp: Let_def r(3))
  let ?q = "row\<lparr>CredentialData := d\<rparr>" and ?ps = "(tick ps)\<lparr>pg_records := gm_put ?rid (row\<lparr>CredentialData := d\<rparr>) (pg_records ps)\<rparr>"
  have ok: "list_all (text_ok P) [rec_ID row, CredentialType row, SourceType row, SourceRef row]"
    using assms(3) by (simp add: Let_def r same fs)
  have "sql_insert_record P row (tick ps) = (Some ?q, ?ps)"
    using d ok free(2) by (simp add: sql_insert_record_def pg_table_def r(1) same Let_def)
  then have p: "pg_Create P ct cd st sr ps v = (?q, ?ps, v')"
    by (simp add: pg_Create_def row up_autocommit [OF assms(2)])
  have t: "mem_table ms' = (mem_table ms)(?rid \<mapsto> r)" using mem_Create_eq [OF m] by (simp add: r(1))
  have rq: "row_of P r ?q" using d by (simp add: row_of_def same)
  have "same_records P ms' ?ps"
  proof (rule same_records_put [OF assms(1) _ _ rq t])
    show "mem_sound ms'" using mem_sound_ops(2) [OF same_recordsD(1) [OF assms(1)], of ct cd st sr w] by (simp add: m)
    show "pg_sound ?ps"
      using pg_put_sound [of "tick ps" ?q ?rid] same_recordsD(2) [OF assms(1)] by (simp add: r(1) same)
    show "pg_table ?ps = (pg_table ps)(?rid \<mapsto> ?q)" by (simp add: pg_table_def fun_eq_iff)
    show "gm_get (byIssuerState ms') s = Some j \<longleftrightarrow> (\<exists>u. mem_table ms' j = Some u \<and> rec_IssuerState u = s)" if "s \<noteq> []" for s j
      using same_recordsD(4) [OF assms(1) that, of j] free(1) that by (auto simp: t r(2,4))
  qed
  moreover have "mem_list ms' = mem_list ms" using m by (auto simp: mem_list_def mem_Create_def Let_def split_beta)
  moreover have "up ?ps" using assms(2) by simp
  moreover have "pg_list ?ps = pg_list ps" by (simp add: pg_list_def)
  ultimately show ?thesis using m p rq w' by metis
qed

lemma find_alike:
  assumes "same_records P ms ps" and "up ps" and "text_ok P i"
  shows "\<exists>r q. mem_FindByID i ms = (r, ms) \<and> pg_FindByID P i ps = (q, tick ps) \<and> rel_option (row_of P) r q"
  using same_recordsD(3) [OF assms(1), of i] assms(3)
  by (simp add: mem_FindByID_def pg_FindByID_def up_autocommit [OF assms(2)] sql_select_by_id_def mem_table_def pg_table_def)

lemma find_by_state_alike:
  assumes "same_records P ms ps" and "up ps" and "text_ok P st" and "st \<noteq> []" and "pg_orders_ok P"
  shows "\<exists>r q. mem_FindByIssuerState st ms = (r, ms) \<and> pg_FindByIssuerState P st ps = (q, tick ps) \<and> rel_option (row_of P) r q"
proof -
  let ?rows = "pg_scan P (map snd (pg_records ps))"
  have rows: "set ?rows = snd ` set (pg_records ps)" using assms(5) by (simp add: pg_orders_ok_def iterates_set)
  have q: "pg_FindByIssuerState P st ps = (find (\<lambda>r. rec_IssuerState r = st) ?rows, tick ps)"
    by (simp add: pg_FindByIssuerState_def up_autocommit [OF assms(2)] sql_select_by_issuer_state_def assms(3))
  have hit: "pg_table ps (rec_ID q) = Some q \<and> rec_IssuerState q = st" if "find (\<lambda>r. rec_IssuerState r = st) ?rows = Some q" for q
    using that pg_row_keyed [OF same_recordsD(2) [OF assms(1)], of q] rows by (auto simp: find_Some_iff) (metis nth_mem)
  note ix = same_recordsD(4) [OF assms(1,4)]
  note rel = same_recordsD(3) [OF assms(1)]
  show ?thesis
  proof (cases "gm_get (byIssuerState ms) st")
    case None
    have "find (\<lambda>r. rec_IssuerState r = st) ?rows = None"
    proof (rule ccontr)
      assume "find (\<lambda>r. rec_IssuerState r = st) ?rows \<noteq> None"
      then obtain q where "pg_table ps (rec_ID q) = Some q" "rec_IssuerState q = st" using hit by auto
      with rel [of "rec_ID q"] ix [of "rec_ID q"] None show False
        by (cases "mem_table ms (rec_ID q)") (auto dest!: row_of_state)
    qed
    with None q show ?thesis by (simp add: mem_FindByIssuerState_def)
  next
    case (Some i)
    then obtain r where r: "mem_table ms i = Some r" "rec_IssuerState r = st" using ix by blast
    with rel [of i] obtain q where t: "pg_table ps i = Some q" "row_of P r q" by (cases "pg_table ps i") auto
    then have "q \<in> set ?rows" "rec_IssuerState q = st"
      using r(2) same_recordsD(2) [OF assms(1)] by (force simp: rows pg_table_def pg_sound_def gm_get_in image_iff dest!: row_of_state)+
    then obtain q2 where f: "find (\<lambda>r. rec_IssuerState r = st) ?rows = Some q2"
      by (cases "find (\<lambda>r. rec_IssuerState r = st) ?rows") (auto simp: find_None_iff)
    from hit [OF f] rel [of "rec_ID q2"] obtain r2 where "mem_table ms (rec_ID q2) = Some r2" "rec_IssuerState r2 = st"
      by (cases "mem_table ms (rec_ID q2)") (auto dest!: row_of_state)
    then have "rec_ID q2 = i" using ix [of "rec_ID q2"] Some by auto
    with hit [OF f] t have "q2 = q" by simp
    with f q t r Some show ?thesis by (simp add: mem_FindByIssuerState_def mem_table_def)
  qed
qed


lemma update_status_alike:
  assumes "same_records P ms ps" and "up ps" and "text_ok P i" and "text_ok P x" and "mem_table ms i \<noteq> None"
  shows "\<exists>ms' ps' w'. w_rand w' = w_rand w \<and> mem_UpdateStatus i x ms w = (ms', w') \<and> pg_UpdateStatus P i x ps v = (ps', v) \<and>
    same_records P ms' ps' \<and> pg_list ps' = pg_list ps \<and> mem_list ms' = mem_list ms \<and> up ps'"
proof -
  obtain r where r: "mem_table ms i = Some r" using assms(5) by auto
  with same_recordsD(3) [OF assms(1), of i] obtain q where q: "pg_table ps i = Some q" "row_of P r q"
    by (cases "pg_table ps i") auto
  let ?t = "fst (time_Now w)" and ?w = "snd (time_Now w)" and ?u = "db_now ps"
  let ?r = "r\<lparr>rec_Status := x, UpdatedAt := ?t\<rparr>" and ?q = "q\<lparr>rec_Status := x, UpdatedAt := ?u\<rparr>"
  let ?ms = "ms\<lparr>mem_records := gm_put i ?r (mem_records ms)\<rparr>" and ?ps = "(tick ps)\<lparr>pg_records := gm_put i ?q (pg_records ps)\<rparr>"
  have m: "mem_UpdateStatus i x ms w = (?ms, ?w)"
    using r by (simp add: mem_UpdateStatus_def mem_mutate_def mem_table_def set_status_def split_beta Let_def)
  have p: "pg_UpdateStatus P i x ps v = (?ps, v)"
    using q(1) by (simp add: pg_UpdateStatus_def up_autocommit [OF assms(2)] sql_update_status_def assms(3,4) pg_table_def split_beta)
  have "same_records P ?ms ?ps"
  proof (rule same_records_put [OF assms(1) _ _ row_of_update(1) [OF q(2), where x = x and t = ?t and u = ?u]])
    show "mem_sound ?ms" using mem_sound_ops(3) [OF same_recordsD(1) [OF assms(1)], of i x w] by (simp add: m)
    show "pg_sound ?ps" using sql_update_cases(1) [OF same_recordsD(2) [OF assms(1)], of P i x ?u] q(1)
      by (simp add: sql_update_status_def assms(3,4) pg_table_def pg_sound_def)
    show "mem_table ?ms = (mem_table ms)(i \<mapsto> ?r)" by (simp add: mem_table_def fun_eq_iff)
    show "pg_table ?ps = (pg_table ps)(i \<mapsto> ?q)" by (simp add: pg_table_def fun_eq_iff)
    show "gm_get (byIssuerState ?ms) s = Some j \<longleftrightarrow> (\<exists>u. mem_table ?ms j = Some u \<and> rec_IssuerState u = s)" if "s \<noteq> []" for s j
      using same_recordsD(4) [OF assms(1) that, of j] r by (auto simp: mem_table_def)
  qed
  then show ?thesis unfolding m p using assms(2) by (simp add: pg_list_def mem_list_def time_Now_def)
qed

lemma update_issuer_state_alike:
  assumes "same_records P ms ps" and "up ps" and "in_contract P (Call_UpdateIssuerState i x) ms w"
  shows "\<exists>ms' ps' w'. w_rand w' = w_rand w \<and> mem_UpdateIssuerState i x ms w = (ms', w') \<and> pg_UpdateIssuerState P i x ps v = (ps', v) \<and>
    same_records P ms' ps' \<and> pg_list ps' = pg_list ps \<and> mem_list ms' = mem_list ms \<and> up ps'"
proof -
  obtain r where r: "mem_table ms i = Some r" "rec_IssuerState r \<in> {[], x}" and x: "x \<noteq> []" "text_ok P i" "text_ok P x"
    and free: "gm_get (byIssuerState ms) x \<in> {None, Some i}"
    using assms(3) by (auto split: option.splits)
  from r(1) same_recordsD(3) [OF assms(1), of i] obtain q where q: "pg_table ps i = Some q" "row_of P r q"
    by (cases "pg_table ps i") auto
  note rel = same_recordsD(3) [OF assms(1)] and ix = same_recordsD(4) [OF assms(1)]
  have "\<not> (\<exists>(j, o') \<in> set (pg_records ps). j \<noteq> i \<and> rec_IssuerState o' = x)"
  proof clarify
    fix j o' assume o: "(j, o') \<in> set (pg_records ps)" "j \<noteq> i" "x = rec_IssuerState o'"
    then have "pg_table ps j = Some o'"
      using same_recordsD(2) [OF assms(1)] by (simp add: pg_sound_def pg_table_def gm_get_in)
    with rel [of j] o(3) obtain u where "mem_table ms j = Some u" "rec_IssuerState u = x"
      by (cases "mem_table ms j") (auto dest!: row_of_state)
    with ix [OF x(1), of j] free o(2) show False by auto
  qed
  then have nt: "\<not> issuer_state_taken i x ps" by (auto simp: issuer_state_taken_def list_ex_iff)
  let ?t = "fst (time_Now w)" and ?w = "snd (time_Now w)" and ?u = "db_now ps"
  let ?r = "r\<lparr>rec_IssuerState := x, UpdatedAt := ?t\<rparr>" and ?q = "q\<lparr>rec_IssuerState := x, UpdatedAt := ?u\<rparr>"
  let ?ms = "ms\<lparr>mem_records := gm_put i ?r (mem_records ms), byIssuerState := gm_put x i (byIssuerState ms)\<rparr>"
    and ?ps = "(tick ps)\<lparr>pg_records := gm_put i ?q (pg_records ps)\<rparr>"
  have m: "mem_UpdateIssuerState i x ms w = (?ms, ?w)"
    using r(1) by (simp add: mem_UpdateIssuerState_def mem_table_def split_beta Let_def)
  have t: "mem_table ?ms = (mem_table ms)(i \<mapsto> ?r)" by (simp add: mem_table_def fun_eq_iff)
  have sql: "snd (sql_update_issuer_state P i x ?u (tick ps)) = ?ps" "snd (sql_update_issuer_state P i x ?u ps) = ps\<lparr>pg_records := gm_put i ?q (pg_records ps)\<rparr>"
    using q(1) nt by (simp_all add: sql_update_issuer_state_def x pg_table_def issuer_state_taken_def)
  then have p: "pg_UpdateIssuerState P i x ps v = (?ps, v)"
    by (simp add: pg_UpdateIssuerState_def up_autocommit [OF assms(2)] split_beta)
  have "same_records P ?ms ?ps"
  proof (rule same_records_put [OF assms(1) _ _ row_of_update(2) [OF q(2), where x = x and t = ?t and u = ?u]])
    show "mem_sound ?ms" using mem_sound_ops(4) [OF same_recordsD(1) [OF assms(1)], of i x w] by (simp add: m)
    show "pg_sound ?ps" using sql_update_cases(2) [OF same_recordsD(2) [OF assms(1)], of P i x ?u] sql
      by (simp add: pg_sound_def)
    show "mem_table ?ms = (mem_table ms)(i \<mapsto> ?r)" by (rule t)
    show "pg_table ?ps = (pg_table ps)(i \<mapsto> ?q)" by (simp add: pg_table_def fun_eq_iff)
    show "gm_get (byIssuerState ?ms) s = Some j \<longleftrightarrow> (\<exists>u. mem_table ?ms j = Some u \<and> rec_IssuerState u = s)" if "s \<noteq> []" for s j
    proof (cases "s = x")
      case True
      have "u = i" if "mem_table ms u = Some y" "rec_IssuerState y = x" for u y
        using ix [OF x(1), of u] free that by auto
      then show ?thesis by (auto simp: True t)
    next
      case False
      then show ?thesis using ix [OF that, of j] r that by (auto simp: t)
    qed
  qed
  then show ?thesis unfolding m p using assms(2) by (simp add: pg_list_def mem_list_def time_Now_def)
qed

section \<open>The status list\<close>

lemma same_listD:
  assumes "same_list ms ps"
  shows "mem_sane ms" "pg_sane ps" "mem_entries ms = pg_entries ps" "statusNextIdx ms = pg_next_idx ps"
    "gm_get (pg_status ps) r = mem_entries ms r"
  using assms by (simp_all add: same_list_def pg_entries_def)

lemma allocate_alike:
  assumes "same_list ms ps" and "same_records P ms ps" and "up ps" and "text_ok P r"
    and "mem_table ms r \<noteq> None" and "mem_room ms"
  shows "\<exists>i ms' ps'. mem_AllocateIdx r ms = (Ok i, ms') \<and> pg_AllocateIdx P r ps = (Ok i, ps') \<and> same_list ms' ps' \<and>
    mem_records ms' = mem_records ms \<and> byIssuerState ms' = byIssuerState ms \<and> pg_records ps' = pg_records ps \<and> up ps'"
proof -
  note l = same_listD [OF assms(1)]
  show ?thesis
  proof (cases "gm_get (statusByRecID ms) r")
    case (Some i)
    then have "gm_get (pg_status ps) r = Some (i, mem_byte_at ms i)" by (simp add: l(5) mem_entries_def)
    from up_allocate(1) [OF assms(3,4) this] Some assms(1,3) show ?thesis by (simp add: mem_alloc_cases)
  next
    case None
    then have n: "gm_get (pg_status ps) r = None" by (simp add: l(5) mem_entries_def)
    let ?n = "statusNextIdx ms"
    have lt: "?n + 1 < 2 ^ 63" "0 \<le> ?n" using assms(6) l(1) by (simp_all add: mem_room_def mem_sane_def)
    have i: "i64 (?n + 1) = ?n + 1" using lt by (simp add: in_i64_def)
    obtain y where "pg_table ps r = Some y" using same_recordsD(3) [OF assms(2), of r] assms(5) by (cases "pg_table ps r") auto
    moreover have "\<not> list_ex (\<lambda>(_, j, _). j = pg_next_idx ps) (pg_status ps)"
    proof
      assume "list_ex (\<lambda>(_, j, _). j = pg_next_idx ps) (pg_status ps)"
      then obtain q v where "(q, pg_next_idx ps, v) \<in> set (pg_status ps)" by (auto simp: list_ex_iff)
      then have "gm_get (pg_status ps) q = Some (pg_next_idx ps, v)" using l(2) by (simp add: gm_get_in pg_sane_def)
      with pg_saneD(1) [OF l(2)] show False by fastforce
    qed
    ultimately obtain ev where p: "pg_AllocateIdx P r ps = (Ok ?n, ps\<lparr>pg_next_idx := ?n + 1,
        pg_status := gm_put r (?n, StatusValid) (pg_status ps), pg_events := ev\<rparr>)" (is "_ = (_, ?ps)")
      and up: "up (ps\<lparr>pg_events := ev\<rparr>)"
      using up_allocate(2) [OF assms(3,4) n] lt assms(3) by (auto simp: l(4) [symmetric] pg_table_def tick_def up_def)
    have "pg_sane ?ps"
      using pg_sane_new [OF l(2), where r = r and v = StatusValid and ev = ev] lt by (simp add: l(4))
    moreover have "mem_sane (snd (mem_AllocateIdx r ms))" by (rule mem_sane_alloc [OF l(1) assms(6)])
    moreover have "mem_entries (snd (mem_AllocateIdx r ms)) = pg_entries ?ps"
    proof -
      have "mem_entries ms r = None" using None by (simp add: mem_entries_def)
      from mem_entries_alloc [OF l(1) this] l(3) show ?thesis by (simp add: pg_entries_def fun_eq_iff)
    qed
    moreover have "up ?ps" using up by (simp add: up_def)
    ultimately show ?thesis by (simp add: p mem_alloc_cases(2) [OF None] same_list_def i)
  qed
qed


lemma set_status_alike:
  assumes "same_list ms ps" and "up ps" and "text_ok P r"
  shows "\<exists>a ms' ps'. mem_SetStatus r v ms = (a, ms') \<and> pg_SetStatus P r v ps = (a, ps') \<and> same_list ms' ps' \<and>
    mem_records ms' = mem_records ms \<and> byIssuerState ms' = byIssuerState ms \<and> pg_records ps' = pg_records ps \<and> up ps'"
proof -
  note l = same_listD [OF assms(1)]
  have p: "pg_SetStatus P r v ps = sql_set_status P r v (tick ps)" by (simp add: pg_SetStatus_def up_autocommit [OF assms(2)])
  show ?thesis
  proof (cases "gm_get (statusByRecID ms) r")
    case None
    then have "gm_get (pg_status ps) r = None" by (simp add: l(5) mem_entries_def)
    with None assms show ?thesis by (simp add: p sql_set_status_def mem_SetStatus_def)
  next
    case (Some i)
    then have e: "mem_entries ms r = Some (i, mem_byte_at ms i)" by (simp add: mem_entries_def)
    then have g: "gm_get (pg_status ps) r = Some (i, mem_byte_at ms i)" by (simp add: l(5))
    let ?ps = "(tick ps)\<lparr>pg_status := gm_put r (i, v) (pg_status ps)\<rparr>"
    have q: "sql_set_status P r v (tick ps) = (Some i, ?ps)" using g assms(3) by (simp add: sql_set_status_def)
    have m: "mem_SetStatus r v ms = (Some i, ms\<lparr>statusByIdx := gm_put i v (statusByIdx ms)\<rparr>)"
      using Some by (simp add: mem_SetStatus_def)
    have "mem_sane (ms\<lparr>statusByIdx := gm_put i v (statusByIdx ms)\<rparr>)" using mem_set_sane [OF l(1), of r v] by (simp add: m)
    moreover have "mem_entries (ms\<lparr>statusByIdx := gm_put i v (statusByIdx ms)\<rparr>) = pg_entries ?ps"
      using mem_set_entries [OF l(1), of r v] Some l(3) by (simp add: m pg_entries_def fun_eq_iff)
    moreover have "pg_sane ?ps"
      using l(2) g pg_saneD [OF l(2)] by (auto simp: pg_sane_def)
    ultimately show ?thesis using l(4) assms(2) by (simp add: p q m same_list_def)
  qed
qed

lemma entries_alike:
  assumes "same_list ms ps" and "up ps"
  shows "\<exists>m n. mem_AllEntries ms = (Ok m, ms) \<and> pg_AllEntries ps = (Ok n, tick ps) \<and> gm_get m = gm_get n"
proof -
  note l = same_listD [OF assms(1)]
  obtain m where m: "mem_AllEntries ms = (Ok m, ms)" "\<And>i v. gm_get m i = Some v \<longleftrightarrow> (\<exists>r. mem_entries ms r = Some (i, v))"
    using mem_all_entries [OF l(1)] by blast
  obtain n where n: "pg_AllEntries ps = (Ok n, tick ps)" by (simp add: pg_AllEntries_def up_event [OF assms(2)])
  have "gm_get n i = Some v \<longleftrightarrow> (\<exists>r. pg_entries ps r = Some (i, v))" for i v
    using pg_all_entries [OF l(2) n] by simp
  with m(2) l(3) have "gm_get m i = Some v \<longleftrightarrow> gm_get n i = Some v" for i v by simp
  then have "gm_get m i = gm_get n i" for i by (metis option.exhaust)
  with m(1) n show ?thesis by (auto simp: fun_eq_iff)
qed

section \<open>Every call, every sequence\<close>

lemma list_events_decide: "mem_list ms' = mem_list ms \<Longrightarrow> pg_list ps' = pg_list ps \<Longrightarrow> same_list ms ps \<Longrightarrow> same_list ms' ps'"
  using mem_list_decides [of ms' ms] pg_list_decides [of ps' ps] by (simp add: same_list_def mem_list_def pg_list_def)

lemma records_decide:
  "mem_records ms' = mem_records ms \<Longrightarrow> byIssuerState ms' = byIssuerState ms \<Longrightarrow> pg_records ps' = pg_records ps \<Longrightarrow>
   same_records P ms ps \<Longrightarrow> same_records P ms' ps'"
  using mem_records_decide [of ms' ms] pg_records_decide [of ps' ps] by (simp add: same_records_def)

lemma alike_records_step:
  "alike P ms ps \<Longrightarrow> same_records P ms' ps' \<Longrightarrow> pg_list ps' = pg_list ps \<Longrightarrow> mem_list ms' = mem_list ms \<Longrightarrow>
   up ps' \<Longrightarrow> alike P ms' ps'"
  unfolding alike_def using list_events_decide by metis

lemma alike_list_step:
  "alike P ms ps \<Longrightarrow> same_list ms' ps' \<Longrightarrow> mem_records ms' = mem_records ms \<Longrightarrow> byIssuerState ms' = byIssuerState ms \<Longrightarrow>
   pg_records ps' = pg_records ps \<Longrightarrow> up ps' \<Longrightarrow> alike P ms' ps'"
  unfolding alike_def using records_decide by metis

lemma perform_alike:
  assumes "alike P ms ps" and "in_contract P c ms w" and "pg_orders_ok P" and "w_rand v = w_rand w"
  shows "\<exists>a b ms' ps' w' v'. perform (memory_records it big) memory_status c ms w = (a, ms', w') \<and>
    perform (postgres_records P) (postgres_status P) c ps v = (b, ps', v') \<and> w_rand v' = w_rand w' \<and>
    same_answer P a b \<and> alike P ms' ps'"
proof -
  from assms(1) have h: "same_records P ms ps" "same_list ms ps" "up ps" by (simp_all add: alike_def)
  note ops = memory_records_def postgres_records_def memory_status_def postgres_status_def
  have ticked: "alike P ms (tick ps)" using h by (simp add: alike_def)
  note rstep = alike_records_step [OF assms(1)] and lstep = alike_list_step [OF assms(1)]
  show ?thesis
  proof (cases c)
    case (Call_Create ct cd st sr)
    obtain r q ms' ps' w' v' where x: "mem_Create ct cd st sr ms w = (r, ms', w')" "pg_Create P ct cd st sr ps v = (q, ps', v')"
      "w_rand v' = w_rand w'" "row_of P r q" "alike P ms' ps'"
      using create_alike [OF h(1,3) assms(2) [unfolded Call_Create] assms(4)] rstep by metis
    then show ?thesis using assms(4) by (simp add: Call_Create ops)
  next
    case (Call_FindByID i)
    obtain r q where "mem_FindByID i ms = (r, ms)" "pg_FindByID P i ps = (q, tick ps)" "rel_option (row_of P) r q"
      using find_alike [OF h(1,3), of i] assms(2) by (auto simp: Call_FindByID)
    with ticked assms(4) show ?thesis by (simp add: Call_FindByID ops)
  next
    case (Call_FindByIssuerState st)
    have c: "text_ok P st" "st \<noteq> []" using assms(2) by (simp_all add: Call_FindByIssuerState)
    obtain r q where "mem_FindByIssuerState st ms = (r, ms)" "pg_FindByIssuerState P st ps = (q, tick ps)" "rel_option (row_of P) r q"
      using find_by_state_alike [OF h(1,3) c assms(3)] by blast
    with ticked assms(4) show ?thesis by (simp add: Call_FindByIssuerState ops)
  next
    case (Call_UpdateStatus i x)
    have c: "text_ok P i" "text_ok P x" "mem_table ms i \<noteq> None" using assms(2) by (simp_all add: Call_UpdateStatus)
    obtain ms' ps' w' where "w_rand w' = w_rand w" "mem_UpdateStatus i x ms w = (ms', w')" "pg_UpdateStatus P i x ps v = (ps', v)" "alike P ms' ps'"
      using update_status_alike [OF h(1,3) c, where w = w] rstep by metis
    then show ?thesis using assms(4) by (simp add: Call_UpdateStatus ops)
  next
    case (Call_UpdateIssuerState i x)
    obtain ms' ps' w' where "w_rand w' = w_rand w" "mem_UpdateIssuerState i x ms w = (ms', w')" "pg_UpdateIssuerState P i x ps v = (ps', v)"
      "alike P ms' ps'"
      using update_issuer_state_alike [OF h(1,3) assms(2) [unfolded Call_UpdateIssuerState]] rstep by metis
    then show ?thesis using assms(4) by (simp add: Call_UpdateIssuerState ops)
  next
    case (Call_AllocateIdx i)
    have c: "text_ok P i" "mem_table ms i \<noteq> None" "mem_room ms" using assms(2) by (simp_all add: Call_AllocateIdx)
    obtain j ms' ps' where "mem_AllocateIdx i ms = (Ok j, ms')" "pg_AllocateIdx P i ps = (Ok j, ps')" "alike P ms' ps'"
      using allocate_alike [OF h(2,1,3) c] lstep by blast
    then show ?thesis using assms(4) by (simp add: Call_AllocateIdx ops)
  next
    case (Call_SetStatus i v)
    obtain a ms' ps' where "mem_SetStatus i v ms = (a, ms')" "pg_SetStatus P i v ps = (a, ps')" "alike P ms' ps'"
      using set_status_alike [OF h(2,3), of P i v] lstep assms(2) by (auto simp: Call_SetStatus)
    then show ?thesis using assms(4) by (simp add: Call_SetStatus ops)
  next
    case (Call_FindByRecordID i)
    have m: "mem_FindByRecordID i ms = (mem_entries ms i, ms)"
      by (simp add: mem_FindByRecordID_def mem_entries_def split: option.split)
    have p: "pg_FindByRecordID P i ps = (mem_entries ms i, tick ps)"
      using assms(2) same_listD(5) [OF h(2)] by (simp add: Call_FindByRecordID pg_FindByRecordID_def up_autocommit [OF h(3)])
    show ?thesis using ticked assms(4) by (simp add: Call_FindByRecordID ops m p)
  next
    case Call_AllEntries
    obtain m n where "mem_AllEntries ms = (Ok m, ms)" "pg_AllEntries ps = (Ok n, tick ps)" "gm_get m = gm_get n"
      using entries_alike [OF h(2,3)] by blast
    with ticked assms(4) show ?thesis by (simp add: Call_AllEntries ops)
  qed
qed

text \<open>C8 (equivalence): the in-memory store and the Postgres store, while its database is up, give the same
  answers to every sequence of calls within the contract when they draw the same random identifiers:
  the records they return differ at most in how \<open>jsonb\<close> prints the credential data and in the two
  timestamps (one store reads the clock of the process, the other the clock of the database), the
  indices, statuses and entries are equal, and the stores hold the same afterwards.\<close>

theorem stores_agree:
  assumes "pg_orders_ok P" and "alike P ms ps" and "all_in_contract P (memory_records it big) memory_status cs ms w"
    and "w_rand v = w_rand w"
    and "perform_all (memory_records it big) memory_status cs ms w = (as, ms', w')"
    and "perform_all (postgres_records P) (postgres_status P) cs ps v = (bs, ps', v')"
  shows "list_all2 (same_answer P) as bs \<and> alike P ms' ps' \<and> w_rand v' = w_rand w'"
  using assms(2-6)
proof (induction cs arbitrary: ms ps w v as bs)
  case (Cons c cs)
  from Cons.prems(2) have "in_contract P c ms w" by simp
  from perform_alike [OF Cons.prems(1) this assms(1) Cons.prems(3), of it big] obtain a b ms1 ps1 wm vm where
    m: "perform (memory_records it big) memory_status c ms w = (a, ms1, wm)"
    and p: "perform (postgres_records P) (postgres_status P) c ps v = (b, ps1, vm)" and r: "w_rand vm = w_rand wm"
    and s: "same_answer P a b" "alike P ms1 ps1"
    by blast
  obtain as' bs' where "as = a # as'" "bs = b # bs'"
    "perform_all (memory_records it big) memory_status cs ms1 wm = (as', ms', w')"
    "perform_all (postgres_records P) (postgres_status P) cs ps1 vm = (bs', ps', v')"
    using Cons.prems(4,5) by (auto simp: m p Let_def split: prod.splits)
  with Cons.IH [OF s(2), of wm vm as' bs'] Cons.prems(2) s(1) r show ?case by (simp add: m)
qed simp

text \<open>A new record that is found by its issuer state, given an index and revoked; the database's clock
  runs by itself.\<close>

definition empty_tables :: pg_store where
  "empty_tables = \<lparr>pg_records = [], pg_status = [], pg_next_idx = 0, pg_events = (\<lambda>n. (1000 * int n + 1500, DbOk))\<rparr>"

definition demo_calls :: "store_call list" where
  "demo_calls = (let rid = fst (draw_token 16 zero_world)
     in [Call_Create ''pid'' [] ''api'' [], Call_UpdateIssuerState rid ''s'', Call_FindByIssuerState ''s'',
         Call_AllocateIdx rid, Call_SetStatus rid StatusInvalid, Call_FindByRecordID rid, Call_AllEntries])"

lemma empty_alike: "alike P NewStore empty_tables"
  by (simp add: alike_def same_records_def same_list_def NewStore_def empty_tables_def mem_sound_def pg_sound_def mem_table_def
      pg_table_def up_def mem_sane_def pg_sane_def mem_entries_def [abs_def] pg_entries_def [abs_def] gm_wf_def)

lemma demo_calls_in_contract:
  "all_in_contract plain_pg (memory_records it big) memory_status demo_calls NewStore zero_world"
  by (simp add: demo_calls_def Let_def NewStore_def memory_records_def memory_status_def mem_table_def mem_Create_def
      mem_UpdateIssuerState_def mem_AllocateIdx_def mem_SetStatus_def mem_FindByIssuerState_def mem_FindByRecordID_def
      mem_room_def plain_pg_def split_beta time_Now_def draw_token_def zero_world_def)

theorem stores_agree_witness:
  "list_all2 (same_answer plain_pg) (fst (perform_all dev_records memory_status demo_calls NewStore zero_world))
     (fst (perform_all (postgres_records plain_pg) (postgres_status plain_pg) demo_calls empty_tables zero_world))"
proof -
  obtain as ms' w' where a: "perform_all dev_records memory_status demo_calls NewStore zero_world = (as, ms', w')"
    by (cases "perform_all dev_records memory_status demo_calls NewStore zero_world")
  obtain bs ps' v' where b: "perform_all (postgres_records plain_pg) (postgres_status plain_pg) demo_calls empty_tables zero_world =
      (bs, ps', v')"
    by (cases "perform_all (postgres_records plain_pg) (postgres_status plain_pg) demo_calls empty_tables zero_world")
  from stores_agree [OF plain_pg_orders empty_alike demo_calls_in_contract refl a [unfolded dev_records_def] b] a b
  show ?thesis by simp
qed

end
