(* ===== verification/Go_Json.thy ===== *)
theory Go_Json
  imports Go_Std
begin

text \<open>
  \<open>encoding/json\<close> as the issuer uses it: the text of a document is parsed into a syntax tree whose
  numbers are still literals (\<open>string json\<close>); decoding into \<open>any\<close> converts the numbers to float64 and
  lets the last of several equal keys win (\<open>f64 json\<close>); marshalling prints with Go's escapes (HTML
  characters, invalid UTF-8 and the line separators included) and, for maps, sorted keys;
  \<open>sprint_v\<close> is \<open>fmt.Sprintf("%v", x)\<close> on decoded values. The conversion between decimal text and
  binary64 (\<open>strconv\<close>) is the parameter record \<open>float_ops\<close>. A syntax or conversion error is
  \<open>None\<close>; the text of the error for a document is the field \<open>json_error\<close> of the same record, for the
  places where the code copies it into a message.
\<close>

datatype 'n json = JNull | JBool bool | JNum 'n | JStr string
  | JArr "'n json list" | JObj "(string \<times> 'n json) list"

type_synonym f64 = "64 word"

record float_ops =
  f64_parse :: "string \<Rightarrow> f64 option"
  f64_json :: "f64 \<Rightarrow> string option"
  f64_v :: "f64 \<Rightarrow> string"
  json_error :: "string \<Rightarrow> string"

section \<open>UTF-8\<close>

abbreviation cn :: "char \<Rightarrow> nat" where
  "cn c \<equiv> of_char c"

definition cont_byte :: "char \<Rightarrow> bool" where
  "cont_byte c \<longleftrightarrow> 0x80 \<le> cn c \<and> cn c \<le> 0xBF"

text \<open>The width of the first rune, 0 where the string does not start with a valid encoding.\<close>

fun utf8_width :: "string \<Rightarrow> nat" where
  "utf8_width [] = 0"
| "utf8_width (a # s) =
     (if cn a < 0x80 then 1
      else if 0xC2 \<le> cn a \<and> cn a \<le> 0xDF then
        (case s of b # _ \<Rightarrow> if cont_byte b then 2 else 0 | _ \<Rightarrow> 0)
      else if 0xE0 \<le> cn a \<and> cn a \<le> 0xEF then
        (case s of b # c # _ \<Rightarrow>
           if cont_byte b \<and> cont_byte c \<and> (cn a = 0xE0 \<longrightarrow> 0xA0 \<le> cn b) \<and>
              (cn a = 0xED \<longrightarrow> cn b \<le> 0x9F) then 3 else 0
         | _ \<Rightarrow> 0)
      else if 0xF0 \<le> cn a \<and> cn a \<le> 0xF4 then
        (case s of b # c # d # _ \<Rightarrow>
           if cont_byte b \<and> cont_byte c \<and> cont_byte d \<and> (cn a = 0xF0 \<longrightarrow> 0x90 \<le> cn b) \<and>
              (cn a = 0xF4 \<longrightarrow> cn b \<le> 0x8F) then 4 else 0
         | _ \<Rightarrow> 0)
      else 0)"

definition utf8_encode :: "nat \<Rightarrow> string" where
  "utf8_encode r =
     (if r < 0x80 then [char_of r]
      else if r < 0x800 then [char_of (0xC0 + r div 64), char_of (0x80 + r mod 64)]
      else if r < 0x10000 then
        [char_of (0xE0 + r div 4096), char_of (0x80 + r div 64 mod 64), char_of (0x80 + r mod 64)]
      else
        [char_of (0xF0 + r div 262144), char_of (0x80 + r div 4096 mod 64),
         char_of (0x80 + r div 64 mod 64), char_of (0x80 + r mod 64)])"

definition replacement :: string where
  "replacement = [CHR 0xEF, CHR 0xBF, CHR 0xBD]"

section \<open>Marshalling\<close>

definition hex_lower :: "nat \<Rightarrow> char" where
  "hex_lower n = ''0123456789abcdef'' ! n"

definition quote_ascii :: "char \<Rightarrow> string" where
  "quote_ascii c =
     (if c = CHR 0x5C \<or> c = CHR 0x22 then [CHR 0x5C, c]
      else if c = CHR 0x08 then [CHR 0x5C, CHR ''b'']
      else if c = CHR 0x0C then [CHR 0x5C, CHR ''f'']
      else if c = CHR 0x0A then [CHR 0x5C, CHR ''n'']
      else if c = CHR 0x0D then [CHR 0x5C, CHR ''r'']
      else if c = CHR 0x09 then [CHR 0x5C, CHR ''t'']
      else if cn c < 0x20 \<or> c \<in> set ''<>&'' then
        CHR 0x5C # ''u00'' @ [hex_lower (cn c div 16), hex_lower (cn c mod 16)]
      else [c])"

fun quote_chars :: "string \<Rightarrow> string" where
  "quote_chars [] = []"
| "quote_chars (c # s) =
     (if cn c < 0x80 then quote_ascii c @ quote_chars s
      else if utf8_width (c # s) = 0 then CHR 0x5C # ''ufffd'' @ quote_chars s
      else if take 3 (c # s) = [CHR 0xE2, CHR 0x80, CHR 0xA8] then CHR 0x5C # ''u2028'' @ quote_chars (drop 2 s)
      else if take 3 (c # s) = [CHR 0xE2, CHR 0x80, CHR 0xA9] then CHR 0x5C # ''u2029'' @ quote_chars (drop 2 s)
      else take (utf8_width (c # s)) (c # s) @ quote_chars (drop (utf8_width (c # s) - 1) s))"

definition quote :: "string \<Rightarrow> string" where
  "quote s = CHR 0x22 # quote_chars s @ [CHR 0x22]"

text \<open>Objects print in the order given: the field order of a struct, or the sorted keys of a map.\<close>

fun marshal :: "float_ops \<Rightarrow> f64 json \<Rightarrow> string option"
and marshal_elems :: "float_ops \<Rightarrow> f64 json list \<Rightarrow> string option"
and marshal_members :: "float_ops \<Rightarrow> (string \<times> f64 json) list \<Rightarrow> string option" where
  "marshal fo JNull = Some ''null''"
| "marshal fo (JBool b) = Some (if b then ''true'' else ''false'')"
| "marshal fo (JNum n) = f64_json fo n"
| "marshal fo (JStr s) = Some (quote s)"
| "marshal fo (JArr xs) = map_option (\<lambda>t. ''['' @ t @ '']'') (marshal_elems fo xs)"
| "marshal fo (JObj ms) = map_option (\<lambda>t. CHR 0x7B # t @ [CHR 0x7D]) (marshal_members fo ms)"
| "marshal_elems fo [] = Some []"
| "marshal_elems fo (x # xs) =
     (case (marshal fo x, marshal_elems fo xs) of
        (Some a, Some b) \<Rightarrow> Some (if xs = [] then a else a @ '','' @ b)
      | _ \<Rightarrow> None)"
| "marshal_members fo [] = Some []"
| "marshal_members fo ((k, x) # ms) =
     (case (marshal fo x, marshal_members fo ms) of
        (Some a, Some b) \<Rightarrow>
          Some (quote k @ '':'' @ (if ms = [] then a else a @ '','' @ b))
      | _ \<Rightarrow> None)"

text \<open>Maps, at every depth, print their keys in increasing byte order.\<close>

fun sort_maps :: "f64 json \<Rightarrow> f64 json" where
  "sort_maps (JArr xs) = JArr (map sort_maps xs)"
| "sort_maps (JObj ms) = JObj (sort_key fst (map (\<lambda>(k, v). (k, sort_maps v)) ms))"
| "sort_maps v = v"

definition marshal_any :: "float_ops \<Rightarrow> f64 json \<Rightarrow> string option" where
  "marshal_any fo v = marshal fo (sort_maps v)"

section \<open>Formatting with the verb v\<close>

fun sprint_v :: "float_ops \<Rightarrow> f64 json \<Rightarrow> string"
and sprint_elems :: "float_ops \<Rightarrow> f64 json list \<Rightarrow> string"
and sprint_members :: "float_ops \<Rightarrow> (string \<times> f64 json) list \<Rightarrow> string" where
  "sprint_v fo JNull = ''<nil>''"
| "sprint_v fo (JBool b) = (if b then ''true'' else ''false'')"
| "sprint_v fo (JNum n) = f64_v fo n"
| "sprint_v fo (JStr s) = s"
| "sprint_v fo (JArr xs) = ''['' @ sprint_elems fo xs @ '']''"
| "sprint_v fo (JObj ms) = ''map['' @ sprint_members fo ms @ '']''"
| "sprint_elems fo [] = []"
| "sprint_elems fo (x # xs) = sprint_v fo x @ (if xs = [] then [] else '' '' @ sprint_elems fo xs)"
| "sprint_members fo [] = []"
| "sprint_members fo ((k, x) # ms) =
     k @ '':'' @ sprint_v fo x @ (if ms = [] then [] else '' '' @ sprint_members fo ms)"

text \<open>\<open>fmt\<close> prints the keys of a map in sorted order too.\<close>

definition Sprintf_v :: "float_ops \<Rightarrow> f64 json \<Rightarrow> string" where
  "Sprintf_v fo v = sprint_v fo (sort_maps v)"

section \<open>Parsing\<close>

definition is_ws :: "char \<Rightarrow> bool" where
  "is_ws c \<longleftrightarrow> c = CHR 0x20 \<or> c = CHR 0x09 \<or> c = CHR 0x0A \<or> c = CHR 0x0D"

definition skip_ws :: "string \<Rightarrow> string" where
  "skip_ws s = dropWhile is_ws s"

definition hex_val :: "char \<Rightarrow> nat option" where
  "hex_val c =
     (if 48 \<le> cn c \<and> cn c \<le> 57 then Some (cn c - 48)
      else if 97 \<le> cn c \<and> cn c \<le> 102 then Some (cn c - 87)
      else if 65 \<le> cn c \<and> cn c \<le> 70 then Some (cn c - 55)
      else None)"

fun hex4 :: "string \<Rightarrow> (nat \<times> string) option" where
  "hex4 (a # b # c # d # rest) =
     (case (hex_val a, hex_val b, hex_val c, hex_val d) of
        (Some w, Some x, Some y, Some z) \<Rightarrow> Some (((w * 16 + x) * 16 + y) * 16 + z, rest)
      | _ \<Rightarrow> None)"
| "hex4 _ = None"

definition is_surrogate :: "nat \<Rightarrow> bool" where
  "is_surrogate r \<longleftrightarrow> 0xD800 \<le> r \<and> r < 0xE000"

text \<open>
  The rune of a unicode escape and the rest of the input: a high surrogate takes the low surrogate of
  an immediately following escape with it; any other surrogate is the replacement character.
\<close>

definition u_escape :: "string \<Rightarrow> (string \<times> string) option" where
  "u_escape s =
     (case hex4 s of
        None \<Rightarrow> None
      | Some (r, rest) \<Rightarrow>
          if \<not> is_surrogate r then Some (utf8_encode r, rest)
          else (case rest of
                  p # q # tl2 \<Rightarrow>
                    if p = CHR 0x5C \<and> q = CHR ''u'' then
                      (case hex4 tl2 of
                         Some (r2, rest2) \<Rightarrow>
                           if r < 0xDC00 \<and> 0xDC00 \<le> r2 \<and> r2 < 0xE000
                           then Some (utf8_encode ((r - 0xD800) * 1024 + (r2 - 0xDC00) + 0x10000), rest2)
                           else Some (replacement, rest)
                       | None \<Rightarrow> Some (replacement, rest))
                    else Some (replacement, rest)
                | _ \<Rightarrow> Some (replacement, rest)))"

lemma hex4_length: "hex4 s = Some (r, rest) \<Longrightarrow> length rest < length s"
  by (induction s rule: hex4.induct) (auto split: option.splits)

lemma u_escape_length: "u_escape s = Some (t, rest) \<Longrightarrow> length rest < length s"
  by (auto simp: u_escape_def split: option.splits prod.splits if_splits list.splits
      dest!: hex4_length)

definition simple_escape :: "char \<Rightarrow> char option" where
  "simple_escape c =
     (if c = CHR 0x22 \<or> c = CHR 0x5C \<or> c = CHR ''/'' then Some c
      else if c = CHR ''b'' then Some CHR 0x08
      else if c = CHR ''f'' then Some CHR 0x0C
      else if c = CHR ''n'' then Some CHR 0x0A
      else if c = CHR ''r'' then Some CHR 0x0D
      else if c = CHR ''t'' then Some CHR 0x09
      else None)"

text \<open>A string literal after its opening quote: the value and what follows the closing quote.\<close>

function (sequential) string_body :: "string \<Rightarrow> (string \<times> string) option" where
  "string_body [] = None"
| "string_body (c # s) =
     (if c = CHR 0x22 then Some ([], s)
      else if c = CHR 0x5C then
        (case s of
           [] \<Rightarrow> None
         | e # s' \<Rightarrow>
             if e = CHR ''u'' then
               (case u_escape s' of
                  None \<Rightarrow> None
                | Some (t, rest) \<Rightarrow> map_option (\<lambda>(v, r). (t @ v, r)) (string_body rest))
             else (case simple_escape e of
                     None \<Rightarrow> None
                   | Some x \<Rightarrow> map_option (\<lambda>(v, r). (x # v, r)) (string_body s')))
      else if cn c < 0x20 then None
      else if cn c < 0x80 then map_option (\<lambda>(v, r). (c # v, r)) (string_body s)
      else if utf8_width (c # s) = 0 then map_option (\<lambda>(v, r). (replacement @ v, r)) (string_body s)
      else map_option (\<lambda>(v, r). (take (utf8_width (c # s)) (c # s) @ v, r))
             (string_body (drop (utf8_width (c # s) - 1) s)))"
  by pat_completeness auto
termination
  by (relation "measure length") (auto dest: u_escape_length)

declare string_body.simps [simp del]

definition take_digits :: "string \<Rightarrow> string \<times> string" where
  "take_digits s = (takeWhile is_digit s, dropWhile is_digit s)"

definition frac_part :: "string \<Rightarrow> (string \<times> string) option" where
  "frac_part s =
     (case s of
        c # s' \<Rightarrow>
          if c = CHR ''.'' then
            (case take_digits s' of (d, r) \<Rightarrow> if d = [] then None else Some (c # d, r))
          else Some ([], s)
      | [] \<Rightarrow> Some ([], s))"

definition exp_part :: "string \<Rightarrow> (string \<times> string) option" where
  "exp_part s =
     (case s of
        c # s' \<Rightarrow>
          if c = CHR ''e'' \<or> c = CHR ''E'' then
            (let (sg, s'') = (case s' of x # t \<Rightarrow> if x = CHR ''+'' \<or> x = CHR ''-'' then ([x], t) else ([], s')
                              | [] \<Rightarrow> ([], s'));
                 (d, r) = take_digits s''
             in if d = [] then None else Some (c # sg @ d, r))
          else Some ([], s)
      | [] \<Rightarrow> Some ([], s))"

definition int_part :: "string \<Rightarrow> (string \<times> string) option" where
  "int_part s =
     (case s of
        [] \<Rightarrow> None
      | c # s' \<Rightarrow>
          if c = CHR ''0'' then Some ([c], s')
          else if is_digit c then Some (take_digits s) else None)"

definition number_lit :: "string \<Rightarrow> (string \<times> string) option" where
  "number_lit s =
     (let (sg, s1) = (case s of c # t \<Rightarrow> if c = CHR ''-'' then ([c], t) else ([], s) | [] \<Rightarrow> ([], s))
      in (case int_part s1 of
            None \<Rightarrow> None
          | Some (i, s2) \<Rightarrow>
              (case frac_part s2 of
                 None \<Rightarrow> None
               | Some (f, s3) \<Rightarrow>
                   (case exp_part s3 of
                      None \<Rightarrow> None
                    | Some (e, s4) \<Rightarrow> Some (sg @ i @ f @ e, s4)))))"

definition literal :: "string \<Rightarrow> (string json \<times> string) option" where
  "literal s =
     (if has_prefix s ''null'' then Some (JNull, drop 4 s)
      else if has_prefix s ''true'' then Some (JBool True, drop 4 s)
      else if has_prefix s ''false'' then Some (JBool False, drop 5 s)
      else map_option (\<lambda>(n, r). (JNum n, r)) (number_lit s))"

text \<open>
  Values, array elements and object members, each expecting its input without leading white
  space. \<open>d\<close> is the nesting depth, limited to 10000; the first argument is fuel.
\<close>

definition max_depth :: nat where "max_depth = 10000"

fun p_value :: "nat \<Rightarrow> nat \<Rightarrow> string \<Rightarrow> (string json \<times> string) option"
and p_elems :: "nat \<Rightarrow> nat \<Rightarrow> string \<Rightarrow> (string json list \<times> string) option"
and p_members :: "nat \<Rightarrow> nat \<Rightarrow> string \<Rightarrow> ((string \<times> string json) list \<times> string) option" where
  "p_value 0 d s = None"
| "p_value (Suc n) d s =
     (case s of
        [] \<Rightarrow> None
      | c # s' \<Rightarrow>
          if c = CHR 0x22 then map_option (\<lambda>(v, r). (JStr v, r)) (string_body s')
          else if c = CHR ''['' then
            (if max_depth \<le> d then None
             else (case skip_ws s' of
                     x # r \<Rightarrow>
                       if x = CHR '']'' then Some (JArr [], r)
                       else map_option (\<lambda>(v, r). (JArr v, r)) (p_elems n (Suc d) (x # r))
                   | [] \<Rightarrow> None))
          else if c = CHR 0x7B then
            (if max_depth \<le> d then None
             else (case skip_ws s' of
                     x # r \<Rightarrow>
                       if x = CHR 0x7D then Some (JObj [], r)
                       else map_option (\<lambda>(v, r). (JObj v, r)) (p_members n (Suc d) (x # r))
                   | [] \<Rightarrow> None))
          else literal s)"
| "p_elems 0 d s = None"
| "p_elems (Suc n) d s =
     (case p_value n d s of
        None \<Rightarrow> None
      | Some (v, r) \<Rightarrow>
          (case skip_ws r of
             [] \<Rightarrow> None
           | c # r' \<Rightarrow>
               if c = CHR '']'' then Some ([v], r')
               else if c = CHR '','' then
                 map_option (\<lambda>(vs, r). (v # vs, r)) (p_elems n d (skip_ws r'))
               else None))"
| "p_members 0 d s = None"
| "p_members (Suc n) d s =
     (case s of
        [] \<Rightarrow> None
      | q # s' \<Rightarrow>
          if q \<noteq> CHR 0x22 then None
          else (case string_body s' of
            None \<Rightarrow> None
          | Some (k, r) \<Rightarrow>
              (case skip_ws r of
                 [] \<Rightarrow> None
               | c # r1 \<Rightarrow>
                   if c \<noteq> CHR '':'' then None
                   else (case p_value n d (skip_ws r1) of
                     None \<Rightarrow> None
                   | Some (v, r2) \<Rightarrow>
                       (case skip_ws r2 of
                          [] \<Rightarrow> None
                        | e # r3 \<Rightarrow>
                            if e = CHR 0x7D then Some ([(k, v)], r3)
                            else if e = CHR '','' then
                              map_option (\<lambda>(ms, r). ((k, v) # ms, r)) (p_members n d (skip_ws r3))
                            else None)))))"

text \<open>\<open>Decoder.Decode\<close> reads the first value and leaves the rest; \<open>Unmarshal\<close> wants nothing after it.\<close>

definition decode_first :: "string \<Rightarrow> string json option" where
  "decode_first s = map_option fst (p_value (2 * length s + 2) 0 (skip_ws s))"

definition parse_document :: "string \<Rightarrow> string json option" where
  "parse_document s =
     (case p_value (2 * length s + 2) 0 (skip_ws s) of
        Some (v, r) \<Rightarrow> if skip_ws r = [] then Some v else None
      | None \<Rightarrow> None)"

text \<open>Decoding a value into \<open>any\<close>.\<close>

fun to_any :: "float_ops \<Rightarrow> string json \<Rightarrow> f64 json option"
and to_any_list :: "float_ops \<Rightarrow> string json list \<Rightarrow> f64 json list option"
and to_any_members :: "float_ops \<Rightarrow> (string, f64 json) gomap \<Rightarrow> (string \<times> string json) list \<Rightarrow>
      (string, f64 json) gomap option" where
  "to_any fo JNull = Some JNull"
| "to_any fo (JBool b) = Some (JBool b)"
| "to_any fo (JStr s) = Some (JStr s)"
| "to_any fo (JNum n) = map_option JNum (f64_parse fo n)"
| "to_any fo (JArr xs) = map_option JArr (to_any_list fo xs)"
| "to_any fo (JObj ms) = map_option JObj (to_any_members fo [] ms)"
| "to_any_list fo [] = Some []"
| "to_any_list fo (x # xs) =
     (case (to_any fo x, to_any_list fo xs) of (Some a, Some b) \<Rightarrow> Some (a # b) | _ \<Rightarrow> None)"
| "to_any_members fo acc [] = Some acc"
| "to_any_members fo acc ((k, x) # ms) =
     (case to_any fo x of
        None \<Rightarrow> None
      | Some v \<Rightarrow> to_any_members fo (gm_put k v acc) ms)"

text \<open>
  \<open>json.Unmarshal\<close> into a nil \<open>map[string]any\<close>: \<open>null\<close> leaves the map nil (\<open>Some None\<close>), any other
  value that is not an object is a type error.
\<close>

definition unmarshal_map :: "float_ops \<Rightarrow> string \<Rightarrow> (string, f64 json) gomap option option" where
  "unmarshal_map fo s =
     (case parse_document s of
        Some JNull \<Rightarrow> Some None
      | Some (JObj ms) \<Rightarrow> map_option Some (to_any_members fo [] ms)
      | _ \<Rightarrow> None)"

lemma to_any_members_wf:
  "to_any_members fo acc ms = Some m \<Longrightarrow> gm_wf acc \<Longrightarrow> gm_wf m"
  by (induction ms arbitrary: acc) (auto split: option.splits)

lemma unmarshal_map_wf: "unmarshal_map fo s = Some (Some m) \<Longrightarrow> gm_wf m"
  by (auto simp: unmarshal_map_def split: option.splits json.splits dest!: to_any_members_wf)

section \<open>Decoding into structs\<close>

text \<open>
  A key names a struct field exactly or up to case folding, which also identifies the long s
  (C5 BF) with s and the Kelvin sign (E2 84 AA) with k. Unknown keys are skipped. Fields are
  assigned in document order; a value of the wrong type makes the whole decoding an error.
\<close>

fun fold_name :: "string \<Rightarrow> string" where
  "fold_name [] = []"
| "fold_name (x # xs) =
     (if take 3 (x # xs) = [CHR 0xE2, CHR 0x84, CHR 0xAA] then CHR ''k'' # fold_name (drop 2 xs)
      else if take 2 (x # xs) = [CHR 0xC5, CHR 0xBF] then CHR ''s'' # fold_name (drop 1 xs)
      else lower_char x # fold_name xs)"

definition field_of :: "string list \<Rightarrow> string \<Rightarrow> string option" where
  "field_of names key =
     (if key \<in> set names then Some key
      else List.find (\<lambda>n. fold_name n = fold_name key) names)"

fun decode_fields ::
  "string list \<Rightarrow> (string \<Rightarrow> string json \<Rightarrow> 'r \<Rightarrow> 'r option) \<Rightarrow>
   (string \<times> string json) list \<Rightarrow> 'r \<Rightarrow> 'r option" where
  "decode_fields names assign [] r = Some r"
| "decode_fields names assign ((k, v) # ms) r =
     (case field_of names k of
        None \<Rightarrow> decode_fields names assign ms r
      | Some n \<Rightarrow> (case assign n v r of
                    None \<Rightarrow> None
                  | Some r' \<Rightarrow> decode_fields names assign ms r'))"

definition decode_struct ::
  "string list \<Rightarrow> (string \<Rightarrow> string json \<Rightarrow> 'r \<Rightarrow> 'r option) \<Rightarrow> 'r \<Rightarrow> string json \<Rightarrow> 'r option" where
  "decode_struct names assign zero v =
     (case v of
        JNull \<Rightarrow> Some zero
      | JObj ms \<Rightarrow> decode_fields names assign ms zero
      | _ \<Rightarrow> None)"

definition decode_string :: "string \<Rightarrow> string json \<Rightarrow> string option" where
  "decode_string old v = (case v of JStr s \<Rightarrow> Some s | JNull \<Rightarrow> Some old | _ \<Rightarrow> None)"

definition decode_map ::
  "float_ops \<Rightarrow> (string, f64 json) gomap option \<Rightarrow> string json \<Rightarrow> (string, f64 json) gomap option option" where
  "decode_map fo old v =
     (case v of
        JNull \<Rightarrow> Some None
      | JObj ms \<Rightarrow> map_option Some (to_any_members fo (case old of None \<Rightarrow> [] | Some m \<Rightarrow> m) ms)
      | _ \<Rightarrow> None)"

fun decode_strings :: "string json list \<Rightarrow> string list option" where
  "decode_strings [] = Some []"
| "decode_strings (v # vs) =
     (case (decode_string [] v, decode_strings vs) of
        (Some a, Some b) \<Rightarrow> Some (a # b)
      | _ \<Rightarrow> None)"

definition decode_string_list :: "string json \<Rightarrow> string list option" where
  "decode_string_list v = (case v of JNull \<Rightarrow> Some [] | JArr xs \<Rightarrow> decode_strings xs | _ \<Rightarrow> None)"

fun decode_lists_members ::
  "(string, string list) gomap \<Rightarrow> (string \<times> string json) list \<Rightarrow> (string, string list) gomap option" where
  "decode_lists_members acc [] = Some acc"
| "decode_lists_members acc ((k, v) # ms) =
     (case decode_string_list v of
        None \<Rightarrow> None
      | Some l \<Rightarrow> decode_lists_members (gm_put k l acc) ms)"

definition decode_lists ::
  "(string, string list) gomap \<Rightarrow> string json \<Rightarrow> (string, string list) gomap option" where
  "decode_lists old v =
     (case v of
        JNull \<Rightarrow> Some []
      | JObj ms \<Rightarrow> decode_lists_members old ms
      | _ \<Rightarrow> None)"

end
