(* ===== verification/Jose.thy ===== *)
theory Jose
  imports Go_Json
begin

text \<open>
  The interface of the third-party library \<open>lestrrat-go/jwx/v3\<close> (JWS, JWT, JWK) as the issuer calls
  it. Its code is not in the repository: every call is a field of the parameter record \<open>jose\<close>, with
  \<open>'k\<close> for keys and \<open>'ks\<close> for key sets. What a parsed message or token is to the issuer is what
  its accessors return, so those are plain records. \<open>Inl\<close> carries the text of the library's error.
\<close>

record 'k jws_headers =
  h_typ :: "string option"
  h_alg :: "string option"
  h_jwk :: "'k option"
  h_x5c :: bool
  h_kid :: "string option"

text \<open>
  \<open>tok_string n\<close> is \<open>token.Get(n, &s)\<close> into a string variable: \<open>None\<close> where the claim is absent or
  not a string. \<open>tok_object n\<close> is the same call into a \<open>map[string]any\<close>.
\<close>

record jwt_token =
  tok_jti :: "string option"
  tok_iat :: "instant option"
  tok_aud :: "string list option"
  tok_string :: "string \<Rightarrow> string option"
  tok_object :: "string \<Rightarrow> (string, f64 json) gomap option"

text \<open>\<open>_ = token.Get(name, &v)\<close> on a zero string variable.\<close>

definition get_or_empty :: "jwt_token \<Rightarrow> string \<Rightarrow> string" where
  "get_or_empty tok n = (case tok_string tok n of Some v \<Rightarrow> v | None \<Rightarrow> [])"

text \<open>
  \<open>jws_parse\<close> is \<open>jws.Parse\<close>, giving the protected headers of each signature; \<open>jwt_verify_key\<close> is
  \<open>jwt.Parse\<close> with one ES256 key and no claim validation; \<open>jwt_verify_set\<close> is \<open>jwt.Parse\<close> with a key
  set, claim validation at the given instant and the expected issuer and audience;
  \<open>jwt_insecure\<close> is \<open>jwt.Parse\<close> without verification or validation.
\<close>

record ('k, 'ks) jose =
  jws_parse :: "string \<Rightarrow> string + 'k jws_headers list"
  jwt_verify_key :: "'k \<Rightarrow> string \<Rightarrow> jwt_token option"
  jwt_verify_set :: "'ks \<Rightarrow> string \<Rightarrow> string \<Rightarrow> instant \<Rightarrow> string \<Rightarrow> jwt_token option"
  jwt_insecure :: "string \<Rightarrow> string + jwt_token"
  jwk_set_parse :: "string \<Rightarrow> string + 'ks"
  jwk_thumbprint :: "'k \<Rightarrow> string + bytes"
  jwk_has :: "'k \<Rightarrow> string \<Rightarrow> bool"

text \<open>
  A concrete library for the witnesses: keys are strings whose thumbprint is their own bytes, and
  messages, tokens and key sets are looked up in tables. It serves to show that the hypotheses of
  the properties can hold together.
\<close>

definition table_jose ::
  "(string \<times> string jws_headers) list \<Rightarrow> (string \<times> jwt_token) list \<Rightarrow> (string, string) jose" where
  "table_jose hdrs toks =
     \<lparr>jws_parse = (\<lambda>s. case map_of hdrs s of None \<Rightarrow> Inl ''unknown'' | Some h \<Rightarrow> Inr [h]),
      jwt_verify_key = (\<lambda>k s. map_of toks s),
      jwt_verify_set = (\<lambda>ks iss aud now s. map_of toks s),
      jwt_insecure = (\<lambda>s. case map_of toks s of None \<Rightarrow> Inl ''unknown'' | Some t \<Rightarrow> Inr t),
      jwk_set_parse = Inr,
      jwk_thumbprint = (\<lambda>k. Inr (bytes_of k)),
      jwk_has = (\<lambda>_ _. False)\<rparr>"

end
