(* ===== verification/Signing.thy ===== *)
theory Signing
  imports Jose OAuth_Error
begin

text \<open>
  \<open>internal/crypto/signingkey.go\<close> and \<open>x5c.go\<close>: the issuer's signing key, its public JWK and its
  certificate chain in the form the JOSE library takes. The calls into that library and into the
  signer (a local key, or the remote signing service) are fields of the parameter record
  \<open>jose_out\<close>; what they are given is computed here. \<open>Inl\<close> carries the text of an error.
\<close>

section \<open>Padded base64\<close>

text \<open>\<open>base64.StdEncoding\<close>: the alphabet with \<open>+\<close> and \<open>/\<close>, padded to a multiple of four.\<close>

definition b64_std_char :: "char \<Rightarrow> char" where
  "b64_std_char c = (if c = CHR ''-'' then CHR ''+'' else if c = CHR ''_'' then CHR ''/'' else c)"

definition b64std :: "bytes \<Rightarrow> string" where
  "b64std bs = map b64_std_char (b64url bs) @ replicate ((3 - length bs mod 3) mod 3) (CHR ''='')"

section \<open>Values handed to the libraries\<close>

text \<open>
  A header parameter or JWK member is a string or a certificate chain. A claim is an instant, or a Go
  value: a JSON value decoded earlier, a string, an integer, a list of strings or a map.
\<close>

datatype header_value = HStr string | HChain "string list"

datatype go_any = VJson "f64 json" | VStr string | VInt int | VStrs "string list" | VMap "(string \<times> go_any) list"

datatype claim_value = CTime instant | CAny go_any

type_synonym headers = "(string \<times> header_value) list"
type_synonym claims = "(string \<times> claim_value) list"

text \<open>
  \<open>jo_headers_set\<close> and \<open>jo_key_set\<close> are the \<open>Set\<close> methods of header and key objects, \<open>jo_chain_add\<close> is
  \<open>cert.Chain.AddString\<close>, \<open>jo_build\<close> is \<open>jwt.Builder.Build\<close> on the claims set so far, \<open>jo_jwt_sign\<close>
  is \<open>jwt.Sign\<close> with ES256 and the protected headers, and \<open>jo_sign_digest\<close> is \<open>crypto.Signer.Sign\<close> on
  a SHA-256 digest. Signing may draw from the entropy tape.
\<close>

record ('k, 'sg) jose_out =
  jo_public_of :: "'sg \<Rightarrow> string + 'k"
  jo_thumbprint :: "'k \<Rightarrow> string + bytes"
  jo_key_set :: "string \<Rightarrow> header_value \<Rightarrow> 'k \<Rightarrow> string + 'k"
  jo_headers_set :: "string \<Rightarrow> header_value \<Rightarrow> headers \<Rightarrow> string + headers"
  jo_chain_add :: "string \<Rightarrow> string list \<Rightarrow> string + string list"
  jo_build :: "claims \<Rightarrow> string + claims"
  jo_jwt_sign :: "'sg \<Rightarrow> headers \<Rightarrow> claims \<Rightarrow> entropy \<Rightarrow> (string + string) \<times> entropy"
  jo_sign_digest :: "'sg \<Rightarrow> bytes \<Rightarrow> entropy \<Rightarrow> (string + bytes) \<times> entropy"
  jo_public_key :: "'k \<Rightarrow> string + 'k"
  jo_key_json :: "'k \<Rightarrow> string + string"
  jo_set_json :: "'k \<Rightarrow> string + string"
  jo_ec_point :: "'k \<Rightarrow> (bytes option \<times> bytes option) option"
  jo_type_name :: "'k \<Rightarrow> string"

section \<open>The signing key\<close>

record ('k, 'sg) signing_key =
  sk_kid :: string
  sk_signer :: 'sg
  sk_public :: 'k
  sk_x5cChain :: "bytes list"

fun add_certs :: "('k, 'sg) jose_out \<Rightarrow> bytes list \<Rightarrow> string list \<Rightarrow> string list result" where
  "add_certs L [] chain = Ok chain"
| "add_certs L (der # ders) chain =
     then_ok (of_sum Plain (jo_chain_add L (b64std der) chain)) (add_certs L ders)"

definition BuildX5CChain :: "('k, 'sg) jose_out \<Rightarrow> bytes list \<Rightarrow> string list result" where
  "BuildX5CChain L certChainDER = add_certs L certChainDER []"

definition buildPublicJWK ::
  "('k, 'sg) jose_out \<Rightarrow> 'sg \<Rightarrow> bytes list \<Rightarrow> ('k \<times> string \<times> bytes list) result" where
  "buildPublicJWK L signer certChainDER =
     then_ok (of_sum Plain (jo_public_of L signer)) (\<lambda>pub.
     then_ok (of_sum Plain (jo_thumbprint L pub)) (\<lambda>thumbprint.
     let kid = b64url thumbprint in
     then_ok (of_sum Plain (jo_key_set L ''kid'' (HStr kid) pub)) (\<lambda>pub.
     then_ok (of_sum Plain (jo_key_set L ''alg'' (HStr ''ES256'') pub)) (\<lambda>pub.
     then_ok (of_sum Plain (jo_key_set L ''use'' (HStr ''sig'') pub)) (\<lambda>pub.
     if certChainDER \<noteq> [] then
       then_ok (BuildX5CChain L certChainDER) (\<lambda>chain.
       then_ok (of_sum Plain (jo_key_set L ''x5c'' (HChain chain) pub)) (\<lambda>pub.
       Ok (pub, kid, certChainDER)))
     else Ok (pub, kid, certChainDER))))))"

definition NewRemote ::
  "('k, 'sg) jose_out \<Rightarrow> 'sg \<Rightarrow> bytes list \<Rightarrow> ('k, 'sg) signing_key result" where
  "NewRemote L signer certChainDER =
     then_ok (buildPublicJWK L signer certChainDER) (\<lambda>(pub, kid, chain).
     Ok \<lparr>sk_kid = kid, sk_signer = signer, sk_public = pub, sk_x5cChain = chain\<rparr>)"

definition JWKSetJSON :: "('k, 'sg) jose_out \<Rightarrow> ('k, 'sg) signing_key \<Rightarrow> string result" where
  "JWKSetJSON L k = of_sum Plain (jo_set_json L (sk_public k))"

text \<open>
  The protected headers of everything the issuer signs as a JWT: the type, the key id and, where
  there is a chain, the certificates.
\<close>

definition jwt_headers ::
  "('k, 'sg) jose_out \<Rightarrow> string \<Rightarrow> string \<Rightarrow> bytes list \<Rightarrow> headers result" where
  "jwt_headers L typ kid x5c =
     then_ok (of_sum Plain (jo_headers_set L ''typ'' (HStr typ) [])) (\<lambda>h.
     then_ok (of_sum Plain (jo_headers_set L ''kid'' (HStr kid) h)) (\<lambda>h.
     if x5c \<noteq> [] then
       then_ok (BuildX5CChain L x5c) (\<lambda>chain. of_sum Plain (jo_headers_set L ''x5c'' (HChain chain) h))
     else Ok h))"

section \<open>Facts\<close>

text \<open>What the issuer relies on of the library: setting a member succeeds and a certificate of its own
  chain is well-formed.\<close>

definition jose_accepts :: "('k, 'sg) jose_out \<Rightarrow> bool" where
  "jose_accepts L \<longleftrightarrow> (\<forall>n v h. jo_headers_set L n v h = Inr (h @ [(n, v)])) \<and>
     (\<forall>s c. jo_chain_add L s c = Inr (c @ [s]))"

lemma add_certs_accepts:
  "jose_accepts L \<Longrightarrow> add_certs L ders chain = Ok (chain @ map b64std ders)"
  by (induction ders arbitrary: chain) (auto simp: jose_accepts_def)

lemma jwt_headers_accepts:
  "jose_accepts L \<Longrightarrow> jwt_headers L typ kid x5c =
     Ok ([(''typ'', HStr typ), (''kid'', HStr kid)] @
         (if x5c = [] then [] else [(''x5c'', HChain (map b64std x5c))]))"
  by (simp add: jwt_headers_def BuildX5CChain_def add_certs_accepts) (simp add: jose_accepts_def)

lemma add_certs_no_panic: "add_certs L ders chain \<noteq> Panic p"
proof (induction ders arbitrary: chain)
  case (Cons a ders)
  then show ?case by (cases "jo_chain_add L (b64std a) chain") auto
qed simp

lemma jwt_headers_no_panic: "jwt_headers L typ kid x5c \<noteq> Panic p"
  unfolding jwt_headers_def BuildX5CChain_def
  by (auto simp: then_ok_Panic_iff add_certs_no_panic)

text \<open>The key id is the base64url thumbprint of the signer's public key.\<close>

lemma NewRemote_kid:
  assumes "NewRemote L signer chain = Ok k"
  shows "\<exists>pub t. jo_public_of L signer = Inr pub \<and> jo_thumbprint L pub = Inr t \<and> sk_kid k = b64url t \<and>
    sk_signer k = signer \<and> sk_x5cChain k = chain"
  using assms by (auto simp: NewRemote_def buildPublicJWK_def go_outcome Let_def split: if_splits)

section \<open>A concrete library\<close>

text \<open>Keys are strings, every call succeeds and a signature is a fixed text: for the witnesses.\<close>

definition plain_jose_out :: "(string, string) jose_out" where
  "plain_jose_out =
     \<lparr>jo_public_of = Inr, jo_thumbprint = (\<lambda>k. Inr (bytes_of k)), jo_key_set = (\<lambda>n v k. Inr k),
      jo_headers_set = (\<lambda>n v h. Inr (h @ [(n, v)])), jo_chain_add = (\<lambda>s c. Inr (c @ [s])),
      jo_build = Inr, jo_jwt_sign = (\<lambda>sg h c r. (Inr ''h.p.s'', r)),
      jo_sign_digest = (\<lambda>sg d r. (Inr [0x30, 6, 2, 1, 1, 2, 1, 2], r)), jo_public_key = Inr,
      jo_key_json = (\<lambda>k. Inr ''{}''), jo_set_json = (\<lambda>k. Inr ''{}''),
      jo_ec_point = (\<lambda>k. Some (Some [1], Some [2])), jo_type_name = (\<lambda>k. ''key'')\<rparr>"

definition plain_key :: "(string, string) signing_key" where
  "plain_key = \<lparr>sk_kid = ''kid'', sk_signer = ''sk'', sk_public = ''pk'', sk_x5cChain = []\<rparr>"

lemma plain_jose_out_accepts: "jose_accepts plain_jose_out"
  by (simp add: jose_accepts_def plain_jose_out_def)

end
