(* ===== verification/Status_List.thy ===== *)
theory Status_List
  imports Signing Records
begin

text \<open>
  \<open>internal/statuslist\<close>: the bit string of the IETF Token Status List, its encoding and the signed
  token. The DEFLATE compressor is the parameter \<open>zlib\<close> with its inverse; the map of entries is
  visited in the order \<open>it\<close>. \<open>slot\<close> reads an entry back the way a relying party does, and is the
  specification the packing is proved against.
\<close>

section \<open>The bit string\<close>

definition Bits :: int where "Bits = 2"

text \<open>\<open>out[byteIndex] |= (status \& 3) << bitOffset\<close>; an index out of range panics.\<close>

definition set_slot :: "int \<Rightarrow> byte \<Rightarrow> bytes \<Rightarrow> bytes result" where
  "set_slot idx status out =
     (let byteIndex = go_div (i64 (idx * Bits)) 8;
          bitOffset = nat (go_mod (i64 (idx * Bits)) 8)
      in if 0 \<le> byteIndex \<and> byteIndex < int (length out)
         then Ok (out[nat byteIndex := out ! nat byteIndex OR push_bit bitOffset (status AND (push_bit (nat Bits) 1 - 1))])
         else Panic ''index out of range'')"

fun pack_entries :: "int \<Rightarrow> (int \<times> byte) list \<Rightarrow> bytes \<Rightarrow> bytes result" where
  "pack_entries sz [] out = Ok out"
| "pack_entries sz ((idx, status) # es) out =
     (if idx < 0 \<or> idx \<ge> sz then pack_entries sz es out
      else then_ok (set_slot idx status out) (pack_entries sz es))"

definition packBitstring ::
  "(int \<times> byte) iteration \<Rightarrow> (int, byte) gomap \<Rightarrow> int \<Rightarrow> bytes result" where
  "packBitstring it entries size0 =
     (let sz = (if size0 < 0 then 0 else size0);
          numBytes = go_div (i64 (i64 (sz * Bits) + 7)) 8
      in if numBytes < 0 then Panic ''makeslice: len out of range''
         else pack_entries sz (it entries) (replicate (nat numBytes) 0))"

section \<open>The token\<close>

record zlib =
  deflate_best :: "bytes \<Rightarrow> bytes"
  inflate :: "bytes \<Rightarrow> bytes option"

definition compressAndEncode :: "zlib \<Rightarrow> bytes \<Rightarrow> string" where
  "compressAndEncode Z raw = b64url (deflate_best Z raw)"

definition ttlSeconds :: int where "ttlSeconds = 3600"
definition validitySeconds :: int where "validitySeconds = 86400"

definition status_claims :: "string \<Rightarrow> instant \<Rightarrow> string \<Rightarrow> claims" where
  "status_claims listURI now lst =
     [(''sub'', CAny (VStr listURI)), (''iat'', CTime now),
      (''exp'', CTime (now + validitySeconds * second)), (''ttl'', CAny (VInt ttlSeconds)),
      (''status_list'', CAny (VMap [(''bits'', VInt Bits), (''lst'', VStr lst)]))]"

definition Build_status_list ::
  "('k, 'sg) jose_out \<Rightarrow> zlib \<Rightarrow> (int \<times> byte) iteration \<Rightarrow> (int, byte) gomap \<Rightarrow> int \<Rightarrow> string \<Rightarrow>
   ('k, 'sg) signing_key \<Rightarrow> world \<Rightarrow> string result \<times> world" where
  "Build_status_list L Z it entries sz listURI key w0 =
     st_then (packBitstring it entries sz, w0) (\<lambda>raw w.
     let lst = compressAndEncode Z raw; (now, w) = time_Now w in
     st_then (of_sum (\<lambda>e. Plain (''statuslist: building claims: '' @ e))
                (jo_build L (status_claims listURI now lst)), w) (\<lambda>token w.
     st_then (jwt_headers L ''statuslist+jwt'' (sk_kid key) (sk_x5cChain key), w) (\<lambda>hdrs w.
     let (res, r) = jo_jwt_sign L (sk_signer key) hdrs token (w_rand w) in
     (of_sum (\<lambda>e. Plain (''statuslist: signing: '' @ e)) res, w\<lparr>w_rand := r\<rparr>))))"

section \<open>Reading a slot back\<close>

definition slot :: "bytes \<Rightarrow> int \<Rightarrow> byte" where
  "slot raw i = drop_bit (nat (i * 2 mod 8)) (raw ! nat (i * 2 div 8)) AND 3"

definition slot_of :: "(int, byte) gomap \<Rightarrow> int \<Rightarrow> byte" where
  "slot_of m i = (case gm_get m i of Some v \<Rightarrow> v AND 3 | None \<Rightarrow> 0)"

lemma mask_value: "push_bit (nat Bits) 1 - 1 = (3 :: byte)"
  by (simp add: Bits_def)

lemma three_mask: "(3 :: byte) = mask 2"
  by (simp add: mask_eq_exp_minus_1)

lemma slot_or_same:
  fixes x v :: byte
  assumes "n \<in> {0, 2, 4, 6}"
  shows "drop_bit n (x OR push_bit n (v AND 3)) AND 3 = (drop_bit n x OR v) AND 3"
  using assms unfolding three_mask
  by (intro bit_eqI) (auto simp: bit_simps)

lemma slot_or_other:
  fixes x v :: byte
  assumes "n \<in> {0, 2, 4, 6}" and "k \<in> {0, 2, 4, 6}" and "n \<noteq> k"
  shows "drop_bit k (x OR push_bit n (v AND 3)) AND 3 = drop_bit k x AND 3"
  using assms unfolding three_mask
  by (intro bit_eqI) (auto simp: bit_simps)

lemma offset_cases: "nat (i * 2 mod 8) \<in> {0, 2, 4, 6}"
proof -
  have "i * 2 mod 8 = 0 \<or> i * 2 mod 8 = 2 \<or> i * 2 mod 8 = 4 \<or> i * 2 mod 8 = (6 :: int)" by presburger
  then show ?thesis by auto
qed

lemma same_place:
  "i * 2 div 8 = j * 2 div 8 \<Longrightarrow> i * 2 mod 8 = j * 2 mod 8 \<Longrightarrow> i = (j :: int)"
  by presburger

text \<open>The sizes for which no 64-bit computation of the packing wraps.\<close>

definition list_size_ok :: "int \<Rightarrow> bool" where
  "list_size_ok sz \<longleftrightarrow> sz < 2 ^ 61"

lemma set_slot_Ok:
  assumes "0 \<le> idx" and "idx < sz" and "list_size_ok sz"
    and "length out = nat ((sz * 2 + 7) div 8)"
  shows "\<exists>out'. set_slot idx v out = Ok out' \<and> length out' = length out \<and>
    (\<forall>j. 0 \<le> j \<and> j < sz \<longrightarrow>
       slot out' j = (if j = idx then slot out j OR (v AND 3) else slot out j))"
proof -
  have id2: "i64 (idx * Bits) = idx * 2"
    using assms(1-3) by (simp add: Bits_def in_i64_def list_size_ok_def)
  let ?b = "nat (idx * 2 div 8)" and ?n = "nat (idx * 2 mod 8)"
  have b: "?b < length out" using assms by (simp add: nat_less_iff) presburger
  have eq: "set_slot idx v out = Ok (out[?b := out ! ?b OR push_bit ?n (v AND 3)])"
    using assms(1) b unfolding set_slot_def id2 Let_def mask_value
    by (simp add: go_div_nonneg go_mod_nonneg nat_less_iff)
  have "slot (out[?b := out ! ?b OR push_bit ?n (v AND 3)]) j =
      (if j = idx then slot out j OR (v AND 3) else slot out j)" if "0 \<le> j" "j < sz" for j
  proof (cases "nat (j * 2 div 8) = ?b")
    case False
    then have "j \<noteq> idx" by auto
    with False show ?thesis by (simp add: slot_def)
  next
    case True
    show ?thesis
    proof (cases "j = idx")
      case True
      then show ?thesis
        using b slot_or_same [OF offset_cases, of idx "out ! ?b" v]
        by (simp add: slot_def and.left_commute bit.conj_disj_distrib2)
    next
      case False
      have "0 \<le> j * 2 div 8" "0 \<le> idx * 2 div 8" using that(1) assms(1) by presburger+
      with True have d: "j * 2 div 8 = idx * 2 div 8" using eq_nat_nat_iff by blast
      with False same_place [of j idx] have "j * 2 mod 8 \<noteq> idx * 2 mod 8" by blast
      then have "?n \<noteq> nat (j * 2 mod 8)" by (simp add: nat_eq_iff)
      then show ?thesis
        using False True b slot_or_other [OF offset_cases [of idx] offset_cases [of j], of "out ! ?b" v]
        by (simp add: slot_def)
    qed
  qed
  with eq show ?thesis by auto
qed

lemma pack_entries_Ok:
  assumes "list_size_ok sz" and "distinct (map fst es)" and "length out = nat ((sz * 2 + 7) div 8)"
    and "\<And>i. i \<in> fst ` set es \<Longrightarrow> 0 \<le> i \<Longrightarrow> i < sz \<Longrightarrow> slot out i = 0"
  shows "\<exists>out'. pack_entries sz es out = Ok out' \<and> length out' = length out \<and>
    (\<forall>j. 0 \<le> j \<and> j < sz \<longrightarrow>
       slot out' j = (case map_of es j of Some v \<Rightarrow> v AND 3 | None \<Rightarrow> slot out j))"
  using assms(2-4)
proof (induction es arbitrary: out)
  case (Cons e es)
  obtain idx v where e: "e = (idx, v)" by fastforce
  show ?case
  proof (cases "idx < 0 \<or> idx \<ge> sz")
    case True
    have "\<exists>out'. pack_entries sz es out = Ok out' \<and> length out' = length out \<and>
      (\<forall>j. 0 \<le> j \<and> j < sz \<longrightarrow>
         slot out' j = (case map_of es j of Some v \<Rightarrow> v AND 3 | None \<Rightarrow> slot out j))"
      using Cons.prems by (intro Cons.IH) auto
    with True show ?thesis by (auto simp: e)
  next
    case False
    then obtain out1 where s1: "set_slot idx v out = Ok out1" "length out1 = length out"
      and sl: "\<And>j. 0 \<le> j \<Longrightarrow> j < sz \<Longrightarrow>
        slot out1 j = (if j = idx then slot out j OR (v AND 3) else slot out j)"
      using set_slot_Ok [of idx sz out v] assms(1) Cons.prems(2) by auto
    have notin: "idx \<notin> fst ` set es" using Cons.prems(1) by (auto simp: e)
    have "\<exists>out'. pack_entries sz es out1 = Ok out' \<and> length out' = length out1 \<and>
      (\<forall>j. 0 \<le> j \<and> j < sz \<longrightarrow>
         slot out' j = (case map_of es j of Some v \<Rightarrow> v AND 3 | None \<Rightarrow> slot out1 j))"
    proof (rule Cons.IH)
      show "slot out1 i = 0" if "i \<in> fst ` set es" "0 \<le> i" "i < sz" for i
        using that notin Cons.prems(3) [of i] by (auto simp: sl e)
    qed (use Cons.prems s1 in \<open>auto simp: e\<close>)
    then obtain out2 where o2: "pack_entries sz es out1 = Ok out2" "length out2 = length out"
      and sl2: "\<And>j. 0 \<le> j \<Longrightarrow> j < sz \<Longrightarrow>
        slot out2 j = (case map_of es j of Some v \<Rightarrow> v AND 3 | None \<Rightarrow> slot out1 j)"
      using s1(2) by auto
    have "slot out idx = 0" using Cons.prems(3) [of idx] False by (auto simp: e)
    moreover have "map_of es idx = None" using notin by (simp add: map_of_eq_None_iff)
    ultimately have "slot out2 j = (case map_of (e # es) j of Some v \<Rightarrow> v AND 3 | None \<Rightarrow> slot out j)"
      if "0 \<le> j" "j < sz" for j
      using that sl2 [OF that] sl [OF that] by (auto simp: e split: option.splits)
    with False s1 o2 show ?thesis by (auto simp: e)
  qed
qed simp

lemma slot_zero: "0 \<le> i \<Longrightarrow> i * 2 div 8 < int n \<Longrightarrow> slot (replicate n 0) i = 0"
  by (simp add: slot_def nat_less_iff)

section \<open>What a token says\<close>

text \<open>A relying party decodes \<open>lst\<close>, inflates it and reads the slot of its credential.\<close>

definition zlib_ok :: "zlib \<Rightarrow> bool" where
  "zlib_ok Z \<longleftrightarrow> (\<forall>raw. inflate Z (deflate_best Z raw) = Some raw)"

definition lst_status :: "zlib \<Rightarrow> string \<Rightarrow> int \<Rightarrow> byte option" where
  "lst_status Z lst i = map_option (\<lambda>raw. slot raw i) (inflate Z (b64url_decode lst))"

lemma lst_status_encode: "zlib_ok Z \<Longrightarrow> lst_status Z (compressAndEncode Z raw) i = Some (slot raw i)"
  by (simp add: lst_status_def compressAndEncode_def zlib_ok_def)

text \<open>
  \<open>published \<dots> tok i v\<close>: the token is the issuer's signature over the claims of a status list at this
  URI in which a relying party reads \<open>v\<close> at index \<open>i\<close>.
\<close>

definition published ::
  "('k, 'sg) jose_out \<Rightarrow> zlib \<Rightarrow> ('k, 'sg) signing_key \<Rightarrow> string \<Rightarrow> string \<Rightarrow> int \<Rightarrow> byte \<Rightarrow> bool" where
  "published L Z key uri tok i v \<longleftrightarrow>
     (\<exists>now lst c h r r'. jo_build L (status_claims uri now lst) = Inr c \<and>
        jwt_headers L ''statuslist+jwt'' (sk_kid key) (sk_x5cChain key) = Ok h \<and>
        jo_jwt_sign L (sk_signer key) h c r = (Inr tok, r') \<and> lst_status Z lst i = Some v)"

lemma packBitstring_Ok:
  assumes "iterates it" and "gm_wf m" and "0 \<le> sz" and "list_size_ok sz"
  obtains raw where "packBitstring it m sz = Ok raw" "int (length raw) = (sz * 2 + 7) div 8"
    "\<And>i. 0 \<le> i \<Longrightarrow> i < sz \<Longrightarrow> slot raw i = slot_of m i"
proof -
  let ?out = "replicate (nat ((sz * 2 + 7) div 8)) 0 :: bytes"
  have n: "i64 (i64 (sz * Bits) + 7) = sz * 2 + 7"
    using assms(3,4) by (simp add: Bits_def in_i64_def list_size_ok_def)
  have pos: "0 \<le> (sz * 2 + 7) div 8" using assms(3) by presburger
  have pb: "packBitstring it m sz = pack_entries sz (it m) ?out"
    using assms(3) pos by (simp add: packBitstring_def n go_div_nonneg)
  have wf: "distinct (map fst (it m))"
  proof -
    have "mset (map fst (it m)) = mset (map fst m)"
      using assms(1) by (simp add: iterates_def)
    then show ?thesis using assms(2) mset_eq_imp_distinct_iff gm_wf_def by metis
  qed
  have z: "slot ?out i = 0" if "0 \<le> i" "i < sz" for i
    by (rule slot_zero [OF that(1)]) (use that pos in \<open>simp; presburger\<close>)
  obtain raw where raw: "pack_entries sz (it m) ?out = Ok raw" "length raw = length ?out"
    "\<And>j. 0 \<le> j \<Longrightarrow> j < sz \<Longrightarrow> slot raw j = (case map_of (it m) j of Some v \<Rightarrow> v AND 3 | None \<Rightarrow> slot ?out j)"
    using pack_entries_Ok [OF assms(4) wf, of ?out] z by auto
  have same: "map_of (it m) = map_of m"
    using wf assms(1,2) map_of_eqI iterates_set [OF assms(1), of m]
    by (metis gm_wf_def map_of_inject_set)
  have "slot raw i = slot_of m i" if "0 \<le> i" "i < sz" for i
    using raw(3) [OF that] z [OF that] by (simp add: same slot_of_def split: option.splits)
  with raw pb pos show thesis by (intro that [of raw]) simp_all
qed

lemma Build_status_list_published:
  assumes "iterates it" and "gm_wf m" and "0 \<le> sz" and "list_size_ok sz" and "zlib_ok Z"
    and "Build_status_list L Z it m sz uri key w = (Ok tok, w')" and "0 \<le> i" and "i < sz"
  shows "published L Z key uri tok i (slot_of m i)"
proof -
  obtain raw where raw: "packBitstring it m sz = Ok raw" "slot raw i = slot_of m i"
    using packBitstring_Ok [OF assms(1-4)] assms(7,8) by metis
  from assms(6) obtain now c h r r' where
    "jo_build L (status_claims uri now (compressAndEncode Z raw)) = Inr c"
    "jwt_headers L ''statuslist+jwt'' (sk_kid key) (sk_x5cChain key) = Ok h"
    "jo_jwt_sign L (sk_signer key) h c r = (Inr tok, r')"
    by (auto simp: Build_status_list_def raw Let_def st_then_Ok_iff of_sum_Ok_iff split: prod.split_asm) (metis surj_pair)
  then show ?thesis
    unfolding published_def using lst_status_encode [OF assms(5), of raw i] raw(2) by metis
qed

lemma Build_status_list_no_panic:
  assumes "iterates it" and "gm_wf m" and "0 \<le> sz" and "list_size_ok sz"
  shows "fst (Build_status_list L Z it m sz uri key w) \<noteq> Panic p"
proof -
  obtain raw where "packBitstring it m sz = Ok raw"
    using packBitstring_Ok [OF assms] by metis
  then show ?thesis
    unfolding Build_status_list_def Let_def split_beta
    by (intro st_then_no_panic) (simp_all add: jwt_headers_no_panic)
qed

section \<open>Properties\<close>

text \<open>C28 (roundtrip): the packed bit string has two bits per index, rounded up to a whole byte, and
  reading slot \<open>i\<close> back gives the low two bits of entry \<open>i\<close>, or VALID where there is no entry, whatever
  order Go visits the map in. The packing never panics for any list size below \<open>2 ^ 61\<close>.\<close>

theorem packed_slots:
  assumes "iterates it" and "gm_wf m" and "0 \<le> sz" and "list_size_ok sz"
  shows "\<exists>raw. packBitstring it m sz = Ok raw \<and> int (length raw) = (sz * 2 + 7) div 8 \<and>
    (\<forall>i. 0 \<le> i \<and> i < sz \<longrightarrow> slot raw i = slot_of m i)"
  using packBitstring_Ok [OF assms] by metis

theorem packed_slots_witness:
  "\<exists>raw. packBitstring rev [(2, 1), (0, 2), (7, 1)] 5 = Ok raw \<and> length raw = 2 \<and>
     slot raw 0 = 2 \<and> slot raw 1 = 0 \<and> slot raw 2 = 1"
proof -
  have "\<exists>raw. packBitstring rev [(2, 1), (0, 2), (7, 1)] 5 = Ok raw \<and>
      int (length raw) = (5 * 2 + 7) div 8 \<and>
      (\<forall>i. 0 \<le> i \<and> i < 5 \<longrightarrow> slot raw i = slot_of [(2, 1), (0, 2), (7, 1)] i)"
    by (rule packed_slots) (simp_all add: gm_wf_def list_size_ok_def)
  then obtain raw where "packBitstring rev [(2, 1), (0, 2), (7, 1)] 5 = Ok raw" "length raw = 2"
    "\<And>i. 0 \<le> i \<Longrightarrow> i < 5 \<Longrightarrow> slot raw i = slot_of [(2, 1), (0, 2), (7, 1)] i"
    by auto
  then show ?thesis by (intro exI [of _ raw]) (simp add: slot_of_def)
qed

end
