(* ===== verification/Json_Facts.thy ===== *)
theory Json_Facts
  imports Go_Json
begin

text \<open>
  Printing and reading back: a string literal written by \<open>json.Marshal\<close> is read by a JSON parser as
  the same string, with every byte that is not part of a valid UTF-8 encoding replaced by U+FFFD
  (\<open>clean\<close>). An array of strings is read back element by element.
\<close>

fun clean :: "string \<Rightarrow> string" where
  "clean [] = []"
| "clean (c # s) =
     (if cn c < 0x80 then c # clean s
      else if utf8_width (c # s) = 0 then replacement @ clean s
      else take (utf8_width (c # s)) (c # s) @ clean (drop (utf8_width (c # s) - 1) s))"

definition plain_ascii :: "string \<Rightarrow> bool" where
  "plain_ascii s = list_all (\<lambda>c. cn c < 0x80) s"

lemma clean_ascii [simp]: "plain_ascii s \<Longrightarrow> clean s = s"
  by (induction s) (auto simp: plain_ascii_def)

text \<open>The first rune decides the width, whatever follows it.\<close>

lemma utf8_width_le: "utf8_width s \<le> length s"
  by (induction s rule: utf8_width.induct) (auto split: list.splits)

lemma utf8_width_append:
  "utf8_width (c # s) = w \<Longrightarrow> w \<noteq> 0 \<Longrightarrow> utf8_width (take w (c # s) @ t) = w"
  by (auto split: list.splits if_splits)

lemma utf8_tail_high:
  "utf8_width (c # s) = w \<Longrightarrow> \<not> cn c < 0x80 \<Longrightarrow> x \<in> set (take (w - 1) s) \<Longrightarrow> 0x80 \<le> cn x"
  by (auto simp: cont_byte_def split: list.splits if_splits)

lemma string_body_high:
  assumes "\<not> cn c < 0x80" and "utf8_width (c # s) = w" and "w \<noteq> 0"
  shows "string_body (take w (c # s) @ t) =
    map_option (\<lambda>(v, r). (take w (c # s) @ v, r)) (string_body t)"
proof -
  obtain k where w: "w = Suc k" using assms(3) by (cases w) auto
  have wid: "utf8_width (c # (take k s @ t)) = Suc k"
    using utf8_width_append [OF assms(2,3), of t] by (simp add: w)
  have len: "k \<le> length s" using utf8_width_le [of "c # s"] assms(2) w by simp
  have ne: "c \<noteq> CHR 0x22" "c \<noteq> CHR 0x5C" "\<not> cn c < 0x20" using assms(1) by auto
  have drp: "drop k (take k s @ t) = t" using len by simp
  have tk: "take (Suc k) (c # take k s @ t) = c # take k s" using len by simp
  show ?thesis
    unfolding w take_Suc_Cons append_Cons
    by (subst string_body.simps) (use ne assms(1) wid drp tk len in \<open>simp del: utf8_width.simps add: min_absorb2\<close>)
qed

lemma hex_val_lower: "n < 16 \<Longrightarrow> hex_val (hex_lower n) = Some n"
proof -
  have "\<forall>n \<in> set [0..<16]. hex_val (hex_lower n) = Some n" by code_simp
  then show "n < 16 \<Longrightarrow> ?thesis" by simp
qed

lemma string_body_ascii:
  assumes "cn c < 0x80"
  shows "string_body (quote_ascii c @ t) = map_option (\<lambda>(v, r). (c # v, r)) (string_body t)"
proof (cases "c \<in> {CHR 0x5C, CHR 0x22, CHR 0x08, CHR 0x0C, CHR 0x0A, CHR 0x0D, CHR 0x09}")
  case True
  then show ?thesis
    by (elim insertE emptyE) (simp_all add: quote_ascii_def string_body.simps simple_escape_def)
next
  case False
  show ?thesis
  proof (cases "cn c < 0x20 \<or> c \<in> set ''<>&''")
    case True
    have q: "quote_ascii c = CHR 0x5C # ''u00'' @ [hex_lower (cn c div 16), hex_lower (cn c mod 16)]"
      using True False by (simp add: quote_ascii_def)
    have h: "hex_val (hex_lower (cn c div 16)) = Some (cn c div 16)"
      "hex_val (hex_lower (cn c mod 16)) = Some (cn c mod 16)" "hex_val CHR ''0'' = Some 0"
      using assms by (simp_all add: hex_val_lower) (simp add: hex_val_def)
    have "u_escape (CHR ''0'' # CHR ''0'' # hex_lower (cn c div 16) # hex_lower (cn c mod 16) # t) = Some ([c], t)"
      using assms by (simp add: u_escape_def h is_surrogate_def utf8_encode_def)
    then show ?thesis by (simp add: q string_body.simps)
  next
    case False': False
    have "c \<noteq> CHR 0x5C" "c \<noteq> CHR 0x22" "\<not> cn c < 0x20" using False False' by auto
    moreover have "quote_ascii c = [c]" using False False' by (simp add: quote_ascii_def)
    ultimately show ?thesis using assms by (simp add: string_body.simps)
  qed
qed

lemma char_of_bytes:
  "char_of (239 :: nat) = CHR 0xEF" "char_of (191 :: nat) = CHR 0xBF" "char_of (189 :: nat) = CHR 0xBD"
  "char_of (226 :: nat) = CHR 0xE2" "char_of (128 :: nat) = CHR 0x80" "char_of (168 :: nat) = CHR 0xA8"
  "char_of (169 :: nat) = CHR 0xA9"
  by code_simp+

lemma string_body_escapes:
  "string_body (CHR 0x5C # ''ufffd'' @ t) = map_option (\<lambda>(v, r). (replacement @ v, r)) (string_body t)"
  "string_body (CHR 0x5C # ''u2028'' @ t) =
     map_option (\<lambda>(v, r). ([CHR 0xE2, CHR 0x80, CHR 0xA8] @ v, r)) (string_body t)"
  "string_body (CHR 0x5C # ''u2029'' @ t) =
     map_option (\<lambda>(v, r). ([CHR 0xE2, CHR 0x80, CHR 0xA9] @ v, r)) (string_body t)"
  by (simp_all add: string_body.simps u_escape_def hex_val_def is_surrogate_def utf8_encode_def replacement_def
      char_of_bytes)

lemma line_separator_width:
  "take 3 (c # s) = [CHR 0xE2, CHR 0x80, x] \<Longrightarrow> x = CHR 0xA8 \<or> x = CHR 0xA9 \<Longrightarrow>
   utf8_width (c # s) = 3 \<and> c # s = [CHR 0xE2, CHR 0x80, x] @ drop 2 s"
  by (cases s; cases "tl s") (auto simp: cont_byte_def)

theorem string_body_quote:
  "string_body (quote_chars s @ CHR 0x22 # rest) = Some (clean s, rest)"
proof (induction s rule: quote_chars.induct)
  case 1
  then show ?case by (simp add: string_body.simps)
next
  case (2 c s)
  show ?case
  proof (cases "cn c < 0x80")
    case True
    with 2 show ?thesis by (simp add: string_body_ascii)
  next
    case high: False
    show ?thesis
    proof (cases "utf8_width (c # s) = 0")
      case True
      with 2 high show ?thesis
        using string_body_escapes(1) [of "quote_chars s @ CHR 0x22 # rest"]
        by (simp del: utf8_width.simps)
    next
      case w: False
      consider (a) "take 3 (c # s) = [CHR 0xE2, CHR 0x80, CHR 0xA8]"
        | (b) "take 3 (c # s) = [CHR 0xE2, CHR 0x80, CHR 0xA9]"
        | (n) "take 3 (c # s) \<noteq> [CHR 0xE2, CHR 0x80, CHR 0xA8]" "take 3 (c # s) \<noteq> [CHR 0xE2, CHR 0x80, CHR 0xA9]"
        by blast
      then show ?thesis
      proof cases
        case a
        from line_separator_width [OF a] have w3: "utf8_width (c # s) = 3" by blast
        have q: "quote_chars (c # s) = CHR 0x5C # ''u2028'' @ quote_chars (drop 2 s)"
          using a high w by (simp del: utf8_width.simps)
        have cl: "clean (c # s) = take 3 (c # s) @ clean (drop 2 s)"
          using w3 high by (simp del: utf8_width.simps)
        have ih: "string_body (quote_chars (drop 2 s) @ CHR 0x22 # rest) = Some (clean (drop 2 s), rest)"
          using 2 a high w by (simp del: utf8_width.simps)
        show ?thesis
          unfolding q cl a using string_body_escapes(2) [of "quote_chars (drop 2 s) @ CHR 0x22 # rest"] ih
          by simp
      next
        case b
        from line_separator_width [OF b] have w3: "utf8_width (c # s) = 3" by blast
        have q: "quote_chars (c # s) = CHR 0x5C # ''u2029'' @ quote_chars (drop 2 s)"
          using b high w by (simp del: utf8_width.simps)
        have cl: "clean (c # s) = take 3 (c # s) @ clean (drop 2 s)"
          using w3 high by (simp del: utf8_width.simps)
        have ih: "string_body (quote_chars (drop 2 s) @ CHR 0x22 # rest) = Some (clean (drop 2 s), rest)"
          using 2 b high w by (simp del: utf8_width.simps)
        show ?thesis
          unfolding q cl b using string_body_escapes(3) [of "quote_chars (drop 2 s) @ CHR 0x22 # rest"] ih
          by simp
      next
        case n
        with 2 high w
        have ih: "string_body (quote_chars (drop (utf8_width (c # s) - 1) s) @ CHR 0x22 # rest) =
          Some (clean (drop (utf8_width (c # s) - 1) s), rest)" by (simp del: utf8_width.simps)
        have q: "quote_chars (c # s) =
          take (utf8_width (c # s)) (c # s) @ quote_chars (drop (utf8_width (c # s) - 1) s)"
          by (simp only: quote_chars.simps high w n if_False)
        have cl: "clean (c # s) =
          take (utf8_width (c # s)) (c # s) @ clean (drop (utf8_width (c # s) - 1) s)"
          using high w by (simp del: utf8_width.simps)
        show ?thesis
          unfolding q cl append_assoc string_body_high [OF high refl w] ih by simp
      qed
    qed
  qed
qed

lemma p_value_quote:
  "p_value (Suc n) d (quote s @ rest) = Some (JStr (clean s), rest)"
  by (simp add: quote_def string_body_quote)

lemma skip_ws_cons [simp]: "\<not> is_ws c \<Longrightarrow> skip_ws (c # s) = c # s"
  by (simp add: skip_ws_def)

text \<open>The array of strings that a disclosure is.\<close>

fun quoted_elems :: "string list \<Rightarrow> string" where
  "quoted_elems [] = []"
| "quoted_elems [x] = quote x"
| "quoted_elems (x # xs) = quote x @ '','' @ quoted_elems xs"

lemma quote_head: "quote s = CHR 0x22 # quote_chars s @ [CHR 0x22]"
  by (simp add: quote_def)

lemma quoted_elems_head: "xs \<noteq> [] \<Longrightarrow> \<exists>t. quoted_elems xs = CHR 0x22 # t"
  by (induction xs rule: quoted_elems.induct) (simp_all add: quote_def)

lemma p_elems_quoted:
  "xs \<noteq> [] \<Longrightarrow> length xs < n \<Longrightarrow>
   p_elems (Suc n) d (quoted_elems xs @ CHR '']'' # rest) = Some (map (\<lambda>x. JStr (clean x)) xs, rest)"
proof (induction xs arbitrary: n rule: quoted_elems.induct)
  case (2 x)
  then obtain m where "n = Suc m" by (cases n) auto
  then show ?case by (simp add: p_value_quote is_ws_def del: p_value.simps)
next
  case (3 x y ys)
  then obtain m where n: "n = Suc m" by (cases n) auto
  obtain t where t: "quoted_elems (y # ys) = CHR 0x22 # t" using quoted_elems_head by blast
  have ih: "p_elems (Suc m) d (quoted_elems (y # ys) @ CHR '']'' # rest) =
      Some (map (\<lambda>x. JStr (clean x)) (y # ys), rest)"
    using 3 n by simp
  have "p_elems (Suc n) d (quote x @ '','' @ quoted_elems (y # ys) @ CHR '']'' # rest) =
      map_option (\<lambda>(vs, r). (JStr (clean x) # vs, r))
        (p_elems n d (quoted_elems (y # ys) @ CHR '']'' # rest))"
    unfolding n t by (simp del: p_elems.simps(2) p_value.simps add: p_elems.simps(2) [of "Suc m"] p_value_quote is_ws_def)
  with ih n show ?case by simp
qed simp

theorem parse_string_array:
  assumes "xs \<noteq> []"
  shows "parse_document (CHR ''['' # quoted_elems xs @ '']'') = Some (JArr (map (\<lambda>x. JStr (clean x)) xs))"
proof -
  let ?s = "CHR ''['' # quoted_elems xs @ '']''"
  have len: "length xs < 2 * length ?s"
  proof -
    have "length xs \<le> length (quoted_elems xs)"
      by (induction xs rule: quoted_elems.induct) (auto simp: quote_def)
    then show ?thesis by simp
  qed
  obtain t where t: "quoted_elems xs = CHR 0x22 # t" using quoted_elems_head [OF assms] by blast
  have el: "p_elems (Suc (2 * length ?s)) 1 (quoted_elems xs @ CHR '']'' # []) =
      Some (map (\<lambda>x. JStr (clean x)) xs, [])"
    by (rule p_elems_quoted [OF assms len])
  have "p_value (Suc (Suc (2 * length ?s))) 0 ?s = Some (JArr (map (\<lambda>x. JStr (clean x)) xs), [])"
    using el unfolding p_value.simps(2) t by (simp add: is_ws_def max_depth_def)
  then show ?thesis
    by (simp add: parse_document_def is_ws_def skip_ws_def del: p_value.simps)
qed

end
