(* ===== verification/Sha256.thy ===== *)
theory Sha256
  imports Go_Std
begin

text \<open>
  SHA-256 (FIPS 180-4), as \<open>crypto/sha256.Sum256\<close> computes it: padding, the message schedule and
  the compression function on 32-bit words with wrap-around. The access-token hash, the SD-JWT
  disclosure digests, the mdoc item digests and the COSE signature input all go through it. The
  facts used elsewhere are that a digest is 32 bytes and its base64url form 43 characters.
\<close>

type_synonym w32 = "32 word"
type_synonym sha_state = "w32 \<times> w32 \<times> w32 \<times> w32 \<times> w32 \<times> w32 \<times> w32 \<times> w32"

text \<open>The round constants (the first 32 bits of the fractional parts of the cube roots of the
  first 64 primes) and the initial state (of the square roots of the first eight), in decimal.\<close>

definition sha_k :: "w32 list" where
  "sha_k =
    [1116352408, 1899447441, 3049323471, 3921009573, 961987163, 1508970993, 2453635748, 2870763221,
     3624381080, 310598401, 607225278, 1426881987, 1925078388, 2162078206, 2614888103, 3248222580,
     3835390401, 4022224774, 264347078, 604807628, 770255983, 1249150122, 1555081692, 1996064986,
     2554220882, 2821834349, 2952996808, 3210313671, 3336571891, 3584528711, 113926993, 338241895,
     666307205, 773529912, 1294757372, 1396182291, 1695183700, 1986661051, 2177026350, 2456956037,
     2730485921, 2820302411, 3259730800, 3345764771, 3516065817, 3600352804, 4094571909, 275423344,
     430227734, 506948616, 659060556, 883997877, 958139571, 1322822218, 1537002063, 1747873779,
     1955562222, 2024104815, 2227730452, 2361852424, 2428436474, 2756734187, 3204031479, 3329325298]"

definition sha_init :: sha_state where
  "sha_init =
    (1779033703, 3144134277, 1013904242, 2773480762,
     1359893119, 2600822924, 528734635, 1541459225)"

definition small_sigma0 :: "w32 \<Rightarrow> w32" where
  "small_sigma0 x = word_rotr 7 x XOR word_rotr 18 x XOR drop_bit 3 x"

definition small_sigma1 :: "w32 \<Rightarrow> w32" where
  "small_sigma1 x = word_rotr 17 x XOR word_rotr 19 x XOR drop_bit 10 x"

definition big_sigma0 :: "w32 \<Rightarrow> w32" where
  "big_sigma0 x = word_rotr 2 x XOR word_rotr 13 x XOR word_rotr 22 x"

definition big_sigma1 :: "w32 \<Rightarrow> w32" where
  "big_sigma1 x = word_rotr 6 x XOR word_rotr 11 x XOR word_rotr 25 x"

text \<open>Big-endian conversions between bytes and words.\<close>

fun be_words :: "bytes \<Rightarrow> w32 list" where
  "be_words (a # b # c # d # rest) =
     (push_bit 24 (ucast a) OR push_bit 16 (ucast b) OR push_bit 8 (ucast c) OR ucast d) # be_words rest"
| "be_words _ = []"

definition be_bytes32 :: "w32 \<Rightarrow> bytes" where
  "be_bytes32 w = [ucast (drop_bit 24 w), ucast (drop_bit 16 w), ucast (drop_bit 8 w), ucast w]"

definition be_bytes64 :: "64 word \<Rightarrow> bytes" where
  "be_bytes64 w =
     [ucast (drop_bit 56 w), ucast (drop_bit 48 w), ucast (drop_bit 40 w), ucast (drop_bit 32 w),
      ucast (drop_bit 24 w), ucast (drop_bit 16 w), ucast (drop_bit 8 w), ucast w]"

definition sha_pad :: "bytes \<Rightarrow> bytes" where
  "sha_pad m =
     (let l = length m
      in m @ 0x80 # replicate ((119 - l mod 64) mod 64) 0 @ be_bytes64 (word_of_nat (8 * l)))"

text \<open>The schedule is built newest word first, so that \<open>w (t - k)\<close> is element \<open>k - 1\<close>.\<close>

fun sha_schedule :: "nat \<Rightarrow> w32 list \<Rightarrow> w32 list" where
  "sha_schedule 0 ws = ws"
| "sha_schedule (Suc n) ws =
     sha_schedule n
       ((small_sigma1 (ws ! 1) + ws ! 6 + small_sigma0 (ws ! 14) + ws ! 15) # ws)"

fun sha_round :: "sha_state \<Rightarrow> w32 \<times> w32 \<Rightarrow> sha_state" where
  "sha_round (a, b, c, d, e, f, g, h) (k, w) =
     (let t1 = h + big_sigma1 e + ((e AND f) XOR (NOT e AND g)) + k + w;
          t2 = big_sigma0 a + ((a AND b) XOR (a AND c) XOR (b AND c))
      in (t1 + t2, a, b, c, d + t1, e, f, g))"

fun sha_add :: "sha_state \<Rightarrow> sha_state \<Rightarrow> sha_state" where
  "sha_add (a, b, c, d, e, f, g, h) (a', b', c', d', e', f', g', h') =
     (a + a', b + b', c + c', d + d', e + e', f + f', g + g', h + h')"

definition sha_block :: "sha_state \<Rightarrow> bytes \<Rightarrow> sha_state" where
  "sha_block st blk =
     sha_add st (foldl sha_round st (zip sha_k (rev (sha_schedule 48 (rev (be_words blk))))))"

fun sha_blocks :: "nat \<Rightarrow> sha_state \<Rightarrow> bytes \<Rightarrow> sha_state" where
  "sha_blocks 0 st bs = st"
| "sha_blocks (Suc n) st bs = sha_blocks n (sha_block st (take 64 bs)) (drop 64 bs)"

fun sha_out :: "sha_state \<Rightarrow> bytes" where
  "sha_out (a, b, c, d, e, f, g, h) =
     be_bytes32 a @ be_bytes32 b @ be_bytes32 c @ be_bytes32 d @
     be_bytes32 e @ be_bytes32 f @ be_bytes32 g @ be_bytes32 h"

definition sha256 :: "bytes \<Rightarrow> bytes" where
  "sha256 m = (let p = sha_pad m in sha_out (sha_blocks (length p div 64) sha_init p))"

lemma length_sha_out [simp]: "length (sha_out st) = 32"
  by (cases st rule: sha_out.cases) (simp add: be_bytes32_def Let_def)

lemma length_sha256 [simp]: "length (sha256 m) = 32"
  by (simp add: sha256_def Let_def)

lemma sha256_not_Nil [simp]: "sha256 m \<noteq> []"
  by (metis length_sha256 list.size(3) zero_neq_numeral)

text \<open>Padding fills whole 64-byte blocks.\<close>

lemma length_sha_pad: "length (sha_pad m) mod 64 = 0"
proof -
  define l where "l = length m"
  have "length (sha_pad m) = l + 9 + (119 - l mod 64) mod 64"
    by (simp add: sha_pad_def Let_def be_bytes64_def l_def)
  moreover have "(l + 9 + (119 - l mod 64) mod 64) mod 64 = (l mod 64 + 9 + (119 - l mod 64)) mod 64"
    by (metis mod_add_left_eq mod_add_right_eq)
  moreover have "l mod 64 + 9 + (119 - l mod 64) = 128"
    using mod_less_divisor [of 64 l] by arith
  ultimately show ?thesis by simp
qed

end
