(* ===== verification/Sd_Jwt.thy ===== *)
theory Sd_Jwt
  imports Json_Facts Signing Records Sha256
begin

text \<open>
  \<open>internal/sdjwt\<close>: disclosures and the SD-JWT VC builder. A builder is a record; its fluent methods
  are updates, and \<open>sd_Build\<close> assembles digests, claims and headers in the code's order. The
  properties take the relying party's side: what it gets back by splitting the credential at its
  tildes, decoding a disclosure and comparing digests.
\<close>

section \<open>JSON of Go values\<close>

fun marshal_go :: "float_ops \<Rightarrow> go_any \<Rightarrow> string option"
and marshal_go_members :: "float_ops \<Rightarrow> (string \<times> go_any) list \<Rightarrow> (string \<times> string) list option" where
  "marshal_go fo (VJson j) = marshal_any fo j"
| "marshal_go fo (VStr s) = Some (quote s)"
| "marshal_go fo (VInt n) = Some (show_int n)"
| "marshal_go fo (VStrs xs) = Some (''['' @ quoted_elems xs @ '']'')"
| "marshal_go fo (VMap ms) =
     (case marshal_go_members fo ms of
        None \<Rightarrow> None
      | Some ts \<Rightarrow>
          Some (CHR 0x7B # join_with '','' (map (\<lambda>(k, t). quote k @ '':'' @ t) (sort_key fst ts)) @ [CHR 0x7D]))"
| "marshal_go_members fo [] = Some []"
| "marshal_go_members fo ((k, x) # ms) =
     (case (marshal_go fo x, marshal_go_members fo ms) of
        (Some t, Some ts) \<Rightarrow> Some ((k, t) # ts) | _ \<Rightarrow> None)"

section \<open>Disclosures\<close>

record disclosure =
  d_Salt :: string
  d_ClaimName :: string
  d_Value :: go_any
  d_Encoded :: string

definition NewDisclosure ::
  "float_ops \<Rightarrow> string \<Rightarrow> go_any \<Rightarrow> world \<Rightarrow> disclosure result \<times> world" where
  "NewDisclosure fo claimName value w =
     (let (salt, w') = draw_token 16 w in
      (then_ok (of_option (Plain (json_error fo claimName)) (marshal_go fo value)) (\<lambda>v.
         Ok \<lparr>d_Salt = salt, d_ClaimName = claimName, d_Value = value,
             d_Encoded = b64url (bytes_of
               (''['' @ quote salt @ '','' @ quote claimName @ '','' @ v @ '']''))\<rparr>), w'))"

definition Digest :: "disclosure \<Rightarrow> string" where
  "Digest d = b64url (sha256 (bytes_of (d_Encoded d)))"

section \<open>The builder\<close>

definition defaultValiditySeconds :: int where "defaultValiditySeconds = 86400 * 365"

record claim_entry =
  ce_name :: string
  ce_value :: go_any

record ('k, 'sg) sd_builder =
  sb_issuerKey :: "('k, 'sg) signing_key"
  sb_vct :: string
  sb_issuer :: string
  sb_subject :: string
  sb_validitySeconds :: int
  sb_plainClaims :: "claim_entry list"
  sb_selectiveClaims :: "claim_entry list"
  sb_holderKey :: "'k option"
  sb_x5cChain :: "bytes list"

definition sd_NewBuilder :: "('k, 'sg) signing_key \<Rightarrow> ('k, 'sg) sd_builder" where
  "sd_NewBuilder key =
     \<lparr>sb_issuerKey = key, sb_vct = [], sb_issuer = [], sb_subject = [],
      sb_validitySeconds = defaultValiditySeconds, sb_plainClaims = [], sb_selectiveClaims = [],
      sb_holderKey = None, sb_x5cChain = []\<rparr>"

definition sd_VCT :: "string \<Rightarrow> ('k, 'sg) sd_builder \<Rightarrow> ('k, 'sg) sd_builder" where
  "sd_VCT v b = b\<lparr>sb_vct := v\<rparr>"
definition sd_Issuer :: "string \<Rightarrow> ('k, 'sg) sd_builder \<Rightarrow> ('k, 'sg) sd_builder" where
  "sd_Issuer v b = b\<lparr>sb_issuer := v\<rparr>"
definition sd_Subject :: "string \<Rightarrow> ('k, 'sg) sd_builder \<Rightarrow> ('k, 'sg) sd_builder" where
  "sd_Subject v b = b\<lparr>sb_subject := v\<rparr>"
definition sd_HolderKey :: "'k \<Rightarrow> ('k, 'sg) sd_builder \<Rightarrow> ('k, 'sg) sd_builder" where
  "sd_HolderKey k b = b\<lparr>sb_holderKey := Some k\<rparr>"
definition sd_X5CChain :: "bytes list \<Rightarrow> ('k, 'sg) sd_builder \<Rightarrow> ('k, 'sg) sd_builder" where
  "sd_X5CChain c b = b\<lparr>sb_x5cChain := c\<rparr>"

definition PlainClaim :: "string \<Rightarrow> go_any \<Rightarrow> ('k, 'sg) sd_builder \<Rightarrow> ('k, 'sg) sd_builder" where
  "PlainClaim name value b =
     b\<lparr>sb_plainClaims := sb_plainClaims b @ [\<lparr>ce_name = name, ce_value = value\<rparr>]\<rparr>"

definition SelectiveClaim :: "string \<Rightarrow> go_any \<Rightarrow> ('k, 'sg) sd_builder \<Rightarrow> ('k, 'sg) sd_builder" where
  "SelectiveClaim name value b =
     b\<lparr>sb_selectiveClaims := sb_selectiveClaims b @ [\<lparr>ce_name = name, ce_value = value\<rparr>]\<rparr>"

fun sd_disclose :: "float_ops \<Rightarrow> claim_entry list \<Rightarrow> world \<Rightarrow> disclosure list result \<times> world" where
  "sd_disclose fo [] w = (Ok [], w)"
| "sd_disclose fo (c # cs) w =
     st_then (NewDisclosure fo (ce_name c) (ce_value c) w) (\<lambda>d w.
     st_then (sd_disclose fo cs w) (\<lambda>ds w. (Ok (d # ds), w)))"

definition jwkToMap :: "float_ops \<Rightarrow> ('k, 'sg) jose_out \<Rightarrow> 'k \<Rightarrow> go_any result" where
  "jwkToMap fo L key =
     then_ok (of_sum Plain (jo_key_json L key)) (\<lambda>buf.
     then_ok (of_option (Plain (json_error fo buf)) (unmarshal_map fo buf)) (\<lambda>m.
     Ok (case m of Some ms \<Rightarrow> VJson (JObj ms) | None \<Rightarrow> VJson JNull)))"

definition holder_claim ::
  "float_ops \<Rightarrow> ('k, 'sg) jose_out \<Rightarrow> 'k option \<Rightarrow> claims result" where
  "holder_claim fo L hk =
     (case hk of
        None \<Rightarrow> Ok []
      | Some k \<Rightarrow>
          then_ok (of_sum (\<lambda>e. Plain (''sdjwt: deriving holder public JWK: '' @ e)) (jo_public_key L k)) (\<lambda>pub.
          then_ok (map_err (\<lambda>e. Plain (''sdjwt: encoding holder JWK: '' @ error_text e)) (jwkToMap fo L pub)) (\<lambda>m.
          Ok [(''cnf'', CAny (VMap [(''jwk'', m)]))])))"

definition sd_claims :: "('k, 'sg) sd_builder \<Rightarrow> instant \<Rightarrow> string list \<Rightarrow> claims \<Rightarrow> claims" where
  "sd_claims b now sdDigests cnf =
     [(''iss'', CAny (VStr (sb_issuer b))), (''iat'', CTime now),
      (''exp'', CTime (now + i64 (sb_validitySeconds b * second))), (''vct'', CAny (VStr (sb_vct b)))] @
     (if sb_subject b \<noteq> [] then [(''sub'', CAny (VStr (sb_subject b)))] else []) @
     (if sdDigests \<noteq> [] then [(''_sd'', CAny (VStrs sdDigests)), (''_sd_alg'', CAny (VStr ''sha-256''))] else []) @
     map (\<lambda>c. (ce_name c, CAny (ce_value c))) (sb_plainClaims b) @ cnf"

definition tilde_join :: "string \<Rightarrow> disclosure list \<Rightarrow> string" where
  "tilde_join jws ds = jws @ concat (map (\<lambda>d. CHR ''~'' # d_Encoded d) ds) @ ''~''"

definition sd_Build ::
  "float_ops \<Rightarrow> ('k, 'sg) jose_out \<Rightarrow> ('k, 'sg) sd_builder \<Rightarrow> world \<Rightarrow> string result \<times> world" where
  "sd_Build fo L b w0 =
     st_then (fail_if (sb_vct b = []) (Plain ''sdjwt: vct is required''), w0) (\<lambda>_ w.
     st_then (sd_disclose fo (sb_selectiveClaims b) w) (\<lambda>ds w.
     let (now, w) = time_Now w in
     st_then (holder_claim fo L (sb_holderKey b), w) (\<lambda>cnf w.
     st_then (of_sum (\<lambda>e. Plain (''sdjwt: building claims: '' @ e))
                (jo_build L (sd_claims b now (map Digest ds) cnf)), w) (\<lambda>token w.
     st_then (jwt_headers L ''dc+sd-jwt'' (sk_kid (sb_issuerKey b)) (sb_x5cChain b), w) (\<lambda>hdrs w.
     let (res, r) = jo_jwt_sign L (sk_signer (sb_issuerKey b)) hdrs token (w_rand w) in
     st_then (of_sum (\<lambda>e. Plain (''sdjwt: signing: '' @ e)) res, w\<lparr>w_rand := r\<rparr>) (\<lambda>jws w.
     (Ok (tilde_join jws ds), w)))))))"

section \<open>Facts\<close>

lemma tilde_not_b64: "CHR ''~'' \<notin> set (b64url bs)"
  using b64url_chars [of bs] by (auto simp: b64_alphabet_def)

lemma b64url_ascii: "plain_ascii (b64url bs)"
proof -
  have "list_all (\<lambda>c. cn c < 0x80) b64_alphabet" by (simp add: b64_alphabet_def)
  then show ?thesis
    using b64url_chars [of bs] by (auto simp: plain_ascii_def list_all_iff)
qed

text \<open>A disclosure is the encoding of a fresh salt with the name and the value of its claim.\<close>

definition disclosed :: "float_ops \<Rightarrow> claim_entry \<Rightarrow> disclosure \<Rightarrow> bool" where
  "disclosed fo c d \<longleftrightarrow> d_ClaimName d = ce_name c \<and> d_Value d = ce_value c \<and>
     (\<exists>v rnd. marshal_go fo (ce_value c) = Some v \<and> d_Salt d = fst (RandomToken 16 rnd) \<and>
        d_Encoded d = b64url (bytes_of
          (''['' @ quote (d_Salt d) @ '','' @ quote (ce_name c) @ '','' @ v @ '']'')))"

lemma NewDisclosure_Ok:
  "NewDisclosure fo (ce_name c) (ce_value c) w = (Ok d, w') \<Longrightarrow> disclosed fo c d"
  by (auto simp: NewDisclosure_def draw_token_def Let_def split_beta then_ok_Ok_iff of_option_Ok_iff disclosed_def)

lemma sd_disclose_Ok: "sd_disclose fo cs w = (Ok ds, w') \<Longrightarrow> list_all2 (disclosed fo) cs ds"
proof (induction cs arbitrary: w ds w')
  case (Cons c cs)
  then show ?case by (auto simp: st_then_Ok_iff dest: NewDisclosure_Ok)
qed simp

lemma NewDisclosure_no_panic: "fst (NewDisclosure fo n v w) \<noteq> Panic p"
  by (auto simp: NewDisclosure_def Let_def split_beta then_ok_Panic_iff)

lemma sd_disclose_no_panic: "fst (sd_disclose fo cs w) \<noteq> Panic p"
proof (induction cs arbitrary: w)
  case (Cons c cs)
  then show ?case
    unfolding sd_disclose.simps by (intro st_then_no_panic) (simp_all add: NewDisclosure_no_panic)
qed simp

lemma holder_claim_no_panic: "holder_claim fo L hk \<noteq> Panic p"
  unfolding holder_claim_def jwkToMap_def
  by (auto simp: then_ok_Panic_iff split: option.splits elim!: map_err.elims)

lemma sd_Build_no_panic: "fst (sd_Build fo L b w) \<noteq> Panic p"
  unfolding sd_Build_def Let_def split_beta
  by (intro st_then_no_panic) (simp_all add: sd_disclose_no_panic holder_claim_no_panic jwt_headers_no_panic)

lemma split_tilde_join:
  assumes "CHR ''~'' \<notin> set jws"
    and "list_all2 (disclosed fo) cs ds"
  shows "split_on CHR ''~'' (tilde_join jws ds) = jws # map d_Encoded ds @ [[]]"
proof -
  have enc: "CHR ''~'' \<notin> set (d_Encoded d)" if "d \<in> set ds" for d
  proof -
    obtain i where "i < length ds" "d = ds ! i" using \<open>d \<in> set ds\<close> by (auto simp: in_set_conv_nth)
    with assms(2) have "disclosed fo (cs ! i) d" by (simp add: list_all2_nthD2)
    then show ?thesis unfolding disclosed_def using tilde_not_b64 by metis
  qed
  have tail: "split_on CHR ''~'' (a @ concat (map (\<lambda>d. CHR ''~'' # d_Encoded d) xs) @ ''~'') =
      a # map d_Encoded xs @ [[]]"
    if "CHR ''~'' \<notin> set a" "\<forall>d \<in> set xs. CHR ''~'' \<notin> set (d_Encoded d)" for a xs
    using that
  proof (induction xs arbitrary: a)
    case Nil
    then show ?case using split_on_append [of "CHR ''~''" a "[]"] by simp
  next
    case (Cons d xs)
    then show ?case
      using split_on_append [of "CHR ''~''" a
          "d_Encoded d @ concat (map (\<lambda>d. CHR ''~'' # d_Encoded d) xs) @ ''~''"] by simp
  qed
  show ?thesis unfolding tilde_join_def using assms(1) enc by (intro tail) auto
qed

text \<open>The claims the JWT part was signed over, whoever checks the signature.\<close>

definition signed_over ::
  "float_ops \<Rightarrow> ('k, 'sg) jose_out \<Rightarrow> ('k, 'sg) sd_builder \<Rightarrow> string list \<Rightarrow> string \<Rightarrow> bool" where
  "signed_over fo L b digests jws \<longleftrightarrow>
     (\<exists>now cnf c h r r'. holder_claim fo L (sb_holderKey b) = Ok cnf \<and>
        jo_build L (sd_claims b now digests cnf) = Inr c \<and>
        jwt_headers L ''dc+sd-jwt'' (sk_kid (sb_issuerKey b)) (sb_x5cChain b) = Ok h \<and>
        jo_jwt_sign L (sk_signer (sb_issuerKey b)) h c r = (Inr jws, r'))"

lemma sd_Build_Ok:
  assumes "sd_Build fo L b w = (Ok out, w')"
  shows "\<exists>jws ds. out = tilde_join jws ds \<and> list_all2 (disclosed fo) (sb_selectiveClaims b) ds \<and>
    signed_over fo L b (map Digest ds) jws \<and> sb_vct b \<noteq> []"
proof -
  obtain ds w1 cnf now c h r r' jws where
    "sb_vct b \<noteq> []" "sd_disclose fo (sb_selectiveClaims b) w = (Ok ds, w1)"
    "holder_claim fo L (sb_holderKey b) = Ok cnf"
    "jo_build L (sd_claims b now (map Digest ds) cnf) = Inr c"
    "jwt_headers L ''dc+sd-jwt'' (sk_kid (sb_issuerKey b)) (sb_x5cChain b) = Ok h"
    "jo_jwt_sign L (sk_signer (sb_issuerKey b)) h c r = (Inr jws, r')" "out = tilde_join jws ds"
    using arg_cong [OF assms, of fst] unfolding sd_Build_def Let_def split_beta
    by (clarsimp simp: fst_st_then_Ok_iff of_sum_Ok_iff fail_if_Ok_iff) (metis prod.collapse)
  then show ?thesis unfolding signed_over_def using sd_disclose_Ok by metis
qed

definition compact_jws :: "('k, 'sg) jose_out \<Rightarrow> bool" where
  "compact_jws L \<longleftrightarrow> (\<forall>sg h c r t r'. jo_jwt_sign L sg h c r = (Inr t, r') \<longrightarrow> CHR ''~'' \<notin> set t)"

section \<open>Properties\<close>

text \<open>C29 (roundtrip): what a relying party gets from an issued SD-JWT. Splitting it at the tildes gives
  the JWT, one disclosure per selectively disclosable claim in the order they were added, and a final
  empty part; the JWT is signed over claims whose \<open>_sd\<close> is exactly the list of the digests of those
  disclosures; and decoding the disclosure of a string claim gives back the JSON array of its salt, its
  name and its value.\<close>

theorem sd_jwt_presentation:
  assumes "compact_jws L" and "sd_Build fo L b w = (Ok out, w')"
  shows "\<exists>jws ds. split_on CHR ''~'' out = jws # map d_Encoded ds @ [[]] \<and>
    list_all2 (disclosed fo) (sb_selectiveClaims b) ds \<and>
    signed_over fo L b (map (\<lambda>e. b64url (sha256 (bytes_of e))) (map d_Encoded ds)) jws \<and>
    (\<forall>i < length ds. \<forall>v. ce_value (sb_selectiveClaims b ! i) = VStr v \<longrightarrow>
       parse_document (string_of (b64url_decode (d_Encoded (ds ! i)))) =
         Some (JArr [JStr (d_Salt (ds ! i)), JStr (clean (ce_name (sb_selectiveClaims b ! i))), JStr (clean v)]))"
proof -
  obtain jws ds where out: "out = tilde_join jws ds" and ds: "list_all2 (disclosed fo) (sb_selectiveClaims b) ds"
    and sg: "signed_over fo L b (map Digest ds) jws"
    using sd_Build_Ok [OF assms(2)] by blast
  have nt: "CHR ''~'' \<notin> set jws"
    using sg assms(1) unfolding signed_over_def compact_jws_def by blast
  have dec: "parse_document (string_of (b64url_decode (d_Encoded (ds ! i)))) =
      Some (JArr [JStr (d_Salt (ds ! i)), JStr (clean (ce_name (sb_selectiveClaims b ! i))), JStr (clean v)])"
    if "i < length ds" "ce_value (sb_selectiveClaims b ! i) = VStr v" for i v
  proof -
    let ?c = "sb_selectiveClaims b ! i" and ?d = "ds ! i"
    from ds that(1) have "disclosed fo ?c ?d" by (simp add: list_all2_conv_all_nth)
    with that(2) obtain rnd where salt: "d_Salt ?d = fst (RandomToken 16 rnd)"
      and enc: "d_Encoded ?d = b64url (bytes_of
        (''['' @ quote (d_Salt ?d) @ '','' @ quote (ce_name ?c) @ '','' @ quote v @ '']''))"
      by (auto simp: disclosed_def)
    have "clean (d_Salt ?d) = d_Salt ?d"
      using b64url_ascii by (simp add: salt RandomToken_eq)
    then show ?thesis
      using parse_string_array [of "[d_Salt ?d, ce_name ?c, v]"] by (simp add: enc)
  qed
  have "map Digest ds = map (\<lambda>e. b64url (sha256 (bytes_of e))) (map d_Encoded ds)"
    by (simp add: Digest_def)
  with sg split_tilde_join [OF nt ds] ds dec show ?thesis by (auto simp: out)
qed

definition sample_sd :: "(string, string) sd_builder" where
  "sample_sd = SelectiveClaim ''given_name'' (VStr ''Ana'') (sd_VCT ''pid'' (sd_NewBuilder plain_key))"

theorem sd_jwt_presentation_witness:
  "\<forall>fo. \<exists>out e salt. fst (sd_Build fo plain_jose_out sample_sd zero_world) = Ok out \<and>
     split_on CHR ''~'' out = [''h.p.s'', e, []] \<and>
     parse_document (string_of (b64url_decode e)) = Some (JArr [JStr salt, JStr ''given_name'', JStr ''Ana''])"
proof
  fix fo
  have comp: "compact_jws plain_jose_out" by (simp add: compact_jws_def plain_jose_out_def)
  obtain out w' where run: "sd_Build fo plain_jose_out sample_sd zero_world = (Ok out, w')"
    by (simp add: sd_Build_def sample_sd_def SelectiveClaim_def sd_VCT_def sd_NewBuilder_def Let_def split_beta
        NewDisclosure_def holder_claim_def jwt_headers_def plain_jose_out_def plain_key_def)
  have sel: "sb_selectiveClaims sample_sd = [\<lparr>ce_name = ''given_name'', ce_value = VStr ''Ana''\<rparr>]"
    by (simp add: sample_sd_def SelectiveClaim_def sd_VCT_def sd_NewBuilder_def)
  from sd_jwt_presentation [OF comp run] obtain jws ds where
    sp: "split_on CHR ''~'' out = jws # map d_Encoded ds @ [[]]"
    and ds: "list_all2 (disclosed fo) (sb_selectiveClaims sample_sd) ds"
    and sg: "signed_over fo plain_jose_out sample_sd (map (\<lambda>e. b64url (sha256 (bytes_of e))) (map d_Encoded ds)) jws"
    and dec: "\<forall>i < length ds. \<forall>v. ce_value (sb_selectiveClaims sample_sd ! i) = VStr v \<longrightarrow>
       parse_document (string_of (b64url_decode (d_Encoded (ds ! i)))) =
         Some (JArr [JStr (d_Salt (ds ! i)), JStr (clean (ce_name (sb_selectiveClaims sample_sd ! i))), JStr (clean v)])"
    by blast
  from sg have "jws = ''h.p.s''" by (auto simp: signed_over_def plain_jose_out_def)
  moreover from ds obtain d where "ds = [d]" by (auto simp: sel list_all2_Cons1)
  moreover have "clean ''given_name'' = ''given_name''" "clean ''Ana'' = ''Ana''"
    by (simp_all add: plain_ascii_def)
  ultimately show "\<exists>out e salt. fst (sd_Build fo plain_jose_out sample_sd zero_world) = Ok out \<and>
     split_on CHR ''~'' out = [''h.p.s'', e, []] \<and>
     parse_document (string_of (b64url_decode e)) = Some (JArr [JStr salt, JStr ''given_name'', JStr ''Ana''])"
    using sp dec run by (auto simp: sel)
qed

end
