(* ===== verification/Go_Time.thy ===== *)
theory Go_Time
  imports Go_Std
begin

text \<open>
  \<open>time.Time.Format\<close> for the two layouts the issuer uses, on instants in UTC: the civil date of a day
  number in the proleptic Gregorian calendar, and its zero-padded printing.
\<close>

definition day_seconds :: int where "day_seconds = 86400"

text \<open>Year, month and day of the day \<open>z\<close> days after 1970-01-01, counting years from March.\<close>

definition civil_of_days :: "int \<Rightarrow> int \<times> int \<times> int" where
  "civil_of_days d0 =
     (let z = d0 + 719468; era = z div 146097; doe = z mod 146097;
          yoe = (doe - doe div 1460 + doe div 36524 - doe div 146096) div 365;
          doy = doe - (365 * yoe + yoe div 4 - yoe div 100);
          mp = (5 * doy + 2) div 153;
          d = doy - (153 * mp + 2) div 5 + 1;
          m = (if mp < 10 then mp + 3 else mp - 9)
      in (yoe + era * 400 + (if m \<le> 2 then 1 else 0), m, d))"

definition pad0 :: "nat \<Rightarrow> int \<Rightarrow> string" where
  "pad0 w n =
     (if n < 0 then ''-'' @ (let s = show_nat (nat (- n)) in replicate (w - length s) (CHR ''0'') @ s)
      else (let s = show_nat (nat n) in replicate (w - length s) (CHR ''0'') @ s))"

definition format_seconds :: "int \<Rightarrow> string" where
  "format_seconds secs =
     (let (y, m, d) = civil_of_days (secs div day_seconds); s = secs mod day_seconds
      in pad0 4 y @ ''-'' @ pad0 2 m @ ''-'' @ pad0 2 d @ ''T'' @
         pad0 2 (s div 3600) @ '':'' @ pad0 2 (s div 60 mod 60) @ '':'' @ pad0 2 (s mod 60))"

text \<open>The layouts \<open>2006-01-02T15:04:05Z\<close> and \<open>2006-01-02T15:04:05.000Z\<close>.\<close>

definition format_rfc3339 :: "instant \<Rightarrow> string" where
  "format_rfc3339 t = format_seconds (t div second) @ ''Z''"

definition format_millis :: "instant \<Rightarrow> string" where
  "format_millis t =
     format_seconds (t div second) @ ''.'' @ pad0 3 (t mod second div 1000000) @ ''Z''"

text \<open>Known dates: the epoch, leap days, the day before a century that is not a leap year.\<close>

lemma civil_examples:
  "civil_of_days 0 = (1970, 1, 1)" "civil_of_days 11016 = (2000, 2, 29)"
  "civil_of_days 19675 = (2023, 11, 14)" "civil_of_days 47540 = (2100, 2, 28)"
  "civil_of_days 47541 = (2100, 3, 1)" "civil_of_days (- 1) = (1969, 12, 31)"
  by code_simp+

lemma format_example: "format_millis 1700000000123000000 = ''2023-11-14T22:13:20.123Z''"
proof -
  have [simp]: "char_of (48 :: nat) = CHR ''0''" "char_of (49 :: nat) = CHR ''1''"
    "char_of (50 :: nat) = CHR ''2''" "char_of (51 :: nat) = CHR ''3''" "char_of (52 :: nat) = CHR ''4''"
    by code_simp+
  have "show_nat 2023 = ''2023''" "show_nat 11 = ''11''" "show_nat 14 = ''14''" "show_nat 22 = ''22''"
    "show_nat 13 = ''13''" "show_nat 20 = ''20''" "show_nat 123 = ''123''"
    by (simp_all add: show_nat.simps digit_char_def)
  then show ?thesis
    by (simp add: format_millis_def format_seconds_def second_def day_seconds_def civil_examples(3) pad0_def)
qed

text \<open>Adding \<open>n\<close> calendar days to an instant in UTC.\<close>

definition add_days :: "int \<Rightarrow> instant \<Rightarrow> instant" where
  "add_days n t = t + n * day_seconds * second"

end
