(* ===== verification/Mdoc.thy ===== *)
theory Mdoc
  imports Signing Records Sha256 Go_Time
begin

text \<open>
  \<open>internal/mdoc\<close>: the ISO 18013-5 issuer-signed document, with its items, their digests, the mobile
  security object and the COSE signature. CBOR encoding is the third-party library's and a
  parameter; what is handed to it is a \<open>cbor_value\<close>, shaped as the Go structs and maps are. The DER
  signature of \<open>crypto.Signer\<close> is taken apart the way \<open>encoding/asn1\<close> does it. The process runs in
  UTC, so that adding calendar days is adding multiples of 24 hours.
\<close>

section \<open>Values handed to the CBOR library\<close>

text \<open>
  \<open>BStruct\<close> is a struct with its field tags, \<open>BTuple\<close> one encoded as an array, \<open>BRaw\<close> bytes that are
  already encoded.
\<close>

datatype cbor_value = BText string | BBytes bytes | BInt int | BTag int cbor_value | BList "cbor_value list"
  | BMap "(cbor_value \<times> cbor_value) list" | BStruct "(cbor_value \<times> cbor_value) list"
  | BTuple "cbor_value list" | BRaw bytes | BAny go_any

type_synonym cbor_lib = "cbor_value \<Rightarrow> string + bytes"

definition cbor_Marshal :: "cbor_lib \<Rightarrow> cbor_value \<Rightarrow> bytes result" where
  "cbor_Marshal C v = of_sum Plain (C v)"

section \<open>Elements\<close>

datatype element_kind = elementText | elementFullDate | elementMap

record element =
  el_identifier :: string
  el_value :: string
  el_mapValue :: "(string \<times> go_any) list"
  el_kind :: element_kind

definition TextElement :: "string \<Rightarrow> string \<Rightarrow> element" where
  "TextElement i v = \<lparr>el_identifier = i, el_value = v, el_mapValue = [], el_kind = elementText\<rparr>"

definition FullDateElement :: "string \<Rightarrow> string \<Rightarrow> element" where
  "FullDateElement i v = \<lparr>el_identifier = i, el_value = v, el_mapValue = [], el_kind = elementFullDate\<rparr>"

definition MapElement :: "string \<Rightarrow> (string \<times> go_any) list \<Rightarrow> element" where
  "MapElement i m = \<lparr>el_identifier = i, el_value = [], el_mapValue = m, el_kind = elementMap\<rparr>"

definition birthDateIdentifier :: string where "birthDateIdentifier = ''birth_date''"

definition resolveElementKind :: "string \<Rightarrow> element_kind" where
  "resolveElementKind i = (if i = birthDateIdentifier then elementFullDate else elementText)"

definition NewElement :: "string \<Rightarrow> string \<Rightarrow> element" where
  "NewElement i v = (if resolveElementKind i = elementFullDate then FullDateElement i v else TextElement i v)"

definition cborValue :: "element \<Rightarrow> cbor_value" where
  "cborValue e =
     (case el_kind e of
        elementFullDate \<Rightarrow> BTag 1004 (BText (el_value e))
      | elementMap \<Rightarrow> BAny (VMap (el_mapValue e))
      | elementText \<Rightarrow> BText (el_value e))"

section \<open>Issuer-signed items and their digests\<close>

definition item_value :: "int \<Rightarrow> bytes \<Rightarrow> element \<Rightarrow> cbor_value" where
  "item_value digestID random e =
     BStruct [(BText ''digestID'', BInt digestID), (BText ''random'', BBytes random),
              (BText ''elementIdentifier'', BText (el_identifier e)), (BText ''elementValue'', cborValue e)]"

definition buildIssuerSignedItem ::
  "cbor_lib \<Rightarrow> int \<Rightarrow> element \<Rightarrow> world \<Rightarrow> bytes result \<times> world" where
  "buildIssuerSignedItem C digestID e w =
     (let (random, r) = rand_read 16 (w_rand w)
      in (cbor_Marshal C (item_value digestID random e), w\<lparr>w_rand := r\<rparr>))"

record namespace_digest =
  nd_taggedItems :: "bytes list"
  nd_digests :: "(int, bytes) gomap"

fun build_items ::
  "cbor_lib \<Rightarrow> int \<Rightarrow> element list \<Rightarrow> namespace_digest \<Rightarrow> world \<Rightarrow> namespace_digest result \<times> world" where
  "build_items C i [] nd w = (Ok nd, w)"
| "build_items C i (e # es) nd w =
     st_then (buildIssuerSignedItem C i e w) (\<lambda>itemBytes w.
     st_then (cbor_Marshal C (BTag 24 (BBytes itemBytes)), w) (\<lambda>tagged w.
     build_items C (i + 1) es
       (nd\<lparr>nd_taggedItems := nd_taggedItems nd @ [tagged], nd_digests := gm_put i (sha256 tagged) (nd_digests nd)\<rparr>) w))"

definition buildNamespaceItems ::
  "cbor_lib \<Rightarrow> element list \<Rightarrow> world \<Rightarrow> namespace_digest result \<times> world" where
  "buildNamespaceItems C es w = build_items C 0 es \<lparr>nd_taggedItems = [], nd_digests = []\<rparr> w"

section \<open>The mobile security object\<close>

definition tdate :: "instant \<Rightarrow> cbor_value" where
  "tdate t = BTag 0 (BText (format_rfc3339 t))"

record cose_key =
  ck_Kty :: int
  ck_Crv :: int
  ck_X :: bytes
  ck_Y :: bytes

definition cose_key_value :: "cose_key \<Rightarrow> cbor_value" where
  "cose_key_value k = BStruct [(BInt 1, BInt (ck_Kty k)), (BInt (- 1), BInt (ck_Crv k)),
     (BInt (- 2), BBytes (ck_X k)), (BInt (- 3), BBytes (ck_Y k))]"

definition deviceKeyFromJWK :: "('k, 'sg) jose_out \<Rightarrow> 'k \<Rightarrow> cose_key result" where
  "deviceKeyFromJWK L key =
     then_ok (of_option (Plain (''mdoc: device key is not an EC public key ('' @ jo_type_name L key @ '')''))
       (jo_ec_point L key)) (\<lambda>(x, y).
     then_ok (of_option (Plain ''mdoc: device key missing x coordinate'') x) (\<lambda>xb.
     then_ok (of_option (Plain ''mdoc: device key missing y coordinate'') y) (\<lambda>yb.
     Ok \<lparr>ck_Kty = 2, ck_Crv = 1, ck_X = xb, ck_Y = yb\<rparr>)))"

definition mso_value ::
  "string \<Rightarrow> string \<Rightarrow> (int, bytes) gomap \<Rightarrow> cose_key option \<Rightarrow> instant \<Rightarrow> int \<Rightarrow> cbor_value" where
  "mso_value docType ns digests dk now days =
     BStruct
      ([(BText ''version'', BText ''1.0''), (BText ''digestAlgorithm'', BText ''SHA-256''),
        (BText ''valueDigests'', BMap [(BText ns, BMap (map (\<lambda>(i, d). (BInt i, BBytes d)) digests))])] @
       (case dk of None \<Rightarrow> []
        | Some k \<Rightarrow> [(BText ''deviceKeyInfo'', BStruct [(BText ''deviceKey'', cose_key_value k)])]) @
       [(BText ''docType'', BText docType),
        (BText ''validityInfo'', BStruct [(BText ''signed'', tdate now), (BText ''validFrom'', tdate now),
           (BText ''validUntil'', tdate (add_days days now))])])"

section \<open>The signature\<close>

text \<open>
  \<open>asn1.Unmarshal\<close> into a struct of two \<open>*big.Int\<close>: identifier and length octets (definite and
  minimal), minimally encoded integers, extra bytes at the end of the sequence tolerated.
\<close>

definition be_nat :: "bytes \<Rightarrow> nat" where
  "be_nat bs = foldl (\<lambda>a b. a * 256 + unat b) 0 bs"

fun len_octets :: "nat \<Rightarrow> nat \<Rightarrow> bytes \<Rightarrow> (nat \<times> bytes) option" where
  "len_octets 0 acc bs = Some (acc, bs)"
| "len_octets (Suc k) acc [] = None"
| "len_octets (Suc k) acc (b # bs) =
     (if acc \<ge> 2 ^ 23 then None
      else let acc' = acc * 256 + unat b in if acc' = 0 then None else len_octets k acc' bs)"

fun asn1_element :: "byte \<Rightarrow> bytes \<Rightarrow> (bytes \<times> bytes) option" where
  "asn1_element tag (b # l # rest) =
     (if b \<noteq> tag then None
      else (case (if unat l < 128 then Some (unat l, rest)
                  else if unat l = 128 then None
                  else case len_octets (unat l - 128) 0 rest of
                    Some (n, rest') \<Rightarrow> if n < 128 then None else Some (n, rest')
                  | None \<Rightarrow> None) of
              None \<Rightarrow> None
            | Some (n, body) \<Rightarrow> if n > length body then None else Some (take n body, drop n body)))"
| "asn1_element tag _ = None"

definition minimal_integer :: "bytes \<Rightarrow> bool" where
  "minimal_integer c \<longleftrightarrow>
     (case c of
        [] \<Rightarrow> False
      | [_] \<Rightarrow> True
      | a # b # _ \<Rightarrow> \<not> (a = 0 \<and> unat b < 128) \<and> \<not> (a = 0xFF \<and> 128 \<le> unat b))"

definition asn1_integer :: "bytes \<Rightarrow> (int \<times> bytes) option" where
  "asn1_integer bs =
     (case asn1_element 2 bs of
        None \<Rightarrow> None
      | Some (c, rest) \<Rightarrow>
          if \<not> minimal_integer c then None
          else Some (if 128 \<le> unat (hd c) then int (be_nat c) - 2 ^ (8 * length c) else int (be_nat c), rest))"

definition parseECDSADER :: "(bytes \<Rightarrow> string) \<Rightarrow> bytes \<Rightarrow> (int \<times> int) result" where
  "parseECDSADER asn1_error der =
     of_option (Plain (''parsing ECDSA signature: '' @ asn1_error der))
       (case asn1_element 0x30 der of
          None \<Rightarrow> None
        | Some (body, _) \<Rightarrow>
            (case asn1_integer body of
               None \<Rightarrow> None
             | Some (r, rest) \<Rightarrow> map_option (\<lambda>(s, _). (r, s)) (asn1_integer rest)))"

text \<open>\<open>x.FillBytes(buf)\<close> on 32 bytes: the absolute value, big-endian, or a panic.\<close>

definition be_fixed :: "nat \<Rightarrow> nat \<Rightarrow> bytes" where
  "be_fixed n x = map (\<lambda>i. word_of_nat (x div 256 ^ (n - 1 - i))) [0..<n]"

definition FillBytes :: "nat \<Rightarrow> int \<Rightarrow> bytes result" where
  "FillBytes n x =
     (if nat \<bar>x\<bar> < 256 ^ n then Ok (be_fixed n (nat \<bar>x\<bar>))
      else Panic ''math/big: buffer too small to fit value'')"

definition signRawP1363 ::
  "('k, 'sg) jose_out \<Rightarrow> (bytes \<Rightarrow> string) \<Rightarrow> 'sg \<Rightarrow> bytes \<Rightarrow> world \<Rightarrow> bytes result \<times> world" where
  "signRawP1363 L asn1_error signer data w =
     (let (res, rnd) = jo_sign_digest L signer (sha256 data) (w_rand w) in
      (then_ok (of_sum Plain res) (\<lambda>der.
       then_ok (parseECDSADER asn1_error der) (\<lambda>(r, s).
       then_ok (FillBytes 32 r) (\<lambda>rb.
       then_ok (FillBytes 32 s) (\<lambda>sb. Ok (rb @ sb))))), w\<lparr>w_rand := rnd\<rparr>))"

definition coseAlgES256 :: int where "coseAlgES256 = - 7"
definition coseHeaderAlg :: int where "coseHeaderAlg = 1"
definition coseHeaderX5Chain :: int where "coseHeaderX5Chain = 33"

definition unprotected_header :: "bytes list \<Rightarrow> cbor_value" where
  "unprotected_header x5c =
     BMap (case x5c of
             [] \<Rightarrow> []
           | [c] \<Rightarrow> [(BInt coseHeaderX5Chain, BBytes c)]
           | _ \<Rightarrow> [(BInt coseHeaderX5Chain, BList (map BBytes x5c))])"

definition signCoseSign1 ::
  "('k, 'sg) jose_out \<Rightarrow> cbor_lib \<Rightarrow> (bytes \<Rightarrow> string) \<Rightarrow> bytes \<Rightarrow> 'sg \<Rightarrow> bytes list \<Rightarrow> world \<Rightarrow>
   bytes result \<times> world" where
  "signCoseSign1 L C asn1_error payload signer x5cChain w0 =
     st_then (cbor_Marshal C (BMap [(BInt coseHeaderAlg, BInt coseAlgES256)]), w0) (\<lambda>protectedBytes w.
     st_then (cbor_Marshal C (BTuple [BText ''Signature1'', BBytes protectedBytes, BBytes [], BBytes payload]), w)
       (\<lambda>toBeSigned w.
     st_then (signRawP1363 L asn1_error signer toBeSigned w) (\<lambda>signature w.
     (cbor_Marshal C (BTuple [BBytes protectedBytes, unprotected_header x5cChain, BBytes payload, BBytes signature]), w))))"

section \<open>The builder\<close>

record ('k, 'sg) mdoc_builder =
  mb_issuerKey :: "('k, 'sg) signing_key"
  mb_docType :: string
  mb_namespace :: string
  mb_elements :: "element list"
  mb_deviceKey :: "'k option"
  mb_x5cChain :: "bytes list"
  mb_validityDays :: int

definition defaultValidityDays :: int where "defaultValidityDays = 365"

definition mdoc_NewBuilder :: "('k, 'sg) signing_key \<Rightarrow> ('k, 'sg) mdoc_builder" where
  "mdoc_NewBuilder key =
     \<lparr>mb_issuerKey = key, mb_docType = [], mb_namespace = [], mb_elements = [], mb_deviceKey = None,
      mb_x5cChain = [], mb_validityDays = defaultValidityDays\<rparr>"

definition mdoc_DocType :: "string \<Rightarrow> ('k, 'sg) mdoc_builder \<Rightarrow> ('k, 'sg) mdoc_builder" where
  "mdoc_DocType v b = b\<lparr>mb_docType := v\<rparr>"
definition mdoc_Namespace :: "string \<Rightarrow> ('k, 'sg) mdoc_builder \<Rightarrow> ('k, 'sg) mdoc_builder" where
  "mdoc_Namespace v b = b\<lparr>mb_namespace := v\<rparr>"
definition mdoc_DeviceKey :: "'k \<Rightarrow> ('k, 'sg) mdoc_builder \<Rightarrow> ('k, 'sg) mdoc_builder" where
  "mdoc_DeviceKey k b = b\<lparr>mb_deviceKey := Some k\<rparr>"
definition mdoc_X5CChain :: "bytes list \<Rightarrow> ('k, 'sg) mdoc_builder \<Rightarrow> ('k, 'sg) mdoc_builder" where
  "mdoc_X5CChain c b = b\<lparr>mb_x5cChain := c\<rparr>"
definition mdoc_Element :: "string \<Rightarrow> string \<Rightarrow> ('k, 'sg) mdoc_builder \<Rightarrow> ('k, 'sg) mdoc_builder" where
  "mdoc_Element i v b = b\<lparr>mb_elements := mb_elements b @ [NewElement i v]\<rparr>"
definition mdoc_MapElement ::
  "string \<Rightarrow> (string \<times> go_any) list \<Rightarrow> ('k, 'sg) mdoc_builder \<Rightarrow> ('k, 'sg) mdoc_builder" where
  "mdoc_MapElement i m b = b\<lparr>mb_elements := mb_elements b @ [MapElement i m]\<rparr>"

definition device_key :: "('k, 'sg) jose_out \<Rightarrow> 'k option \<Rightarrow> cose_key option result" where
  "device_key L dk =
     (case dk of None \<Rightarrow> Ok None | Some k \<Rightarrow> then_ok (deviceKeyFromJWK L k) (\<lambda>c. Ok (Some c)))"

definition mdoc_Build ::
  "('k, 'sg) jose_out \<Rightarrow> cbor_lib \<Rightarrow> (bytes \<Rightarrow> string) \<Rightarrow> ('k, 'sg) mdoc_builder \<Rightarrow> world \<Rightarrow>
   bytes result \<times> world" where
  "mdoc_Build L C asn1_error b w0 =
     st_then (buildNamespaceItems C (mb_elements b) w0) (\<lambda>nd w.
     let (now, w) = time_Now w in
     st_then (device_key L (mb_deviceKey b), w) (\<lambda>dk w.
     st_then (cbor_Marshal C (mso_value (mb_docType b) (mb_namespace b) (nd_digests nd) dk now (mb_validityDays b)), w)
       (\<lambda>msoBytes w.
     st_then (cbor_Marshal C (BTag 24 (BBytes msoBytes)), w) (\<lambda>msoPayload w.
     st_then (signCoseSign1 L C asn1_error msoPayload (sk_signer (mb_issuerKey b)) (mb_x5cChain b) w)
       (\<lambda>issuerAuth w.
     (cbor_Marshal C (BStruct [(BText ''issuerAuth'', BRaw issuerAuth),
        (BText ''nameSpaces'', BMap [(BText (mb_namespace b), BList (map BRaw (nd_taggedItems nd)))])]), w))))))"

definition BuildBase64URL ::
  "('k, 'sg) jose_out \<Rightarrow> cbor_lib \<Rightarrow> (bytes \<Rightarrow> string) \<Rightarrow> ('k, 'sg) mdoc_builder \<Rightarrow> world \<Rightarrow>
   string result \<times> world" where
  "BuildBase64URL L C asn1_error b w = st_then (mdoc_Build L C asn1_error b w) (\<lambda>bs w. (Ok (b64url bs), w))"

section \<open>Big-endian integers and DER\<close>

lemma be_nat_Nil [simp]: "be_nat [] = 0"
  by (simp add: be_nat_def)

lemma be_nat_snoc [simp]: "be_nat (bs @ [b]) = be_nat bs * 256 + unat b"
  by (simp add: be_nat_def)

lemma be_nat_Cons0: "be_nat (0 # bs) = be_nat bs"
  by (simp add: be_nat_def)

lemma unat_byte_of_nat [simp]: "unat (word_of_nat n :: byte) = n mod 256"
  by (simp add: unat_of_nat take_bit_eq_mod)

lemma be_fixed_Suc: "be_fixed (Suc n) x = be_fixed n (x div 256) @ [word_of_nat x]"
proof -
  have "x div 256 ^ (n - i) = x div 256 div 256 ^ (n - 1 - i)" if "i < n" for i
  proof -
    from that have "n - i = Suc (n - 1 - i)" by simp
    then show ?thesis by (metis power_Suc div_mult2_eq)
  qed
  then show ?thesis by (auto simp: be_fixed_def)
qed

lemma length_be_fixed [simp]: "length (be_fixed n x) = n"
  by (simp add: be_fixed_def)

lemma be_nat_fixed: "x < 256 ^ n \<Longrightarrow> be_nat (be_fixed n x) = x"
proof (induction n arbitrary: x)
  case 0
  then show ?case by (simp add: be_fixed_def)
next
  case (Suc n)
  then have "x div 256 < 256 ^ n" by (simp add: less_mult_imp_div_less mult.commute)
  with Suc.IH show ?case by (simp add: be_fixed_Suc)
qed

text \<open>The DER encoding a signer produces, as the reference for the parser.\<close>

fun be_min :: "nat \<Rightarrow> bytes" where
  "be_min n = (if n = 0 then [] else be_min (n div 256) @ [word_of_nat n])"

declare be_min.simps [simp del]

definition der_content :: "nat \<Rightarrow> bytes" where
  "der_content n = (let b = be_min n in if b = [] \<or> 128 \<le> unat (hd b) then 0 # b else b)"

definition der_uint :: "nat \<Rightarrow> bytes" where
  "der_uint n = 2 # word_of_nat (length (der_content n)) # der_content n"

definition der_sig :: "nat \<Rightarrow> nat \<Rightarrow> bytes" where
  "der_sig r s = 0x30 # word_of_nat (length (der_uint r @ der_uint s)) # der_uint r @ der_uint s"

lemma be_nat_min: "be_nat (be_min n) = n"
proof (induction n rule: be_min.induct)
  case (1 n)
  then show ?case by (subst be_min.simps) simp
qed

lemma be_min_head: "be_min n \<noteq> [] \<Longrightarrow> hd (be_min n) \<noteq> 0"
proof (induction n rule: be_min.induct)
  case (1 n)
  have n: "n \<noteq> 0"
  proof
    assume "n = 0"
    with 1(2) show False by (simp add: be_min.simps)
  qed
  show ?case
  proof (cases "n div 256 = 0")
    case True
    then have "be_min n = [word_of_nat n]"
      using n by (subst be_min.simps, subst be_min.simps) simp
    moreover have "n < 256" using True by (simp add: div_eq_0_iff)
    then have "(word_of_nat n :: byte) \<noteq> 0" using n unat_byte_of_nat [of n] by (metis mod_less unat_0)
    ultimately show ?thesis by simp
  next
    case False
    then have ne: "be_min (n div 256) \<noteq> []" by (subst be_min.simps) simp
    with 1 n have "hd (be_min (n div 256)) \<noteq> 0" by simp
    with ne n show ?thesis by (subst be_min.simps) simp
  qed
qed

lemma length_be_min: "n < 256 ^ k \<Longrightarrow> length (be_min n) \<le> k"
proof (induction k arbitrary: n)
  case 0
  then show ?case by (simp add: be_min.simps)
next
  case (Suc k)
  then have "n div 256 < 256 ^ k" by (simp add: less_mult_imp_div_less mult.commute)
  with Suc.IH show ?case by (subst be_min.simps) auto
qed

lemma der_content_facts:
  assumes "n < 256 ^ 32"
  shows "minimal_integer (der_content n)" "unat (hd (der_content n)) < 128"
    "be_nat (der_content n) = n" "length (der_content n) \<le> 33" "der_content n \<noteq> []"
proof -
  have len: "length (be_min n) \<le> 32" by (rule length_be_min [OF assms])
  have h0: "unat (hd (be_min n)) \<noteq> 0" if "be_min n \<noteq> []"
    using be_min_head [OF that] by (simp add: unat_eq_0)
  show "minimal_integer (der_content n)"
    using h0 by (cases "be_min n"; cases "tl (be_min n)")
      (auto simp: der_content_def minimal_integer_def Let_def unat_eq_0 split: list.splits)
  show "unat (hd (der_content n)) < 128" by (auto simp: der_content_def Let_def)
  show "be_nat (der_content n) = n" by (simp add: der_content_def Let_def be_nat_min be_nat_Cons0)
  show "length (der_content n) \<le> 33" using len by (auto simp: der_content_def Let_def)
  show "der_content n \<noteq> []" by (simp add: der_content_def Let_def)
qed

lemma asn1_element_short:
  "length c < 128 \<Longrightarrow> asn1_element t (t # word_of_nat (length c) # c @ rest) = Some (c, rest)"
  by simp

lemma asn1_integer_der: "n < 256 ^ 32 \<Longrightarrow> asn1_integer (der_uint n @ rest) = Some (int n, rest)"
  using der_content_facts [of n] asn1_element_short [of "der_content n" 2 rest]
  by (simp add: asn1_integer_def der_uint_def del: asn1_element.simps)

lemma parse_der_sig:
  assumes "r < 256 ^ 32" and "s < 256 ^ 32"
  shows "parseECDSADER E (der_sig r s) = Ok (int r, int s)"
proof -
  have "length (der_uint r @ der_uint s) < 128"
    using der_content_facts(4) [OF assms(1)] der_content_facts(4) [OF assms(2)] by (simp add: der_uint_def)
  then have "asn1_element 0x30 (der_sig r s @ []) = Some (der_uint r @ der_uint s, [])"
    unfolding der_sig_def append_Cons by (rule asn1_element_short)
  then show ?thesis
    using asn1_integer_der [OF assms(1), of "der_uint s"] asn1_integer_der [OF assms(2), of "[]"]
    by (simp add: parseECDSADER_def del: asn1_element.simps)
qed

section \<open>Properties of the signature\<close>

text \<open>C31 (roundtrip): whatever ECDSA signature the signer returns in DER (any two numbers below
  \<open>2 ^ 256\<close>, with or without a leading zero octet), the raw COSE signature is 64 bytes from which
  the two numbers are read back.\<close>

theorem raw_signature_roundtrip:
  assumes "r < 2 ^ 256" and "s < 2 ^ 256"
    and "jo_sign_digest L signer (sha256 data) (w_rand w) = (Inr (der_sig r s), rnd)"
  shows "\<exists>out. fst (signRawP1363 L E signer data w) = Ok out \<and> length out = 64 \<and>
    be_nat (take 32 out) = r \<and> be_nat (drop 32 out) = s"
proof -
  have lt: "r < 256 ^ 32" "s < 256 ^ 32" using assms(1,2) by simp_all
  have "fst (signRawP1363 L E signer data w) = Ok (be_fixed 32 r @ be_fixed 32 s)"
    using lt by (simp add: signRawP1363_def assms(3) parse_der_sig FillBytes_def del: power_numeral)
  then show ?thesis using lt by (simp add: be_nat_fixed)
qed

lemma der_sig_1_2: "der_sig 1 2 = [0x30, 6, 2, 1, 1, 2, 1, 2]"
  by (simp add: der_sig_def der_uint_def der_content_def be_min.simps)

theorem raw_signature_roundtrip_witness:
  "\<exists>out. fst (signRawP1363 plain_jose_out (\<lambda>_. []) ''sk'' [1, 2, 3] zero_world) = Ok out \<and>
     length out = 64 \<and> be_nat (take 32 out) = 1 \<and> be_nat (drop 32 out) = 2"
  by (rule raw_signature_roundtrip [where rnd = "w_rand zero_world"])
    (simp_all add: plain_jose_out_def der_sig_1_2 [unfolded One_nat_def])

lemma signRawP1363_panics:
  "(\<exists>p. fst (signRawP1363 L E signer data w) = Panic p) \<longleftrightarrow>
   (\<exists>der rnd r s. jo_sign_digest L signer (sha256 data) (w_rand w) = (Inr der, rnd) \<and>
      parseECDSADER E der = Ok (r, s) \<and> (2 ^ 256 \<le> \<bar>r\<bar> \<or> 2 ^ 256 \<le> \<bar>s\<bar>))"
proof (cases "jo_sign_digest L signer (sha256 data) (w_rand w)")
  case (Pair res rnd)
  have np: "parseECDSADER E der \<noteq> Panic p" for der p by (simp add: parseECDSADER_def)
  have fit: "(256 :: int) ^ 32 = 2 ^ 256" by simp
  show ?thesis
  proof (cases res)
    case (Inr der)
    show ?thesis
    proof (cases "parseECDSADER E der")
      case (Ok rs)
      then show ?thesis
        by (cases rs) (auto simp: signRawP1363_def Pair Inr FillBytes_def fit nat_less_iff not_less simp del: power_numeral)
    qed (use Pair Inr np in \<open>auto simp: signRawP1363_def\<close>)
  qed (auto simp: signRawP1363_def Pair)
qed

text \<open>C32 (error): the signing step panics exactly when the signer's answer parses as two integers of
  which one does not fit 32 bytes; every other malformed answer is an error. The integers are not
  checked against the order of the curve, nor for their sign.\<close>

theorem oversized_signature_panics:
  "(\<exists>p. fst (signRawP1363 L E signer data w) = Panic p) \<longleftrightarrow>
   (\<exists>der rnd r s. jo_sign_digest L signer (sha256 data) (w_rand w) = (Inr der, rnd) \<and>
      parseECDSADER E der = Ok (r, s) \<and> (2 ^ 256 \<le> \<bar>r\<bar> \<or> 2 ^ 256 \<le> \<bar>s\<bar>))"
  by (rule signRawP1363_panics)

text \<open>A signer whose answers, where they parse, are integers of at most 32 bytes; with such a signer building
  a document ends in a value or an error.\<close>

definition fits_p256 :: "('k, 'sg) jose_out \<Rightarrow> (bytes \<Rightarrow> string) \<Rightarrow> 'sg \<Rightarrow> bool" where
  "fits_p256 L E signer \<longleftrightarrow>
     (\<forall>d rnd der rnd' r s. jo_sign_digest L signer d rnd = (Inr der, rnd') \<and> parseECDSADER E der = Ok (r, s) \<longrightarrow>
        \<bar>r\<bar> < 2 ^ 256 \<and> \<bar>s\<bar> < 2 ^ 256)"

lemma fits_p256D:
  "fits_p256 L E signer \<Longrightarrow> jo_sign_digest L signer d rnd = (Inr der, rnd') \<Longrightarrow> parseECDSADER E der = Ok (r, s) \<Longrightarrow>
   \<bar>r\<bar> < 2 ^ 256 \<and> \<bar>s\<bar> < 2 ^ 256"
  unfolding fits_p256_def by blast

lemma signRawP1363_no_panic:
  assumes "fits_p256 L E signer"
  shows "fst (signRawP1363 L E signer data w) \<noteq> Panic p"
proof
  assume "fst (signRawP1363 L E signer data w) = Panic p"
  then obtain der rnd r s where "jo_sign_digest L signer (sha256 data) (w_rand w) = (Inr der, rnd)"
    "parseECDSADER E der = Ok (r, s)" "2 ^ 256 \<le> \<bar>r\<bar> \<or> 2 ^ 256 \<le> \<bar>s\<bar>"
    using signRawP1363_panics [of L E signer data w] by blast
  with fits_p256D [OF assms, of "sha256 data" "w_rand w" der rnd r s] show False by linarith
qed

lemma build_items_no_panic: "fst (build_items C i es nd w) \<noteq> Panic p"
proof (induction es arbitrary: i nd w)
  case (Cons e es)
  then show ?case
    unfolding build_items.simps
    by (intro st_then_no_panic) (simp_all add: buildIssuerSignedItem_def cbor_Marshal_def split_beta Let_def)
qed simp

lemma deviceKeyFromJWK_no_panic: "deviceKeyFromJWK L k \<noteq> Panic p"
  unfolding deviceKeyFromJWK_def by (auto simp: then_ok_Panic_iff)

lemma mdoc_no_panic:
  assumes "fits_p256 L E (sk_signer (mb_issuerKey b))"
  shows "fst (BuildBase64URL L C E b w) \<noteq> Panic p"
proof -
  have dk: "device_key L dk \<noteq> Panic p" for dk
    by (auto simp: device_key_def then_ok_Panic_iff deviceKeyFromJWK_no_panic split: option.split)
  have sg: "fst (signCoseSign1 L C E pl (sk_signer (mb_issuerKey b)) x w) \<noteq> Panic p" for pl x w
    unfolding signCoseSign1_def by (intro st_then_no_panic) (simp_all add: signRawP1363_no_panic [OF assms] cbor_Marshal_def)
  show ?thesis
    unfolding BuildBase64URL_def mdoc_Build_def Let_def split_beta buildNamespaceItems_def
    by (intro st_then_no_panic) (simp_all add: build_items_no_panic dk sg cbor_Marshal_def)
qed

section \<open>Properties of the document\<close>

text \<open>
  \<open>items_ok C es ts ds\<close>: item \<open>i\<close> is the tagged encoding of element \<open>i\<close> with digest id \<open>i\<close>, and the
  digest map assigns to \<open>i\<close> the SHA-256 of exactly those bytes, and nothing to other ids.
\<close>

definition item_ok :: "cbor_lib \<Rightarrow> int \<Rightarrow> element \<Rightarrow> bytes \<Rightarrow> bool" where
  "item_ok C i e t \<longleftrightarrow>
     (\<exists>random item. length random = 16 \<and> C (item_value i random e) = Inr item \<and> C (BTag 24 (BBytes item)) = Inr t)"

definition items_ok :: "cbor_lib \<Rightarrow> element list \<Rightarrow> bytes list \<Rightarrow> (int, bytes) gomap \<Rightarrow> bool" where
  "items_ok C es ts ds \<longleftrightarrow> length ts = length es \<and> gm_wf ds \<and>
     (\<forall>i < length es. item_ok C (int i) (es ! i) (ts ! i)) \<and>
     (\<forall>j. gm_get ds j = (if 0 \<le> j \<and> j < int (length es) then Some (sha256 (ts ! nat j)) else None))"

lemma items_ok_snoc:
  assumes "items_ok C es ts ds" and "item_ok C (int (length es)) e t"
  shows "items_ok C (es @ [e]) (ts @ [t]) (gm_put (int (length es)) (sha256 t) ds)"
proof -
  have len: "length ts = length es" using assms(1) by (simp add: items_ok_def)
  have get: "gm_get (gm_put (int (length es)) (sha256 t) ds) j =
      (if 0 \<le> j \<and> j < int (length (es @ [e])) then Some (sha256 ((ts @ [t]) ! nat j)) else None)" for j
  proof (cases "j = int (length es)")
    case True
    then show ?thesis using len by (simp add: nth_append)
  next
    case False
    then show ?thesis using assms(1) len by (auto simp: items_ok_def nth_append)
  qed
  have it: "item_ok C (int i) ((es @ [e]) ! i) ((ts @ [t]) ! i)" if "i < length (es @ [e])" for i
    using that assms len by (cases "i = length es") (auto simp: items_ok_def nth_append)
  have wf: "gm_wf (gm_put (int (length es)) (sha256 t) ds)" using assms(1) by (simp add: items_ok_def)
  show ?thesis
    unfolding items_ok_def
    by (intro conjI allI impI) (simp add: len, rule wf, rule it, assumption, rule get)
qed

lemma build_items_Ok:
  assumes "build_items C (int (length seen)) es nd w = (Ok nd', w')"
    and "items_ok C seen (nd_taggedItems nd) (nd_digests nd)"
  shows "items_ok C (seen @ es) (nd_taggedItems nd') (nd_digests nd')"
  using assms
proof (induction es arbitrary: seen nd w)
  case (Cons e es)
  obtain item w1 tagged where
    it: "buildIssuerSignedItem C (int (length seen)) e w = (Ok item, w1)"
    and tg: "C (BTag 24 (BBytes item)) = Inr tagged"
    and rest: "build_items C (int (length seen) + 1) es
        (nd\<lparr>nd_taggedItems := nd_taggedItems nd @ [tagged],
            nd_digests := gm_put (int (length seen)) (sha256 tagged) (nd_digests nd)\<rparr>) w1 = (Ok nd', w')"
    using Cons.prems(1) by (auto simp: st_then_Ok_iff cbor_Marshal_def of_sum_Ok_iff)
  have "item_ok C (int (length seen)) e tagged"
    unfolding item_ok_def using it tg
    by (intro exI [of _ "fst (rand_read 16 (w_rand w))"] exI [of _ item])
      (auto simp: buildIssuerSignedItem_def cbor_Marshal_def of_sum_Ok_iff split_beta Let_def)
  then have "items_ok C (seen @ [e]) (nd_taggedItems nd @ [tagged])
      (gm_put (int (length seen)) (sha256 tagged) (nd_digests nd))"
    using items_ok_snoc [OF Cons.prems(2)] by simp
  with Cons.IH [of "seen @ [e]"] rest show ?case by (simp add: add.commute)
qed simp

text \<open>A COSE_Sign1 structure over \<open>payload\<close>.\<close>

definition cose_signed ::
  "('k, 'sg) jose_out \<Rightarrow> cbor_lib \<Rightarrow> (bytes \<Rightarrow> string) \<Rightarrow> 'sg \<Rightarrow> bytes list \<Rightarrow> bytes \<Rightarrow> bytes \<Rightarrow> bool" where
  "cose_signed L C E signer x5c payload auth \<longleftrightarrow>
     (\<exists>prot tbs sig w. C (BMap [(BInt 1, BInt (- 7))]) = Inr prot \<and>
        C (BTuple [BText ''Signature1'', BBytes prot, BBytes [], BBytes payload]) = Inr tbs \<and>
        fst (signRawP1363 L E signer tbs w) = Ok sig \<and>
        C (BTuple [BBytes prot, unprotected_header x5c, BBytes payload, BBytes sig]) = Inr auth)"

lemma signCoseSign1_Ok:
  "signCoseSign1 L C E payload signer x5c w = (Ok auth, w') \<Longrightarrow> cose_signed L C E signer x5c payload auth"
  unfolding signCoseSign1_def cose_signed_def coseHeaderAlg_def coseAlgES256_def
  by (auto simp: st_then_Ok_iff cbor_Marshal_def of_sum_Ok_iff) (metis fst_conv)

text \<open>C30 (functional): an issued mdoc is consistent. Each element of the document appears as one tagged
  item; the signed security object maps exactly the digest ids \<open>0 \<dots> n - 1\<close> to the SHA-256 of the
  items as they are transmitted, names the document type and carries the wallet's key; and the issuer
  signature is over the tagged encoding of that security object.\<close>

theorem mdoc_consistent:
  assumes "mdoc_Build L C E b w = (Ok out, w')"
  shows "\<exists>ts ds dk now mso payload auth. items_ok C (mb_elements b) ts ds \<and>
    device_key L (mb_deviceKey b) = Ok dk \<and>
    C (mso_value (mb_docType b) (mb_namespace b) ds dk now (mb_validityDays b)) = Inr mso \<and>
    C (BTag 24 (BBytes mso)) = Inr payload \<and>
    cose_signed L C E (sk_signer (mb_issuerKey b)) (mb_x5cChain b) payload auth \<and>
    C (BStruct [(BText ''issuerAuth'', BRaw auth),
        (BText ''nameSpaces'', BMap [(BText (mb_namespace b), BList (map BRaw ts))])]) = Inr out"
proof -
  obtain nd w1 dk now mso payload auth w2 where
    nd: "buildNamespaceItems C (mb_elements b) w = (Ok nd, w1)"
    and rest: "device_key L (mb_deviceKey b) = Ok dk"
      "C (mso_value (mb_docType b) (mb_namespace b) (nd_digests nd) dk now (mb_validityDays b)) = Inr mso"
      "C (BTag 24 (BBytes mso)) = Inr payload"
      "C (BStruct [(BText ''issuerAuth'', BRaw auth),
         (BText ''nameSpaces'', BMap [(BText (mb_namespace b), BList (map BRaw (nd_taggedItems nd)))])]) = Inr out"
    and sg: "signCoseSign1 L C E payload (sk_signer (mb_issuerKey b)) (mb_x5cChain b) w2 = (Ok auth, w')"
    using assms unfolding mdoc_Build_def Let_def split_beta
    by (auto simp: st_then_Ok_iff cbor_Marshal_def of_sum_Ok_iff)
  have "items_ok C (mb_elements b) (nd_taggedItems nd) (nd_digests nd)"
    using build_items_Ok [of C "[]" "mb_elements b" "\<lparr>nd_taggedItems = [], nd_digests = []\<rparr>" w nd w1] nd
    by (simp add: buildNamespaceItems_def items_ok_def)
  with rest signCoseSign1_Ok [OF sg] show ?thesis by blast
qed

definition sample_mdoc :: "(string, string) mdoc_builder" where
  "sample_mdoc = mdoc_Element ''given_name'' ''Ana'' (mdoc_DeviceKey ''k'' (mdoc_NewBuilder plain_key))"

theorem mdoc_consistent_witness:
  "\<exists>ts ds. items_ok (\<lambda>_. Inr [7]) (mb_elements sample_mdoc) ts ds \<and> gm_get ds 0 = Some (sha256 [7])"
proof -
  have ec: "jo_ec_point plain_jose_out k = Some (Some [1], Some [2])" for k
    by (simp add: plain_jose_out_def)
  have sg: "signRawP1363 plain_jose_out (\<lambda>_. []) ''sk'' [7] w = (Ok (be_fixed 32 1 @ be_fixed 32 2), w)" for w
    using parse_der_sig [of 1 2]
    by (simp add: signRawP1363_def plain_jose_out_def der_sig_1_2 [unfolded One_nat_def] FillBytes_def)
  obtain out w' where run: "mdoc_Build plain_jose_out (\<lambda>_. Inr [7]) (\<lambda>_. []) sample_mdoc zero_world = (Ok out, w')"
  proof -
    have "\<exists>out. fst (mdoc_Build plain_jose_out (\<lambda>_. Inr [7]) (\<lambda>_. []) sample_mdoc zero_world) = Ok out"
      unfolding mdoc_Build_def Let_def split_beta
      by (simp add: buildNamespaceItems_def sample_mdoc_def mdoc_Element_def mdoc_DeviceKey_def
          mdoc_NewBuilder_def buildIssuerSignedItem_def cbor_Marshal_def device_key_def deviceKeyFromJWK_def
          signCoseSign1_def plain_key_def Let_def split_beta sg ec)
    then show thesis using that by (metis prod.collapse)
  qed
  from mdoc_consistent [OF run] obtain ts ds where
    ok: "items_ok (\<lambda>_. Inr [7]) (mb_elements sample_mdoc) ts ds" by blast
  have len: "length (mb_elements sample_mdoc) = 1"
    by (simp add: sample_mdoc_def mdoc_Element_def mdoc_DeviceKey_def mdoc_NewBuilder_def)
  with ok have "item_ok (\<lambda>_. Inr [7]) 0 (mb_elements sample_mdoc ! 0) (ts ! 0)"
    by (auto simp: items_ok_def)
  then have "ts ! 0 = [7]" by (simp add: item_ok_def)
  with ok len have "gm_get ds 0 = Some (sha256 [7])" by (simp add: items_ok_def)
  with ok show ?thesis by blast
qed

end
