(* ===== verification/Access_Token.thy ===== *)
theory Access_Token
  imports Jose OAuth_Error
begin

text \<open>
  \<open>internal/accesstoken/verifier.go\<close>: verification of the authorization server's JWT access tokens
  with two caches, the JWK Set (stale keys are tolerated when the server is unreachable) and the
  revocation denylist (stale entries are not). The verifier is threaded as a state. What the
  network answers and the instants at which the clock is read are inputs, collected in \<open>as_world\<close>:
  each mutex-protected section reads the clock once to decide whether its cache has expired and,
  after a fetch, once more to set the new expiry.
\<close>

section \<open>The verifier\<close>

definition tokenType :: string where
  "tokenType = ''at+jwt''"

record token_claims =
  c_IssuanceRecordID :: string
  c_CNonce :: string
  c_JKT :: string
  c_JTI :: string

record 'ks verifier =
  v_issuer :: string
  v_audience :: string
  v_jwksURL :: string
  v_revokedURL :: string
  v_keys :: "'ks option"
  v_keysExp :: instant
  v_revoked :: "(string, unit) gomap"
  v_revokedExp :: instant

definition jwksCacheTTL :: duration where "jwksCacheTTL = 60 * second"
definition revokedCacheTTL :: duration where "revokedCacheTTL = 2 * second"

definition NewVerifier :: "string \<Rightarrow> string \<Rightarrow> string \<Rightarrow> 'ks verifier" where
  "NewVerifier issuer audience asBaseURL =
     \<lparr>v_issuer = issuer, v_audience = audience,
      v_jwksURL = asBaseURL @ ''/oid4vci/v1/jwks'',
      v_revokedURL = asBaseURL @ ''/oid4vci/v1/revoked-tokens'',
      v_keys = None, v_keysExp = zero_time, v_revoked = [], v_revokedExp = zero_time\<rparr>"

record as_world =
  aw_keys_reply :: http_reply
  aw_keys_now :: instant
  aw_keys_fetched :: instant
  aw_jwt_now :: instant
  aw_revoked_reply :: http_reply
  aw_revoked_now :: instant
  aw_revoked_fetched :: instant

section \<open>The JWK Set\<close>

definition fetch_body :: "string \<Rightarrow> http_reply \<Rightarrow> (string \<Rightarrow> go_error) \<Rightarrow> string result" where
  "fetch_body u reply read_err =
     (case reply of
        ReqErr e \<Rightarrow> Err (Plain e)
      | NetErr e \<Rightarrow> Err (Plain (''accesstoken: fetching '' @ u @ '': '' @ e))
      | Reply st body \<Rightarrow>
          if st \<noteq> 200 then
            Err (Plain (''accesstoken: fetching '' @ u @ '': unexpected status '' @ show_int st))
          else of_sum read_err body)"

definition fetchKeys :: "('k, 'ks) jose \<Rightarrow> string \<Rightarrow> http_reply \<Rightarrow> 'ks result" where
  "fetchKeys J u reply =
     then_ok (fetch_body u reply (\<lambda>e. Plain (''accesstoken: reading '' @ u @ '': '' @ e)))
       (\<lambda>body. of_sum Plain (jwk_set_parse J body))"

definition keySet ::
  "('k, 'ks) jose \<Rightarrow> instant \<Rightarrow> instant \<Rightarrow> http_reply \<Rightarrow> 'ks verifier \<Rightarrow> 'ks result \<times> 'ks verifier"
where
  "keySet J now fetched reply v =
     (case v_keys v of
        Some keys \<Rightarrow>
          if now < v_keysExp v then (Ok keys, v)
          else (case fetchKeys J (v_jwksURL v) reply of
                  Ok keys' \<Rightarrow> (Ok keys', v\<lparr>v_keys := Some keys', v_keysExp := fetched + jwksCacheTTL\<rparr>)
                | _ \<Rightarrow> (Ok keys, v))
      | None \<Rightarrow>
          (case fetchKeys J (v_jwksURL v) reply of
             Ok keys' \<Rightarrow> (Ok keys', v\<lparr>v_keys := Some keys', v_keysExp := fetched + jwksCacheTTL\<rparr>)
           | Err e \<Rightarrow> (Err e, v)
           | Panic p \<Rightarrow> (Panic p, v)))"

section \<open>The denylist\<close>

definition assign_revoked :: "string \<Rightarrow> string json \<Rightarrow> string list \<Rightarrow> string list option" where
  "assign_revoked n v old = decode_string_list v"

definition fetchRevoked ::
  "float_ops \<Rightarrow> string \<Rightarrow> http_reply \<Rightarrow> (string, unit) gomap result" where
  "fetchRevoked fo u reply =
     then_ok (fetch_body u reply (\<lambda>e. Plain (''accesstoken: decoding revocation list: '' @ e))) (\<lambda>body.
     then_ok (of_option (Plain (''accesstoken: decoding revocation list: '' @ json_error fo body))
       (Option.bind (decode_first body) (decode_struct [''revoked_jti''] assign_revoked []))) (\<lambda>jtis.
     Ok (foldl (\<lambda>m j. gm_put j () m) [] jtis)))"

definition isRevoked ::
  "float_ops \<Rightarrow> instant \<Rightarrow> instant \<Rightarrow> http_reply \<Rightarrow> string \<Rightarrow> 'ks verifier \<Rightarrow>
   bool result \<times> 'ks verifier" where
  "isRevoked fo now fetched reply jti v =
     (if now > v_revokedExp v then
        (case fetchRevoked fo (v_revokedURL v) reply of
           Ok revoked \<Rightarrow>
             (Ok (gm_get revoked jti \<noteq> None),
              v\<lparr>v_revoked := revoked, v_revokedExp := fetched + revokedCacheTTL\<rparr>)
         | Err e \<Rightarrow> (Err e, v)
         | Panic p \<Rightarrow> (Panic p, v))
      else (Ok (gm_get (v_revoked v) jti \<noteq> None), v))"

section \<open>Verification\<close>

definition invalid_access_token :: go_error where
  "invalid_access_token = Unauthorized InvalidToken ''Invalid access token''"

definition unreachable_error :: go_error where
  "unreachable_error =
     ServiceUnavailable InvalidToken ''Cannot verify access token: authorization server unreachable''"

definition requireAccessTokenType :: "('k, 'ks) jose \<Rightarrow> string \<Rightarrow> unit result" where
  "requireAccessTokenType J token =
     then_ok (of_sum (\<lambda>_. invalid_access_token) (jws_parse J token)) (\<lambda>sigs.
     then_ok (fail_if (length sigs \<noteq> 1) invalid_access_token) (\<lambda>_.
     fail_if (h_typ (hd sigs) \<noteq> Some tokenType \<and> h_typ (hd sigs) \<noteq> Some (''application/'' @ tokenType))
       (Unauthorized InvalidToken ''Access token typ must be at+jwt'')))"

definition cnf_jkt :: "(string, f64 json) gomap \<Rightarrow> string" where
  "cnf_jkt cnf = (case gm_get cnf ''jkt'' of Some (JStr s) \<Rightarrow> s | _ \<Rightarrow> [])"

definition not_bound_error :: go_error where
  "not_bound_error = Unauthorized InvalidToken ''Access token is not DPoP-bound''"

definition Verify ::
  "float_ops \<Rightarrow> ('k, 'ks) jose \<Rightarrow> as_world \<Rightarrow> string \<Rightarrow> 'ks verifier \<Rightarrow>
   token_claims result \<times> 'ks verifier" where
  "Verify fo J w token v0 =
     (case keySet J (aw_keys_now w) (aw_keys_fetched w) (aw_keys_reply w) v0 of
        (Err _, v) \<Rightarrow> (Err unreachable_error, v)
      | (Panic p, v) \<Rightarrow> (Panic p, v)
      | (Ok keys, v) \<Rightarrow>
          st_then (requireAccessTokenType J token, v) (\<lambda>_ v.
          st_then (of_option invalid_access_token
                     (jwt_verify_set J keys (v_issuer v) (v_audience v) (aw_jwt_now w) token), v)
            (\<lambda>parsed v.
          let jti = (case tok_jti parsed of Some j \<Rightarrow> j | None \<Rightarrow> []) in
          st_then (fail_if (jti = []) invalid_access_token, v) (\<lambda>_ v.
          (case isRevoked fo (aw_revoked_now w) (aw_revoked_fetched w) (aw_revoked_reply w) jti v of
             (Err _, v) \<Rightarrow> (Err unreachable_error, v)
           | (Panic p, v) \<Rightarrow> (Panic p, v)
           | (Ok revoked, v) \<Rightarrow>
               st_then (fail_if revoked
                 (Unauthorized InvalidToken ''Access token has been revoked''), v) (\<lambda>_ v.
               st_then (of_option not_bound_error (tok_object parsed ''cnf''), v) (\<lambda>cnf v.
               st_then (fail_if (cnf_jkt cnf = []) not_bound_error, v) (\<lambda>_ v.
               (Ok \<lparr>c_IssuanceRecordID = get_or_empty parsed ''issuance_record_id'',
                    c_CNonce = get_or_empty parsed ''c_nonce'',
                    c_JKT = cnf_jkt cnf, c_JTI = jti\<rparr>, v)))))))))"

section \<open>Facts\<close>



lemma fetch_body_cases: "fetch_body u reply re \<noteq> Panic p"
  by (auto simp: fetch_body_def split: http_reply.splits)

lemma fetchKeys_no_panic: "fetchKeys J u reply \<noteq> Panic p"
  using fetch_body_cases by (cases "fetch_body u reply (\<lambda>e. Plain (''accesstoken: reading '' @ u @ '': '' @ e))")
    (auto simp: fetchKeys_def)

lemma fetchRevoked_no_panic: "fetchRevoked fo u reply \<noteq> Panic p"
  unfolding fetchRevoked_def Let_def by (intro then_ok_no_panic) (simp_all add: fetch_body_cases)

lemma fetchRevoked_wf: "fetchRevoked fo u reply = Ok m \<Longrightarrow> gm_wf m"
proof -
  have "gm_wf m0 \<Longrightarrow> gm_wf (foldl (\<lambda>m j. gm_put j () m) m0 js)" for m0 :: "(string, unit) gomap" and js
    by (induction js arbitrary: m0) auto
  then show "fetchRevoked fo u reply = Ok m \<Longrightarrow> gm_wf m"
    by (auto simp: fetchRevoked_def go_outcome)
qed

lemma keySet_config [simp]:
  "v_issuer (snd (keySet J now t r v)) = v_issuer v" "v_audience (snd (keySet J now t r v)) = v_audience v"
  "v_revoked (snd (keySet J now t r v)) = v_revoked v" "v_revokedExp (snd (keySet J now t r v)) = v_revokedExp v"
  "v_revokedURL (snd (keySet J now t r v)) = v_revokedURL v"
  by (auto simp: keySet_def split: option.splits outcome.splits)

lemma keySet_no_panic: "fst (keySet J now t r v) \<noteq> Panic p"
  using fetchKeys_no_panic by (auto simp: keySet_def split: option.splits outcome.splits)

lemma isRevoked_no_panic: "fst (isRevoked fo now t r jti v) \<noteq> Panic p"
  using fetchRevoked_no_panic by (auto simp: isRevoked_def split: outcome.splits)

text \<open>Stale keys never turn into an error once a key set has been fetched.\<close>

lemma keySet_keeps_serving:
  "v_keys v \<noteq> None \<Longrightarrow> (\<exists>keys. fst (keySet J now t r v) = Ok keys) \<and> v_keys (snd (keySet J now t r v)) \<noteq> None"
  by (auto simp: keySet_def split: outcome.splits)

lemma requireAccessTokenType_no_panic: "requireAccessTokenType J token \<noteq> Panic p"
  unfolding requireAccessTokenType_def by (intro then_ok_no_panic) simp_all

lemma requireAccessTokenType_Err:
  "requireAccessTokenType J token = Err e \<Longrightarrow> \<exists>d. e = Unauthorized InvalidToken d"
  by (auto simp: requireAccessTokenType_def go_outcome invalid_access_token_def)

lemma requireAccessTokenType_Ok:
  "requireAccessTokenType J token = Ok u \<longleftrightarrow>
   (\<exists>h. jws_parse J token = Inr [h] \<and> h_typ h \<in> {Some ''at+jwt'', Some ''application/at+jwt''})"
  by (auto simp: requireAccessTokenType_def go_outcome tokenType_def length_Suc_conv)

text \<open>
  What a verified token guarantees. \<open>denylist\<close> is the list the verdict was based on: the cached one
  if it has not expired at the time of the check, otherwise the one fetched at that moment.
\<close>

definition denylist_used ::
  "float_ops \<Rightarrow> as_world \<Rightarrow> 'ks verifier \<Rightarrow> (string, unit) gomap option" where
  "denylist_used fo w v =
     (if aw_revoked_now w > v_revokedExp v then
        (case fetchRevoked fo (v_revokedURL v) (aw_revoked_reply w) of Ok m \<Rightarrow> Some m | _ \<Rightarrow> None)
      else Some (v_revoked v))"

definition token_ok ::
  "float_ops \<Rightarrow> ('k, 'ks) jose \<Rightarrow> as_world \<Rightarrow> 'ks verifier \<Rightarrow> string \<Rightarrow> token_claims \<Rightarrow> bool" where
  "token_ok fo J w v token c \<longleftrightarrow>
     (\<exists>h keys tok cnf denied.
        jws_parse J token = Inr [h] \<and> h_typ h \<in> {Some ''at+jwt'', Some ''application/at+jwt''} \<and>
        fst (keySet J (aw_keys_now w) (aw_keys_fetched w) (aw_keys_reply w) v) = Ok keys \<and>
        jwt_verify_set J keys (v_issuer v) (v_audience v) (aw_jwt_now w) token = Some tok \<and>
        tok_jti tok = Some (c_JTI c) \<and> c_JTI c \<noteq> [] \<and>
        denylist_used fo w v = Some denied \<and> gm_get denied (c_JTI c) = None \<and>
        tok_object tok ''cnf'' = Some cnf \<and> gm_get cnf ''jkt'' = Some (JStr (c_JKT c)) \<and> c_JKT c \<noteq> [] \<and>
        c_IssuanceRecordID c = get_or_empty tok ''issuance_record_id'' \<and>
        c_CNonce c = get_or_empty tok ''c_nonce'')"

lemma isRevoked_Ok_iff:
  "(\<exists>v'. isRevoked fo (aw_revoked_now w) (aw_revoked_fetched w) (aw_revoked_reply w) jti v = (Ok b, v')) \<longleftrightarrow>
   (\<exists>m. denylist_used fo w v = Some m \<and> b = (gm_get m jti \<noteq> None))"
  by (auto simp: isRevoked_def denylist_used_def split: outcome.splits)

lemma cnf_jkt_iff: "cnf_jkt cnf = j \<and> j \<noteq> [] \<longleftrightarrow> gm_get cnf ''jkt'' = Some (JStr j) \<and> j \<noteq> []"
  by (auto simp: cnf_jkt_def split: option.splits json.splits)

lemma keySet_Ok_state:
  "keySet J now t r v = (Ok keys, v1) \<Longrightarrow>
   v_issuer v1 = v_issuer v \<and> v_audience v1 = v_audience v \<and> v_revoked v1 = v_revoked v \<and>
   v_revokedExp v1 = v_revokedExp v \<and> v_revokedURL v1 = v_revokedURL v"
  using keySet_config [of J now t r v] by simp

lemma isRevoked_unreachable:
  "(\<exists>e v'. isRevoked fo (aw_revoked_now w) (aw_revoked_fetched w) (aw_revoked_reply w) jti v = (Err e, v'))
   \<longleftrightarrow> denylist_used fo w v = None"
  using fetchRevoked_no_panic
  by (auto simp: isRevoked_def denylist_used_def split: outcome.splits)

lemma denylist_used_cong:
  "v_revoked v1 = v_revoked v \<Longrightarrow> v_revokedExp v1 = v_revokedExp v \<Longrightarrow> v_revokedURL v1 = v_revokedURL v
   \<Longrightarrow> denylist_used fo w v1 = denylist_used fo w v"
  by (simp add: denylist_used_def)

text \<open>The verdict of \<^term>\<open>isRevoked\<close> is one of three, which splits \<^term>\<open>Verify\<close> into its paths.\<close>

lemma isRevoked_cases:
  obtains (unreachable) e v' where
      "isRevoked fo (aw_revoked_now w) (aw_revoked_fetched w) (aw_revoked_reply w) jti v = (Err e, v')"
      "denylist_used fo w v = None"
  | (listed) m v' where
      "isRevoked fo (aw_revoked_now w) (aw_revoked_fetched w) (aw_revoked_reply w) jti v = (Ok True, v')"
      "denylist_used fo w v = Some m" "gm_get m jti \<noteq> None"
  | (clear) m v' where
      "isRevoked fo (aw_revoked_now w) (aw_revoked_fetched w) (aw_revoked_reply w) jti v = (Ok False, v')"
      "denylist_used fo w v = Some m" "gm_get m jti = None"
proof (cases "isRevoked fo (aw_revoked_now w) (aw_revoked_fetched w) (aw_revoked_reply w) jti v")
  case (Pair r v')
  show ?thesis
  proof (cases r)
    case (Ok b)
    then obtain m where m: "denylist_used fo w v = Some m" "b = (gm_get m jti \<noteq> None)"
      using Pair isRevoked_Ok_iff by metis
    show ?thesis
    proof (cases b)
      case True
      show ?thesis by (rule listed [of v' m]) (use Pair Ok m True in auto)
    next
      case False
      show ?thesis by (rule clear [of v' m]) (use Pair Ok m False in auto)
    qed
  next
    case (Err e)
    then show ?thesis using Pair unreachable isRevoked_unreachable by metis
  next
    case (Panic q)
    then show ?thesis using Pair isRevoked_no_panic by (metis fst_conv)
  qed
qed

text \<open>The checks made once the key set is known, as one pure function.\<close>

definition token_checks ::
  "float_ops \<Rightarrow> ('k, 'ks) jose \<Rightarrow> as_world \<Rightarrow> string \<Rightarrow> 'ks verifier \<Rightarrow> 'ks \<Rightarrow> token_claims result" where
  "token_checks fo J w token v keys =
     then_ok (requireAccessTokenType J token) (\<lambda>_.
     then_ok (of_option invalid_access_token
       (jwt_verify_set J keys (v_issuer v) (v_audience v) (aw_jwt_now w) token)) (\<lambda>parsed.
     let jti = (case tok_jti parsed of Some j \<Rightarrow> j | None \<Rightarrow> []) in
     then_ok (fail_if (jti = []) invalid_access_token) (\<lambda>_.
     then_ok (of_option unreachable_error (denylist_used fo w v)) (\<lambda>denied.
     then_ok (fail_if (gm_get denied jti \<noteq> None)
       (Unauthorized InvalidToken ''Access token has been revoked'')) (\<lambda>_.
     then_ok (of_option not_bound_error (tok_object parsed ''cnf'')) (\<lambda>cnf.
     then_ok (fail_if (cnf_jkt cnf = []) not_bound_error) (\<lambda>_.
     Ok \<lparr>c_IssuanceRecordID = get_or_empty parsed ''issuance_record_id'',
         c_CNonce = get_or_empty parsed ''c_nonce'', c_JKT = cnf_jkt cnf, c_JTI = jti\<rparr>)))))))"

lemma fst_Verify:
  "fst (Verify fo J w token v) =
     (case fst (keySet J (aw_keys_now w) (aw_keys_fetched w) (aw_keys_reply w) v) of
        Ok keys \<Rightarrow> token_checks fo J w token v keys
      | _ \<Rightarrow> Err unreachable_error)"
proof (cases "keySet J (aw_keys_now w) (aw_keys_fetched w) (aw_keys_reply w) v")
  case (Pair r v1)
  show ?thesis
  proof (cases r)
    case (Ok keys)
    note same = keySet_Ok_state [OF Pair [unfolded Ok]]
    note start = Verify_def Pair Ok token_checks_def Let_def same
    show ?thesis
    proof (cases "requireAccessTokenType J token")
      case ty: (Ok u)
      show ?thesis
      proof (cases "jwt_verify_set J keys (v_issuer v) (v_audience v) (aw_jwt_now w) token")
        case None
        then show ?thesis by (simp add: start ty)
      next
        case (Some tok)
        let ?jti = "case tok_jti tok of Some j \<Rightarrow> j | None \<Rightarrow> []"
        have used: "denylist_used fo w v1 = denylist_used fo w v"
          using same by (intro denylist_used_cong) auto
        show ?thesis
        proof (cases "?jti = []")
          case True
          then show ?thesis by (simp add: start ty Some)
        next
          case False
          show ?thesis
            by (rule isRevoked_cases [of fo w ?jti v1])
              (use used False in \<open>simp_all add: start ty Some fst_st_then\<close>)
        qed
      qed
    qed (use requireAccessTokenType_no_panic in \<open>auto simp: start\<close>)
  next
    case (Err e)
    then show ?thesis by (simp add: Verify_def Pair)
  next
    case (Panic q)
    then show ?thesis using Pair keySet_no_panic by (metis fst_conv)
  qed
qed

definition claims_of :: "jwt_token \<Rightarrow> (string, f64 json) gomap \<Rightarrow> string \<Rightarrow> token_claims" where
  "claims_of tok cnf jti =
     \<lparr>c_IssuanceRecordID = get_or_empty tok ''issuance_record_id'',
      c_CNonce = get_or_empty tok ''c_nonce'', c_JKT = cnf_jkt cnf, c_JTI = jti\<rparr>"

lemma claims_of_iff:
  "cnf_jkt cnf \<noteq> [] \<and> claims_of tok cnf jti = c \<longleftrightarrow>
   gm_get cnf ''jkt'' = Some (JStr (c_JKT c)) \<and> c_JKT c \<noteq> [] \<and> c_JTI c = jti \<and>
   c_IssuanceRecordID c = get_or_empty tok ''issuance_record_id'' \<and> c_CNonce c = get_or_empty tok ''c_nonce''"
  by (cases c) (auto simp: claims_of_def cnf_jkt_def split: option.splits json.splits)

lemma token_checks_Ok_iff:
  assumes "fst (keySet J (aw_keys_now w) (aw_keys_fetched w) (aw_keys_reply w) v) = Ok keys"
  shows "token_checks fo J w token v keys = Ok c \<longleftrightarrow> token_ok fo J w v token c"
proof -
  have "token_checks fo J w token v keys = Ok c \<longleftrightarrow>
    (\<exists>tok jti denied cnf. requireAccessTokenType J token = Ok () \<and>
       jwt_verify_set J keys (v_issuer v) (v_audience v) (aw_jwt_now w) token = Some tok \<and>
       (case tok_jti tok of Some j \<Rightarrow> j | None \<Rightarrow> []) = jti \<and> jti \<noteq> [] \<and>
       denylist_used fo w v = Some denied \<and> gm_get denied jti = None \<and>
       tok_object tok ''cnf'' = Some cnf \<and> cnf_jkt cnf \<noteq> [] \<and> claims_of tok cnf jti = c)"
    unfolding token_checks_def Let_def claims_of_def [symmetric]
    by (simp add: then_ok_Ok_iff of_option_Ok_iff fail_if_Ok_iff)
  also have "\<dots> \<longleftrightarrow> token_ok fo J w v token c"
    unfolding claims_of_iff token_ok_def requireAccessTokenType_Ok assms
    by (auto split: option.splits)
  finally show ?thesis .
qed

lemma Verify_Ok_iff:
  "fst (Verify fo J w token v) = Ok c \<longleftrightarrow> token_ok fo J w v token c"
proof (cases "fst (keySet J (aw_keys_now w) (aw_keys_fetched w) (aw_keys_reply w) v)")
  case (Ok keys)
  then show ?thesis by (simp add: fst_Verify token_checks_Ok_iff)
qed (auto simp: fst_Verify token_ok_def)

lemma token_checks_Err:
  "token_checks fo J w token v keys = Err e \<Longrightarrow> (\<exists>d. e = Unauthorized InvalidToken d) \<or> e = unreachable_error"
  unfolding token_checks_def Let_def
  by (auto simp: go_outcome invalid_access_token_def not_bound_error_def requireAccessTokenType_Err
      dest!: requireAccessTokenType_Err)

lemma token_checks_no_panic: "token_checks fo J w token v keys \<noteq> Panic p"
  unfolding token_checks_def Let_def
  by (intro then_ok_no_panic) (simp_all add: requireAccessTokenType_no_panic)

lemma Verify_no_panic: "fst (Verify fo J w token v) \<noteq> Panic p"
  by (auto simp: fst_Verify token_checks_no_panic split: outcome.splits)

lemma Verify_fails_with: "fails_with {401, 503} (fst (Verify fo J w token v))"
  by (auto simp: fst_Verify fails_with_def unreachable_error_def split: outcome.splits
      dest!: token_checks_Err)

section \<open>Properties\<close>

text \<open>C21 (functional): an access token is accepted exactly when it is typed as an access token, is
  signed by a key of the authorization server's key set for this issuer and audience and is valid
  now, carries a token id that is absent from a current denylist, and is bound to a DPoP key; the
  claims returned are the token's own.\<close>

theorem verify_accepts_exactly:
  "fst (Verify fo J w token v) = Ok c \<longleftrightarrow> token_ok fo J w v token c"
  by (rule Verify_Ok_iff)


text \<open>Verification never panics, and whatever the token, the caches and the network do, a
  refusal is the OAuth error \<open>invalid_token\<close> with status 401, or 503 with one fixed text: the
  client does not learn which check failed beyond that text's fixed set, and never sees a bare
  error. Without a usable key set or denylist nothing is ever accepted.\<close>

theorem verify_rejections:
  "(\<forall>p. fst (Verify fo J w token v) \<noteq> Panic p) \<and>
   fails_with {401, 503} (fst (Verify fo J w token v)) \<and>
   \<not> (denylist_used fo w v = None \<and> is_ok (fst (Verify fo J w token v))) \<and>
   (is_ok (fst (keySet J (aw_keys_now w) (aw_keys_fetched w) (aw_keys_reply w) v)) \<or>
      fst (Verify fo J w token v) = Err unreachable_error)"
proof (intro conjI allI)
  show "fst (Verify fo J w token v) \<noteq> Panic p" for p by (rule Verify_no_panic)
  show "fails_with {401, 503} (fst (Verify fo J w token v))" by (rule Verify_fails_with)
  show "\<not> (denylist_used fo w v = None \<and> is_ok (fst (Verify fo J w token v)))"
    using Verify_Ok_iff [of fo J w token v]
    by (auto simp: is_ok_def token_ok_def split: outcome.splits)
qed (auto simp: fst_Verify split: outcome.splits)

text \<open>The states a verifier runs through while it checks a sequence of tokens.\<close>

definition Verify_state :: "float_ops \<Rightarrow> ('k, 'ks) jose \<Rightarrow> as_world \<Rightarrow> string \<Rightarrow> 'ks verifier \<Rightarrow> 'ks verifier" where
  "Verify_state fo J w token v = snd (Verify fo J w token v)"

fun verify_all ::
  "float_ops \<Rightarrow> ('k, 'ks) jose \<Rightarrow> (as_world \<times> string) list \<Rightarrow> 'ks verifier \<Rightarrow> 'ks verifier" where
  "verify_all fo J [] v = v"
| "verify_all fo J ((w, token) # ws) v = verify_all fo J ws (Verify_state fo J w token v)"

text \<open>
  The denylist a verifier holds is either the previous one or the one a fetch has just returned,
  and only then its expiry moves.
\<close>

lemma isRevoked_state:
  "(v_revoked (snd (isRevoked fo now t r jti v)) = v_revoked v \<and>
    v_revokedExp (snd (isRevoked fo now t r jti v)) = v_revokedExp v) \<or>
   (fetchRevoked fo (v_revokedURL v) r = Ok (v_revoked (snd (isRevoked fo now t r jti v))) \<and>
    v_revokedExp (snd (isRevoked fo now t r jti v)) = t + revokedCacheTTL)"
  by (auto simp: isRevoked_def split: outcome.splits)

lemma isRevoked_url [simp]: "v_revokedURL (snd (isRevoked fo now t r jti v)) = v_revokedURL v"
  by (auto simp: isRevoked_def split: outcome.splits)

definition denylist_step :: "float_ops \<Rightarrow> as_world \<Rightarrow> 'ks verifier \<Rightarrow> 'ks verifier \<Rightarrow> bool" where
  "denylist_step fo w v u \<longleftrightarrow> v_revokedURL u = v_revokedURL v \<and>
     ((v_revoked u = v_revoked v \<and> v_revokedExp u = v_revokedExp v) \<or>
      (fetchRevoked fo (v_revokedURL v) (aw_revoked_reply w) = Ok (v_revoked u) \<and>
       v_revokedExp u = aw_revoked_fetched w + revokedCacheTTL))"

lemma Verify_state_step: "denylist_step fo w v (Verify_state fo J w token v)"
proof -
  have same: "denylist_step fo w v u" if "v_revoked u = v_revoked v" "v_revokedExp u = v_revokedExp v"
    "v_revokedURL u = v_revokedURL v" for u v
    using that by (simp add: denylist_step_def)
  obtain r v1 where k: "keySet J (aw_keys_now w) (aw_keys_fetched w) (aw_keys_reply w) v = (r, v1)"
    by fastforce
  from k keySet_config [of J "aw_keys_now w" "aw_keys_fetched w" "aw_keys_reply w" v]
  have k1: "v_revoked v1 = v_revoked v" "v_revokedExp v1 = v_revokedExp v" "v_revokedURL v1 = v_revokedURL v"
    by simp_all
  have tail: "denylist_step fo w v (snd (st_then (m, u) f))"
    if "denylist_step fo w v u" "\<And>x. denylist_step fo w v (snd (f x u))" for u m f
    using that by (cases m) auto
  have start: "denylist_step fo w v v1" by (intro same k1)
  show ?thesis
  proof (cases r)
    case (Ok keys)
    have "denylist_step fo w v (snd (case isRevoked fo (aw_revoked_now w) (aw_revoked_fetched w) (aw_revoked_reply w) jti v1 of
             (Err _, v) \<Rightarrow> (Err unreachable_error, v) | (Panic p, v) \<Rightarrow> (Panic p, v)
           | (Ok revoked, v) \<Rightarrow> f revoked v))"
      if "\<And>b u. denylist_step fo w v u \<Longrightarrow> denylist_step fo w v (snd (f b u))" for jti f
    proof (cases "isRevoked fo (aw_revoked_now w) (aw_revoked_fetched w) (aw_revoked_reply w) jti v1")
      case (Pair rr v2)
      have "denylist_step fo w v v2"
        using isRevoked_state [of fo "aw_revoked_now w" "aw_revoked_fetched w" "aw_revoked_reply w" jti v1]
          isRevoked_url [of fo "aw_revoked_now w" "aw_revoked_fetched w" "aw_revoked_reply w" jti v1] k1
        by (simp add: Pair denylist_step_def)
      then show ?thesis using that by (cases rr) (auto simp: Pair)
    qed
    note mid = this
    show ?thesis
      unfolding Verify_state_def Verify_def k Ok Let_def prod.case outcome.case
      by (intro tail mid) (simp_all add: start)
  qed (simp_all add: Verify_state_def Verify_def k k1 denylist_step_def)
qed

text \<open>
  \<open>knows T j v\<close>: the verifier has token id \<open>j\<close> on its denylist, or will refetch the denylist no
  later than one cache lifetime after \<open>T\<close>.
\<close>

definition knows :: "instant \<Rightarrow> string \<Rightarrow> 'ks verifier \<Rightarrow> bool" where
  "knows T j v \<longleftrightarrow> gm_get (v_revoked v) j \<noteq> None \<or> v_revokedExp v \<le> T + revokedCacheTTL"

text \<open>The server publishes \<open>j\<close> as revoked in every answer completed from instant \<open>T\<close> on.\<close>

definition publishes :: "float_ops \<Rightarrow> string \<Rightarrow> instant \<Rightarrow> string \<Rightarrow> as_world \<Rightarrow> bool" where
  "publishes fo u T j w \<longleftrightarrow>
     (T < aw_revoked_fetched w \<longrightarrow>
        (case fetchRevoked fo u (aw_revoked_reply w) of Ok m \<Rightarrow> gm_get m j \<noteq> None | _ \<Rightarrow> True))"

lemma Verify_state_knows:
  assumes "knows T j v" and "publishes fo (v_revokedURL v) T j w"
  shows "knows T j (Verify_state fo J w token v)"
  using Verify_state_step [of fo w v J token] assms
  by (auto simp: denylist_step_def knows_def publishes_def revokedCacheTTL_def second_def)

lemma verify_all_knows:
  "knows T j v \<Longrightarrow> list_all (\<lambda>(w, token). publishes fo (v_revokedURL v) T j w) ws \<Longrightarrow>
   knows T j (verify_all fo J ws v) \<and> v_revokedURL (verify_all fo J ws v) = v_revokedURL v"
proof (induction ws arbitrary: v)
  case (Cons a ws)
  obtain w token where a: "a = (w, token)" by fastforce
  have u: "v_revokedURL (Verify_state fo J w token v) = v_revokedURL v"
    using Verify_state_step [of fo w v J token] by (simp add: denylist_step_def)
  with Cons show ?case by (simp add: a Verify_state_knows)
qed simp

text \<open>C22 (safety): a revoked token is refused at the latest two seconds after its revocation is
  published. If every denylist answer completed after \<open>T\<close> lists the token id \<open>j\<close>, then, whatever
  tokens were verified before, with whatever network answers and cache states, a token with id \<open>j\<close>
  is only ever accepted by a check made at or before \<open>T\<close> plus the cache lifetime; an unreachable
  server cannot extend this.\<close>

theorem revocation_takes_effect:
  assumes "v_revokedExp v \<le> T + revokedCacheTTL"
    and "list_all (\<lambda>(w, token). publishes fo (v_revokedURL v) T j w) (ws @ [(w, token)])"
    and "aw_revoked_now w \<le> aw_revoked_fetched w"
    and "fst (Verify fo J w token (verify_all fo J ws v)) = Ok c" and "c_JTI c = j"
  shows "aw_revoked_now w \<le> T + revokedCacheTTL"
proof (rule ccontr)
  assume late: "\<not> ?thesis"
  let ?v = "verify_all fo J ws v"
  have k: "knows T j ?v" and u: "v_revokedURL ?v = v_revokedURL v"
    using assms(1,2) verify_all_knows [of T j v fo ws J] by (simp_all add: knows_def)
  obtain denied where "denylist_used fo w ?v = Some denied" "gm_get denied j = None"
    using assms(4,5) by (auto simp: Verify_Ok_iff token_ok_def)
  moreover have "publishes fo (v_revokedURL v) T j w" using assms(2) by simp
  ultimately show False
    using k u late assms(3)
    by (auto simp: denylist_used_def knows_def publishes_def revokedCacheTTL_def second_def
        split: if_splits outcome.splits)
qed

text \<open>A verifier with cached keys and denylist, and a token it accepts, for the witness.\<close>

definition sample_token :: jwt_token where
  "sample_token = \<lparr>tok_jti = Some ''j'', tok_iat = None, tok_aud = None, tok_string = (\<lambda>_. None),
     tok_object = (\<lambda>n. if n = ''cnf'' then Some [(''jkt'', JStr ''k'')] else None)\<rparr>"

definition sample_jose :: "(string, string) jose" where
  "sample_jose = table_jose
     [(''t'', \<lparr>h_typ = Some ''at+jwt'', h_alg = None, h_jwk = None, h_x5c = False, h_kid = None\<rparr>)]
     [(''t'', sample_token)]"

definition sample_verifier :: "string verifier" where
  "sample_verifier = (NewVerifier ''as'' ''issuer'' ''http://as'')
     \<lparr>v_keys := Some ''ks'', v_keysExp := 9 * second, v_revokedExp := 2 * second\<rparr>"

definition sample_world :: as_world where
  "sample_world = \<lparr>aw_keys_reply = NetErr [], aw_keys_now = second, aw_keys_fetched = second,
     aw_jwt_now = second, aw_revoked_reply = NetErr [], aw_revoked_now = second,
     aw_revoked_fetched = second\<rparr>"

lemmas sample_defs =
  sample_token_def sample_jose_def sample_verifier_def sample_world_def NewVerifier_def table_jose_def
  second_def revokedCacheTTL_def

theorem revocation_takes_effect_witness:
  "\<forall>fo. fst (Verify fo sample_jose sample_world ''t'' (verify_all fo sample_jose [] sample_verifier)) =
     Ok (claims_of sample_token [(''jkt'', JStr ''k'')] ''j'') \<and>
   aw_revoked_now sample_world \<le> 0 + revokedCacheTTL"
proof
  fix fo
  have ok: "fst (Verify fo sample_jose sample_world ''t'' (verify_all fo sample_jose [] sample_verifier)) =
     Ok (claims_of sample_token [(''jkt'', JStr ''k'')] ''j'')"
    by (simp add: Let_def fst_Verify token_checks_def requireAccessTokenType_def keySet_def tokenType_def
        denylist_used_def claims_of_def cnf_jkt_def sample_defs)
  have "aw_revoked_now sample_world \<le> 0 + revokedCacheTTL"
    by (rule revocation_takes_effect [where v = sample_verifier and ws = "[]" and j = "''j''", OF _ _ _ ok])
      (simp_all add: sample_defs publishes_def claims_of_def fetchRevoked_def fetch_body_def)
  then show "fst (Verify fo sample_jose sample_world ''t'' (verify_all fo sample_jose [] sample_verifier)) =
     Ok (claims_of sample_token [(''jkt'', JStr ''k'')] ''j'') \<and>
     aw_revoked_now sample_world \<le> 0 + revokedCacheTTL" using ok by simp
qed

end
