(* ===== verification/Go_Url.thy ===== *)
theory Go_Url
  imports Go_Std
begin

text \<open>
  \<open>net/url\<close>'s \<open>Parse\<close> and \<open>URL.String\<close>, on byte strings, as far as the DPoP \<open>htu\<close> comparison
  uses them: scheme, opaque part, authority, path with its percent-encoding, query (with the flag
  that remembers a lone trailing question mark) and fragment. An authority with user information
  or a bracketed IP literal is handed to a parameter \<open>ext\<close>, which returns the text that \<open>String\<close>
  prints for it, or nothing where \<open>Parse\<close> rejects it: an issuer's base URL has neither.
\<close>

record url =
  u_scheme :: string
  u_opaque :: string
  u_omit_host :: bool
  u_host :: string
  u_path :: string
  u_raw_path :: string
  u_force_query :: bool
  u_raw_query :: string
  u_fragment :: string

definition empty_url :: url where
  "empty_url = \<lparr>u_scheme = [], u_opaque = [], u_omit_host = False, u_host = [], u_path = [],
     u_raw_path = [], u_force_query = False, u_raw_query = [], u_fragment = []\<rparr>"

section \<open>Character classes and percent-encoding\<close>

definition is_alnum :: "char \<Rightarrow> bool" where
  "is_alnum c \<longleftrightarrow> is_upper c \<or> is_lower c \<or> is_digit c"

definition unreserved :: "char \<Rightarrow> bool" where
  "unreserved c \<longleftrightarrow> is_alnum c \<or> c \<in> set ''-_.~''"

definition should_escape_path :: "char \<Rightarrow> bool" where
  "should_escape_path c \<longleftrightarrow> \<not> (unreserved c \<or> c \<in> set ''$&+,/:;=@'')"

definition should_escape_host :: "char \<Rightarrow> bool" where
  "should_escape_host c \<longleftrightarrow>
     \<not> (unreserved c \<or> c \<in> set ''!$&()*+,;=:[]<>'' \<or> c = CHR 0x27 \<or> c = CHR 0x22)"

definition valid_encoded_path :: "string \<Rightarrow> bool" where
  "valid_encoded_path s \<longleftrightarrow>
     list_all (\<lambda>c. c \<in> set ''!$&()*+,;=:@[]%'' \<or> c = CHR 0x27 \<or> \<not> should_escape_path c) s"

definition hex_digit :: "nat \<Rightarrow> char" where
  "hex_digit n = ''0123456789ABCDEF'' ! n"

definition unhex :: "char \<Rightarrow> nat option" where
  "unhex c =
     (if is_digit c then Some (of_char c - 48)
      else if (97 :: nat) \<le> of_char c \<and> of_char c \<le> (102 :: nat) then Some (of_char c - 87)
      else if (65 :: nat) \<le> of_char c \<and> of_char c \<le> (70 :: nat) then Some (of_char c - 55)
      else None)"

fun escape :: "(char \<Rightarrow> bool) \<Rightarrow> string \<Rightarrow> string" where
  "escape p [] = []"
| "escape p (c # cs) =
     (if p c then CHR ''%'' # hex_digit (of_char c div 16) # hex_digit (of_char c mod 16) # escape p cs
      else c # escape p cs)"

text \<open>
  \<open>unescape\<close>: \<open>bad_hex\<close> and \<open>bad_plain\<close> are the extra rejections of the host mode.
\<close>

fun unescape :: "(nat \<Rightarrow> bool) \<Rightarrow> (char \<Rightarrow> bool) \<Rightarrow> string \<Rightarrow> string option" where
  "unescape bad_hex bad_plain [] = Some []"
| "unescape bad_hex bad_plain (c # cs) =
     (if c = CHR ''%'' then
        (case cs of
           a # b # rest \<Rightarrow>
             (case (unhex a, unhex b) of
                (Some x, Some y) \<Rightarrow>
                  if bad_hex (16 * x + y) then None
                  else map_option ((#) (char_of (16 * x + y))) (unescape bad_hex bad_plain rest)
              | _ \<Rightarrow> None)
         | _ \<Rightarrow> None)
      else if bad_plain c then None
      else map_option ((#) c) (unescape bad_hex bad_plain cs))"

definition unescape_path :: "string \<Rightarrow> string option" where
  "unescape_path = unescape (\<lambda>_. False) (\<lambda>_. False)"

definition unescape_host :: "string \<Rightarrow> string option" where
  "unescape_host =
     unescape (\<lambda>n. n < 128 \<and> n \<noteq> 37) (\<lambda>c. of_char c < (128 :: nat) \<and> should_escape_host c)"

section \<open>Parsing\<close>

text \<open>\<open>strings.Cut\<close> at the first occurrence of a byte; the flag says whether there was one.\<close>

fun cut_at :: "char \<Rightarrow> string \<Rightarrow> string \<times> string \<times> bool" where
  "cut_at c [] = ([], [], False)"
| "cut_at c (x # xs) =
     (if x = c then ([], xs, True)
      else (let (a, b, f) = cut_at c xs in (x # a, b, f)))"

definition is_ctl :: "char \<Rightarrow> bool" where
  "is_ctl c \<longleftrightarrow> of_char c < (32 :: nat) \<or> c = CHR 0x7F"

text \<open>\<open>getScheme\<close>: the scheme read so far is accumulated; \<open>None\<close> is the error.\<close>

fun get_scheme :: "string \<Rightarrow> string \<Rightarrow> string \<Rightarrow> (string \<times> string) option" where
  "get_scheme whole acc [] = Some ([], whole)"
| "get_scheme whole acc (c # cs) =
     (if is_upper c \<or> is_lower c then get_scheme whole (acc @ [c]) cs
      else if is_digit c \<or> c \<in> set ''+-.'' then
        (if acc = [] then Some ([], whole) else get_scheme whole (acc @ [c]) cs)
      else if c = CHR '':'' then (if acc = [] then None else Some (acc, cs))
      else Some ([], whole))"

definition valid_port :: "string \<Rightarrow> bool" where
  "valid_port p \<longleftrightarrow> list_all is_digit p"

definition parse_authority :: "(string \<Rightarrow> string option) \<Rightarrow> string \<Rightarrow> string option" where
  "parse_authority ext a =
     (if CHR ''@'' \<in> set a \<or> CHR ''['' \<in> set a \<or> CHR '']'' \<in> set a then ext a
      else (case cut_at CHR '':'' a of
              (h, p, colon) \<Rightarrow>
                if colon \<and> \<not> valid_port p then None
                else map_option (escape should_escape_host) (unescape_host a)))"

definition set_path :: "string \<Rightarrow> url \<Rightarrow> url option" where
  "set_path p u =
     (case unescape_path p of
        None \<Rightarrow> None
      | Some path \<Rightarrow>
          Some (u\<lparr>u_path := path,
                  u_raw_path := (if p = escape should_escape_path path then [] else p)\<rparr>))"

definition parse_rest :: "(string \<Rightarrow> string option) \<Rightarrow> url \<Rightarrow> string \<Rightarrow> url option" where
  "parse_rest ext u rest =
     (if \<not> has_prefix rest ''/'' \<and> u_scheme u \<noteq> [] then Some (u\<lparr>u_opaque := rest\<rparr>)
      else if \<not> has_prefix rest ''/'' \<and> CHR '':'' \<in> set (fst (cut_at CHR ''/'' rest)) then None
      else if (u_scheme u \<noteq> [] \<or> \<not> has_prefix rest ''///'') \<and> has_prefix rest ''//'' then
        (let (auth, after, slash) = cut_at CHR ''/'' (drop 2 rest)
         in (case parse_authority ext auth of
               None \<Rightarrow> None
             | Some h \<Rightarrow> set_path (if slash then CHR ''/'' # after else []) (u\<lparr>u_host := h\<rparr>)))
      else set_path rest (if u_scheme u \<noteq> [] then u\<lparr>u_omit_host := True\<rparr> else u))"

definition parse_no_fragment :: "(string \<Rightarrow> string option) \<Rightarrow> string \<Rightarrow> url option" where
  "parse_no_fragment ext s =
     (if list_ex is_ctl s then None
      else if s = ''*'' then Some (empty_url\<lparr>u_path := ''*''\<rparr>)
      else (case get_scheme s [] s of
              None \<Rightarrow> None
            | Some (scheme, rest) \<Rightarrow>
                (let u = empty_url\<lparr>u_scheme := map lower_char scheme\<rparr>;
                     (r, q, has_q) = cut_at CHR ''?'' rest
                 in if has_q \<and> q = [] then parse_rest ext (u\<lparr>u_force_query := True\<rparr>) r
                    else parse_rest ext (u\<lparr>u_raw_query := q\<rparr>) r)))"

definition url_parse :: "(string \<Rightarrow> string option) \<Rightarrow> string \<Rightarrow> url option" where
  "url_parse ext raw =
     (let (s, frag, _) = cut_at CHR ''#'' raw
      in (case parse_no_fragment ext s of
            None \<Rightarrow> None
          | Some u \<Rightarrow>
              if frag = [] then Some u
              else map_option (\<lambda>f. u\<lparr>u_fragment := f\<rparr>) (unescape_path frag)))"

section \<open>Printing\<close>

definition escaped_path :: "url \<Rightarrow> string" where
  "escaped_path u =
     (if u_raw_path u \<noteq> [] \<and> valid_encoded_path (u_raw_path u) \<and>
         unescape_path (u_raw_path u) = Some (u_path u) then u_raw_path u
      else if u_path u = ''*'' then ''*''
      else escape should_escape_path (u_path u))"

text \<open>
  \<open>URL.String\<close>. The host field already holds its escaped form. The fragment is always empty
  where the code prints a URL, so its escaping is not needed.
\<close>

definition url_string :: "url \<Rightarrow> string" where
  "url_string u =
     (if u_scheme u \<noteq> [] then u_scheme u @ '':'' else []) @
     (if u_opaque u \<noteq> [] then u_opaque u
      else
        (let path = escaped_path u;
             auth = (if (u_scheme u \<noteq> [] \<or> u_host u \<noteq> []) \<and> \<not> (u_omit_host u \<and> u_host u = [])
                     then (if u_host u \<noteq> [] \<or> u_path u \<noteq> [] then ''//'' else []) @ u_host u
                     else []);
             slash = (if path \<noteq> [] \<and> hd path \<noteq> CHR ''/'' \<and> u_host u \<noteq> [] then ''/'' else []);
             dot = (if u_scheme u = [] \<and> auth = [] \<and> slash = [] \<and>
                       CHR '':'' \<in> set (fst (cut_at CHR ''/'' path)) then ''./'' else [])
         in auth @ slash @ dot @ path)) @
     (if u_force_query u \<or> u_raw_query u \<noteq> [] then CHR ''?'' # u_raw_query u else []) @
     (if u_fragment u \<noteq> [] then CHR ''#'' # escape should_escape_path (u_fragment u) else [])"

section \<open>Clean paths\<close>

text \<open>\<open>path.Clean\<close> (and \<open>filepath.Clean\<close>, which is the same on Unix): empty and dot segments go, a parent
  segment takes back the one before it.\<close>

fun clean_segments :: "bool \<Rightarrow> string list \<Rightarrow> string list \<Rightarrow> string list" where
  "clean_segments rooted stack [] = rev stack"
| "clean_segments rooted stack (s # ss) =
     (if s = [] \<or> s = ''.'' then clean_segments rooted stack ss
      else if s = ''..'' then
        (case stack of
           [] \<Rightarrow> clean_segments rooted (if rooted then [] else [''..'']) ss
         | t # ts \<Rightarrow> if t = ''..'' then clean_segments rooted (''..'' # stack) ss else clean_segments rooted ts ss)
      else clean_segments rooted (s # stack) ss)"

definition path_clean :: "string \<Rightarrow> string" where
  "path_clean p =
     (let rooted = has_prefix p ''/''; q = join_with ''/'' (clean_segments rooted [] (split_on (CHR ''/'') p))
      in if rooted then CHR ''/'' # q else if q = [] then ''.'' else q)"

text \<open>\<open>ServeMux\<close>'s \<open>cleanPath\<close>: rooted, clean, and with the slash it ended in.\<close>

definition cleanPath :: "string \<Rightarrow> string" where
  "cleanPath p =
     (if p = [] then ''/''
      else let p' = (if hd p = CHR ''/'' then p else CHR ''/'' # p); np = path_clean p'
           in if last p' = CHR ''/'' \<and> np \<noteq> ''/'' then np @ ''/'' else np)"

text \<open>A rooted path is clean when no segment is empty or a dot segment.\<close>

lemma clean_segments_plain:
  "list_all (\<lambda>s. s \<notin> {[], ''.'', ''..''}) ss \<Longrightarrow> clean_segments r st ss = rev st @ ss"
  by (induction ss arbitrary: st) auto

lemma cleanPath_plain:
  assumes "split_on (CHR ''/'') p = [] # ss" and "list_all (\<lambda>s. s \<notin> {[], ''.'', ''..''}) ss"
    and "p = CHR ''/'' # join_with ''/'' ss" and "last p \<noteq> CHR ''/''"
  shows "cleanPath p = p"
proof -
  have "has_prefix p ''/''" by (subst assms(3)) (simp add: has_prefix_iff prefix_def)
  then have "path_clean p = CHR ''/'' # join_with ''/'' (clean_segments True [] ([] # ss))"
    by (simp only: path_clean_def Let_def assms(1) if_True)
  then have "path_clean p = p"
    using clean_segments_plain [OF assms(2), of True "[]"] assms(3) [symmetric] by simp
  moreover have "p \<noteq> []" "hd p = CHR ''/''" using assms(3) by auto
  ultimately show ?thesis using assms(4) by (simp add: cleanPath_def Let_def)
qed

section \<open>Plain URLs\<close>

text \<open>
  A plain URL is what an issuer endpoint looks like: a lower-case scheme, a host of unreserved
  characters and a path of slashes and unreserved characters. Parsing splits it and printing gives
  it back.
\<close>

definition plain_path :: "string \<Rightarrow> bool" where
  "plain_path p \<longleftrightarrow> p \<noteq> [] \<and> hd p = CHR ''/'' \<and> list_all (\<lambda>c. unreserved c \<or> c = CHR ''/'') p"

definition plain_host :: "string \<Rightarrow> bool" where
  "plain_host h \<longleftrightarrow> h \<noteq> [] \<and> list_all unreserved h"

definition plain_url :: "string \<Rightarrow> string \<Rightarrow> string" where
  "plain_url h p = ''https://'' @ h @ p"

lemma cut_at_fresh: "c \<notin> set a \<Longrightarrow> cut_at c (a @ c # b) = (a, b, True)"
  by (induction a) auto

lemma cut_at_none: "c \<notin> set a \<Longrightarrow> cut_at c a = (a, [], False)"
  by (induction a) auto

lemmas char_classes = unreserved_def is_alnum_def is_upper_def is_lower_def is_digit_def

lemma reserved_facts: "c \<in> set ''#?%:/@[]+$&,;='' \<Longrightarrow> \<not> unreserved c"
  by (auto simp: char_classes)

lemma unreserved_facts:
  assumes "unreserved c"
  shows "c \<notin> set ''#?%:/@[]+$&,;=''" and "\<not> is_ctl c"
proof -
  show "c \<notin> set ''#?%:/@[]+$&,;=''" using assms reserved_facts by blast
  have "is_alnum c \<Longrightarrow> (48 :: nat) \<le> of_char c \<and> of_char c \<le> (122 :: nat)"
    by (auto simp: is_alnum_def is_upper_def is_lower_def is_digit_def)
  with assms show "\<not> is_ctl c"
    by (auto simp: unreserved_def is_ctl_def)
qed

lemma unreserved_not_escaped:
  "unreserved c \<Longrightarrow> \<not> should_escape_path c" "unreserved c \<Longrightarrow> \<not> should_escape_host c"
  "\<not> should_escape_path CHR ''/''"
  by (simp_all add: should_escape_path_def should_escape_host_def)

lemma escape_id: "list_all (\<lambda>c. \<not> p c) s \<Longrightarrow> escape p s = s"
  by (induction s) auto

lemma unescape_id:
  "list_all (\<lambda>c. c \<noteq> CHR ''%'' \<and> \<not> bp c) s \<Longrightarrow> unescape bh bp s = Some s"
  by (induction s) auto

lemma plain_path_facts:
  assumes "plain_path p"
  shows "CHR ''#'' \<notin> set p" "CHR ''?'' \<notin> set p" "\<not> list_ex is_ctl p"
    "unescape_path p = Some p" "escape should_escape_path p = p"
proof -
  from assms have all: "\<forall>c \<in> set p. unreserved c \<or> c = CHR ''/''"
    by (auto simp: plain_path_def list_all_iff)
  show "CHR ''#'' \<notin> set p" "CHR ''?'' \<notin> set p"
    using all unreserved_facts(1) by fastforce+
  show "\<not> list_ex is_ctl p"
    using all unreserved_facts(2) by (fastforce simp: list_ex_iff is_ctl_def)
  show "unescape_path p = Some p"
    unfolding unescape_path_def
    by (rule unescape_id) (use all unreserved_facts(1) in \<open>fastforce simp: list_all_iff\<close>)
  show "escape should_escape_path p = p"
    by (rule escape_id) (use all unreserved_not_escaped in \<open>auto simp: list_all_iff\<close>)
qed

lemma plain_host_facts:
  assumes "plain_host h"
  shows "c \<in> set ''#?%:/@[]'' \<Longrightarrow> c \<notin> set h" "\<not> list_ex is_ctl h" "parse_authority ext h = Some h"
proof -
  from assms have all: "\<forall>c \<in> set h. unreserved c"
    by (auto simp: plain_host_def list_all_iff)
  show fr: "c \<notin> set h" if "c \<in> set ''#?%:/@[]''" for c
    using all unreserved_facts(1) that by fastforce
  show "\<not> list_ex is_ctl h"
    using all unreserved_facts(2) by (auto simp: list_ex_iff)
  have "unescape_host h = Some h"
    unfolding unescape_host_def
    by (rule unescape_id) (use all unreserved_facts(1) unreserved_not_escaped in \<open>fastforce simp: list_all_iff\<close>)
  moreover have "escape should_escape_host h = h"
    by (rule escape_id) (use all unreserved_not_escaped in \<open>auto simp: list_all_iff\<close>)
  moreover have "cut_at CHR '':'' h = (h, [], False)"
    by (rule cut_at_none) (rule fr, simp)
  ultimately show "parse_authority ext h = Some h"
    using fr by (simp add: parse_authority_def)
qed

lemma lower_https: "map lower_char ''https'' = ''https''"
  by (simp add: lower_char_def is_upper_def)

lemma get_scheme_https:
  "get_scheme (''https:'' @ rest) [] (''https:'' @ rest) = Some (''https'', rest)"
  by (simp add: is_upper_def is_lower_def is_digit_def)

lemma get_scheme_plain:
  "get_scheme (plain_url h p @ r) [] (plain_url h p @ r) = Some (''https'', ''//'' @ h @ p @ r)"
  using get_scheme_https [of "''//'' @ h @ p @ r"] by (simp only: plain_url_def) (simp only: append.simps append_assoc)

definition parsed_plain :: "string \<Rightarrow> string \<Rightarrow> url" where
  "parsed_plain h p = empty_url\<lparr>u_scheme := ''https'', u_host := h, u_path := p\<rparr>"

lemma parse_rest_plain:
  assumes "plain_host h" and "plain_path p" and "u_scheme u = ''https''" and "u_raw_path u = []"
  shows "parse_rest ext u (''//'' @ h @ p) = Some (u\<lparr>u_host := h, u_path := p\<rparr>)"
proof -
  obtain p' where p: "p = CHR ''/'' # p'"
    using assms(2) by (cases p) (auto simp: plain_path_def)
  have "CHR ''/'' \<notin> set h" using plain_host_facts(1) [OF assms(1)] by simp
  then have "cut_at CHR ''/'' (h @ p) = (h, p', True)"
    unfolding p by (rule cut_at_fresh)
  then show ?thesis
    using plain_host_facts(3) [OF assms(1)] plain_path_facts(4,5) [OF assms(2)] assms(3,4)
    by (simp add: parse_rest_def has_prefix_def set_path_def p [symmetric])
qed

lemma plain_url_no_ctl:
  "plain_host h \<Longrightarrow> plain_path p \<Longrightarrow> \<not> list_ex is_ctl (plain_url h p)"
  using plain_host_facts(2) plain_path_facts(3) by (simp add: plain_url_def is_ctl_def)

lemma plain_url_not_star: "plain_url h p @ r \<noteq> ''*''"
  by (simp add: plain_url_def)

lemma parse_no_fragment_plain:
  assumes "plain_host h" and "plain_path p"
  shows "parse_no_fragment ext (plain_url h p) = Some (parsed_plain h p)"
proof -
  have noq: "CHR ''?'' \<notin> set (''//'' @ h @ p)"
    using plain_host_facts(1) [OF assms(1)] plain_path_facts(2) [OF assms(2)] by simp
  define u where "u = empty_url\<lparr>u_scheme := ''https''\<rparr>"
  have u: "u_scheme u = ''https''" "u_raw_path u = []" "u_raw_query u = []"
    by (simp_all add: u_def empty_url_def)
  have "parse_no_fragment ext (plain_url h p) = parse_rest ext (u\<lparr>u_raw_query := []\<rparr>) (''//'' @ h @ p)"
    using plain_url_no_ctl [OF assms] plain_url_not_star [of h p "[]"] get_scheme_plain [of h p "[]"]
    unfolding parse_no_fragment_def
    by (simp only: append_Nil2 cut_at_none [OF noq] lower_https u_def Let_def
        option.case prod.case if_False simp_thms)
  also have "\<dots> = Some (u\<lparr>u_raw_query := [], u_host := h, u_path := p\<rparr>)"
    by (rule parse_rest_plain) (use assms u in simp_all)
  finally show ?thesis by (simp add: u_def parsed_plain_def empty_url_def)
qed

lemma parse_no_fragment_query:
  assumes "plain_host h" and "plain_path p" and "\<not> list_ex is_ctl q"
  shows "parse_no_fragment ext (plain_url h p @ CHR ''?'' # q) =
           Some ((parsed_plain h p)\<lparr>u_force_query := (q = []), u_raw_query := q\<rparr>)"
proof -
  have noq: "CHR ''?'' \<notin> set (''//'' @ h @ p)"
    using plain_host_facts(1) [OF assms(1)] plain_path_facts(2) [OF assms(2)] by simp
  define u where "u = empty_url\<lparr>u_scheme := ''https'', u_force_query := (q = []), u_raw_query := q\<rparr>"
  have cut: "cut_at CHR ''?'' (''//'' @ h @ p @ CHR ''?'' # r) = (''//'' @ h @ p, r, True)" for r
    using cut_at_fresh [OF noq, of r] by (simp only: append_assoc)
  have ctl: "\<not> list_ex is_ctl (plain_url h p @ CHR ''?'' # q)"
    using plain_url_no_ctl [OF assms(1,2)] assms(3) by (simp add: is_ctl_def)
  have "parse_no_fragment ext (plain_url h p @ CHR ''?'' # q) = parse_rest ext u (''//'' @ h @ p)"
    using ctl plain_url_not_star [of h p "CHR ''?'' # q"]
    unfolding parse_no_fragment_def
    by (cases "q = []") (simp_all only: get_scheme_plain cut lower_https u_def Let_def empty_url_def
        option.case prod.case if_False if_True simp_thms url.update_convs)
  also have "\<dots> = Some (u\<lparr>u_host := h, u_path := p\<rparr>)"
    by (rule parse_rest_plain) (use assms in \<open>simp_all add: u_def empty_url_def\<close>)
  finally show ?thesis by (simp add: u_def parsed_plain_def empty_url_def)
qed

lemma url_string_plain:
  assumes "plain_host h" and "plain_path p"
  shows "url_string (parsed_plain h p) = plain_url h p"
    and "url_string ((parsed_plain h p)\<lparr>u_force_query := True\<rparr>) = plain_url h p @ ''?''"
proof -
  from assms have "h \<noteq> []" "p \<noteq> []" "hd p = CHR ''/''" "p \<noteq> ''*''"
    by (auto simp: plain_host_def plain_path_def)
  with plain_path_facts(5) [OF assms(2)]
  show "url_string (parsed_plain h p) = plain_url h p"
    and "url_string ((parsed_plain h p)\<lparr>u_force_query := True\<rparr>) = plain_url h p @ ''?''"
    by (simp_all add: url_string_def parsed_plain_def empty_url_def plain_url_def escaped_path_def Let_def)
qed

end
