(* ===== verification/Dpop.thy ===== *)
theory Dpop
  imports Jose OAuth_Error Sha256 Go_Url
begin

text \<open>
  \<open>internal/oauth2/dpop.go\<close>: DPoP proofs (RFC 9449) as a resource server validates them, and the
  bounded store of seen proof identifiers that rejects replays. \<open>ValidateDPoPProof\<close> is the whole
  handler, in the code's order of checks; it threads the store, because the identifier is
  registered before the access-token hash is compared. The contract of the store is the locale
  \<open>replay_guard\<close>.
\<close>

section \<open>The replay store\<close>

type_synonym jti_store = "(string, unit) gomap"

definition jtiStoreMaxSize :: nat where "jtiStoreMaxSize = 10000"
definition jtiStoreEvictCount :: nat where "jtiStoreEvictCount = 1000"

definition NewJTIStore :: jti_store where
  "NewJTIStore = []"

text \<open>The eviction loop over the keys in iteration order.\<close>

fun evict_loop :: "string list \<Rightarrow> nat \<Rightarrow> jti_store \<Rightarrow> jti_store" where
  "evict_loop [] evicted s = s"
| "evict_loop (k # ks) evicted s =
     (let s' = gm_del k s; evicted' = Suc evicted
      in if evicted' \<ge> jtiStoreEvictCount then s' else evict_loop ks evicted' s')"

definition jti_Accept :: "string iteration \<Rightarrow> string \<Rightarrow> jti_store \<Rightarrow> bool \<times> jti_store" where
  "jti_Accept it jti s =
     (if gm_get s jti \<noteq> None then (False, s)
      else
        (let s' = (if length s \<ge> jtiStoreMaxSize then evict_loop (it (map fst s)) 0 s else s)
         in (True, gm_put jti () s')))"

definition jti_seen :: "jti_store \<Rightarrow> string \<Rightarrow> bool" where
  "jti_seen s jti \<longleftrightarrow> gm_get s jti \<noteq> None"

fun accept_hits :: "('k \<Rightarrow> 's \<Rightarrow> bool \<times> 's) \<Rightarrow> 'k \<Rightarrow> 'k list \<Rightarrow> 's \<Rightarrow> nat" where
  "accept_hits acc k [] s = 0"
| "accept_hits acc k (j # js) s =
     (let (ok, s') = acc j s in (if ok \<and> j = k then 1 else 0) + accept_hits acc k js s')"

text \<open>
  What the proof validation relies on: a key is accepted exactly when it has not been seen, it is
  seen afterwards, and as long as the store is not full nothing seen is forgotten.
\<close>

locale replay_guard =
  fixes acc :: "'k \<Rightarrow> 's \<Rightarrow> bool \<times> 's"
    and seen :: "'s \<Rightarrow> 'k \<Rightarrow> bool"
    and fill :: "'s \<Rightarrow> nat"
    and cap :: nat
  assumes acc_iff: "fst (acc k s) \<longleftrightarrow> \<not> seen s k"
    and acc_seen: "seen (snd (acc k s)) k"
    and acc_keeps: "fill s < cap \<Longrightarrow> seen s j \<Longrightarrow> seen (snd (acc k s)) j"
    and acc_fill: "fill (snd (acc k s)) \<le> Suc (fill s)"
begin

lemma replay_rejected: "\<not> fst (acc k (snd (acc k s)))"
  by (simp add: acc_iff acc_seen)

lemma hits_none: "seen s k \<Longrightarrow> fill s + length js \<le> cap \<Longrightarrow> accept_hits acc k js s = 0"
proof (induction js arbitrary: s)
  case (Cons j js)
  obtain ok s' where a: "acc j s = (ok, s')" by fastforce
  from Cons.prems(2) have "fill s < cap" by simp
  with Cons.prems(1) a have "seen s' k" using acc_keeps [of s k j] by simp
  moreover have "fill s' + length js \<le> cap" using acc_fill [of j s] a Cons.prems(2) by simp
  moreover have "\<not> (ok \<and> j = k)" using acc_iff [of j s] a Cons.prems(1) by auto
  ultimately show ?case using Cons.IH a by simp
qed simp

lemma hits_at_most_once: "fill s + length js \<le> cap \<Longrightarrow> accept_hits acc k js s \<le> 1"
proof (induction js arbitrary: s)
  case (Cons j js)
  obtain ok s' where a: "acc j s = (ok, s')" by fastforce
  have room: "fill s' + length js \<le> cap" using acc_fill [of j s] a Cons.prems by simp
  show ?case
  proof (cases "ok \<and> j = k")
    case True
    then have "seen s' k" using acc_seen [of j s] a by simp
    then show ?thesis using hits_none [OF _ room] a by simp
  next
    case False
    then show ?thesis using Cons.IH [OF room] a by auto
  qed
qed simp

end

lemma gm_del_length: "length (gm_del k m) \<le> length m"
  by (simp add: gm_del_def AList.delete_eq)

lemma gm_del_length_in:
  "gm_wf m \<Longrightarrow> k \<in> fst ` set m \<Longrightarrow> Suc (length (gm_del k m)) = length m"
proof (induction m)
  case (Cons a m)
  obtain k' v where a: "a = (k', v)" by fastforce
  show ?case
  proof (cases "k' = k")
    case True
    then have "k \<notin> fst ` set m" using Cons.prems(1) a by (auto simp: gm_wf_def)
    then have "AList.delete k m = m" by (simp add: delete_id)
    with True a show ?thesis by (simp add: gm_del_def)
  next
    case False
    have "gm_wf m" using Cons.prems(1) by (simp add: gm_wf_def)
    with Cons False a show ?thesis by (auto simp: gm_del_def)
  qed
qed simp

lemma gm_put_length: "length (gm_put k v m) \<le> Suc (length m)"
  unfolding gm_put_def by (induction m) auto

lemma evict_loop_wf: "gm_wf s \<Longrightarrow> gm_wf (evict_loop ks n s)"
  by (induction ks n s rule: evict_loop.induct) (auto simp: Let_def)

lemma evict_loop_length: "length (evict_loop ks n s) \<le> length s"
proof (induction ks n s rule: evict_loop.induct)
  case (2 k ks n s)
  then show ?case using gm_del_length [of k s] by (auto simp: Let_def intro: order_trans)
qed simp

text \<open>A full store makes room: at least one key goes.\<close>

lemma evict_loop_shrinks:
  assumes "gm_wf s" and "k \<in> fst ` set s"
  shows "length (evict_loop (k # ks) n s) < length s"
proof -
  have "length (evict_loop ks (Suc n) (gm_del k s)) \<le> length (gm_del k s)"
    by (rule evict_loop_length)
  moreover have "Suc (length (gm_del k s)) = length s"
    using assms by (rule gm_del_length_in)
  ultimately show ?thesis by (auto simp: Let_def)
qed

lemma jti_Accept_wf: "gm_wf s \<Longrightarrow> gm_wf (snd (jti_Accept it jti s))"
  by (simp add: jti_Accept_def Let_def evict_loop_wf)

lemma jti_Accept_bound:
  assumes "iterates it" and "gm_wf s" and "length s \<le> jtiStoreMaxSize"
  shows "length (snd (jti_Accept it jti s)) \<le> jtiStoreMaxSize"
proof -
  define s' where "s' = (if length s \<ge> jtiStoreMaxSize then evict_loop (it (map fst s)) 0 s else s)"
  have "length s' < jtiStoreMaxSize"
  proof (cases "length s \<ge> jtiStoreMaxSize")
    case True
    then have "it (map fst s) \<noteq> []"
      using iterates_length [OF assms(1), of "map fst s"] by (auto simp: jtiStoreMaxSize_def)
    then obtain k ks where ks: "it (map fst s) = k # ks" by (cases "it (map fst s)") auto
    then have "k \<in> set (map fst s)"
      using iterates_set [OF assms(1), of "map fst s"] by auto
    then have "length (evict_loop (k # ks) 0 s) < length s"
      using assms(2) by (intro evict_loop_shrinks) auto
    then show ?thesis using True assms(3) ks by (simp add: s'_def)
  next
    case False
    then show ?thesis by (simp add: s'_def)
  qed
  then have "length (gm_put jti () s') \<le> jtiStoreMaxSize"
    using gm_put_length [of jti "()" s'] by simp
  then show ?thesis using assms(3) by (simp add: jti_Accept_def s'_def Let_def)
qed

lemma jti_seen_put [simp]: "jti_seen (gm_put k () s) j \<longleftrightarrow> j = k \<or> jti_seen s j"
  by (simp add: jti_seen_def)

interpretation jti: replay_guard "jti_Accept it" jti_seen "length :: jti_store \<Rightarrow> nat" jtiStoreMaxSize
proof (unfold_locales, goal_cases)
  case (1 k s)
  then show ?case by (simp add: jti_Accept_def jti_seen_def Let_def)
next
  case (2 k s)
  then show ?case by (auto simp: jti_Accept_def Let_def) (simp add: jti_seen_def)
next
  case (3 s j k)
  then show ?case by (simp add: jti_Accept_def Let_def)
next
  case (4 k s)
  have "length (gm_put k () (evict_loop ks 0 s)) \<le> Suc (length s)" for ks
    using gm_put_length [of k "()" "evict_loop ks 0 s"] evict_loop_length [of ks 0 s] by simp
  then show ?case by (simp add: jti_Accept_def Let_def gm_put_length)
qed

section \<open>Comparisons\<close>

definition SingleDPoPHeader :: "string list \<Rightarrow> string result" where
  "SingleDPoPHeader values =
     (if length values > 1 then Err (BadRequest InvalidRequest ''Multiple DPoP headers are not allowed'')
      else if length values = 0 then Ok []
      else Ok (hd values))"

fun fold_loop :: "string \<Rightarrow> string \<Rightarrow> bool" where
  "fold_loop (a # as) (b # bs) = (if lower_char a \<noteq> lower_char b then False else fold_loop as bs)"
| "fold_loop _ _ = True"

definition equalFoldASCII :: "string \<Rightarrow> string \<Rightarrow> bool" where
  "equalFoldASCII a b = (if length a \<noteq> length b then False else fold_loop a b)"

lemma equalFoldASCII_iff: "equalFoldASCII a b \<longleftrightarrow> map lower_char a = map lower_char b"
proof -
  have "length a = length b \<Longrightarrow> fold_loop a b \<longleftrightarrow> map lower_char a = map lower_char b"
    by (induction a b rule: list_induct2) auto
  then show ?thesis
    unfolding equalFoldASCII_def by (metis length_map)
qed

definition htuMatches :: "(string \<Rightarrow> string option) \<Rightarrow> string \<Rightarrow> string \<Rightarrow> bool" where
  "htuMatches ext claimed expected =
     (case (url_parse ext claimed, url_parse ext expected) of
        (Some cu, Some eu) \<Rightarrow>
          url_string (cu\<lparr>u_raw_query := [], u_fragment := []\<rparr>) =
          url_string (eu\<lparr>u_raw_query := [], u_fragment := []\<rparr>)
      | _ \<Rightarrow> claimed = expected)"

definition ComputeATH :: "string \<Rightarrow> string" where
  "ComputeATH accessToken = b64url (sha256 (bytes_of accessToken))"

definition DPoPThumbprint :: "('k, 'ks) jose \<Rightarrow> 'k \<Rightarrow> string result" where
  "DPoPThumbprint J key =
     (case jwk_thumbprint J key of
        Inl e \<Rightarrow> Err (Plain (''oauth2: computing DPoP key thumbprint: '' @ e))
      | Inr tp \<Rightarrow> Ok (b64url tp))"

section \<open>Validating a proof\<close>

definition dpopIATWindow :: duration where
  "dpopIATWindow = 5 * minute"

definition dpop_error :: "string \<Rightarrow> go_error" where
  "dpop_error d = BadRequest InvalidRequest d"

text \<open>The checks that leave the store alone: the message, its header, its signature and the claims
  up to \<open>iat\<close>. The result is the wallet's key and the verified token.\<close>

definition dpop_checks ::
  "(string \<Rightarrow> string option) \<Rightarrow> ('k, 'ks) jose \<Rightarrow> instant \<Rightarrow> string \<Rightarrow> string \<Rightarrow> string \<Rightarrow>
   ('k \<times> jwt_token) result" where
  "dpop_checks ext J now dpopHeader htm htu =
     then_ok (fail_if (dpopHeader = []) (dpop_error ''Missing DPoP proof'')) (\<lambda>_.
     then_ok (of_sum (\<lambda>e. dpop_error (''Invalid DPoP proof: '' @ e)) (jws_parse J dpopHeader)) (\<lambda>sigs.
     then_ok (fail_if (length sigs \<noteq> 1)
       (dpop_error ''Invalid DPoP proof: expected exactly one signature'')) (\<lambda>_.
     let headers = hd sigs in
     then_ok (fail_if (h_typ headers \<noteq> Some ''dpop+jwt'') (dpop_error ''DPoP typ must be dpop+jwt'')) (\<lambda>_.
     then_ok (of_option (dpop_error ''DPoP must contain jwk header'') (h_jwk headers)) (\<lambda>walletJWK.
     then_ok (fail_if (jwk_has J walletJWK ''d'')
       (dpop_error ''DPoP jwk header must not contain a private key'')) (\<lambda>_.
     then_ok (fail_if (h_alg headers \<noteq> Some ''ES256'') (dpop_error ''DPoP must use ES256'')) (\<lambda>_.
     then_ok (of_option (dpop_error ''DPoP signature invalid'')
       (jwt_verify_key J walletJWK dpopHeader)) (\<lambda>token.
     then_ok (fail_if (\<not> equalFoldASCII (get_or_empty token ''htm'') htm)
       (dpop_error ''DPoP htm mismatch'')) (\<lambda>_.
     then_ok (fail_if (\<not> htuMatches ext (get_or_empty token ''htu'') htu)
       (dpop_error ''DPoP htu mismatch'')) (\<lambda>_.
     then_ok (of_option (dpop_error ''DPoP proof expired'') (tok_iat token)) (\<lambda>iat.
     let skew = time_sub now iat in
     then_ok (fail_if (skew > dpopIATWindow \<or> skew < - dpopIATWindow)
       (dpop_error ''DPoP proof expired'')) (\<lambda>_.
     Ok (walletJWK, token)))))))))))))"

definition ValidateDPoPProof ::
  "(string \<Rightarrow> string option) \<Rightarrow> ('k, 'ks) jose \<Rightarrow> string iteration \<Rightarrow> instant \<Rightarrow>
   string \<Rightarrow> string \<Rightarrow> string \<Rightarrow> string \<Rightarrow> jti_store \<Rightarrow> 'k result \<times> jti_store" where
  "ValidateDPoPProof ext J it now dpopHeader htm htu ath jtis =
     st_then (dpop_checks ext J now dpopHeader htm htu, jtis) (\<lambda>(walletJWK, token) jtis.
       let jti = get_or_empty token ''jti'';
           (fresh, jtis') = (if jti = [] then (False, jtis) else jti_Accept it jti jtis)
       in if jti = [] \<or> \<not> fresh then (Err (dpop_error ''DPoP jti replay detected''), jtis')
          else if ath \<noteq> [] \<and> get_or_empty token ''ath'' \<noteq> ath then
            (Err (dpop_error ''DPoP ath mismatch''), jtis')
          else (Ok walletJWK, jtis'))"

text \<open>
  What RFC 9449 section 4.3 asks of an acceptable proof, stated once, without the order of checks
  or the error texts.
\<close>

definition dpop_proof_ok ::
  "(string \<Rightarrow> string option) \<Rightarrow> ('k, 'ks) jose \<Rightarrow> instant \<Rightarrow>
   string \<Rightarrow> string \<Rightarrow> string \<Rightarrow> string \<Rightarrow> jti_store \<Rightarrow> 'k \<Rightarrow> string \<Rightarrow> bool" where
  "dpop_proof_ok ext J now dp htm htu ath seen k jti \<longleftrightarrow>
     dp \<noteq> [] \<and>
     (\<exists>h tok iat.
        jws_parse J dp = Inr [h] \<and> h_typ h = Some ''dpop+jwt'' \<and> h_alg h = Some ''ES256'' \<and>
        h_jwk h = Some k \<and> \<not> jwk_has J k ''d'' \<and> jwt_verify_key J k dp = Some tok \<and>
        map lower_char (get_or_empty tok ''htm'') = map lower_char htm \<and>
        htuMatches ext (get_or_empty tok ''htu'') htu \<and>
        tok_iat tok = Some iat \<and> \<bar>now - iat\<bar> \<le> 5 * 60 * 1000000000 \<and>
        jti = get_or_empty tok ''jti'' \<and> jti \<noteq> [] \<and> \<not> jti_seen seen jti \<and>
        (ath \<noteq> [] \<longrightarrow> get_or_empty tok ''ath'' = ath))"

lemma dpop_window: "(time_sub now iat > dpopIATWindow \<or> time_sub now iat < - dpopIATWindow) \<longleftrightarrow>
    \<not> \<bar>now - iat\<bar> \<le> 5 * 60 * 1000000000"
  using time_sub_window [of dpopIATWindow now iat]
  by (simp add: dpopIATWindow_def minute_def second_def not_le)

lemma singleton_iff: "xs = Inr ys \<and> length ys = 1 \<longleftrightarrow> (\<exists>y. xs = Inr [y] \<and> ys = [y])"
  by (cases ys) auto

lemma dpop_checks_Ok_iff:
  "dpop_checks ext J now dp htm htu = Ok (k, tok) \<longleftrightarrow>
     dp \<noteq> [] \<and>
     (\<exists>h iat. jws_parse J dp = Inr [h] \<and> h_typ h = Some ''dpop+jwt'' \<and> h_alg h = Some ''ES256'' \<and>
        h_jwk h = Some k \<and> \<not> jwk_has J k ''d'' \<and> jwt_verify_key J k dp = Some tok \<and>
        map lower_char (get_or_empty tok ''htm'') = map lower_char htm \<and>
        htuMatches ext (get_or_empty tok ''htu'') htu \<and>
        tok_iat tok = Some iat \<and> \<bar>now - iat\<bar> \<le> 5 * 60 * 1000000000)"
  by (auto simp: dpop_checks_def go_outcome Let_def dpop_window equalFoldASCII_iff length_Suc_conv)

lemma ValidateDPoPProof_Ok_iff:
  "ValidateDPoPProof ext J it now dp htm htu ath jtis = (Ok k, jtis') \<longleftrightarrow>
   (\<exists>jti. dpop_proof_ok ext J now dp htm htu ath jtis k jti \<and> jtis' = snd (jti_Accept it jti jtis))"
proof -
  have "ValidateDPoPProof ext J it now dp htm htu ath jtis = (Ok k, jtis') \<longleftrightarrow>
     (\<exists>tok. dpop_checks ext J now dp htm htu = Ok (k, tok) \<and>
        get_or_empty tok ''jti'' \<noteq> [] \<and> \<not> jti_seen jtis (get_or_empty tok ''jti'') \<and>
        (ath \<noteq> [] \<longrightarrow> get_or_empty tok ''ath'' = ath) \<and>
        jtis' = snd (jti_Accept it (get_or_empty tok ''jti'') jtis))"
    using jti.acc_iff [of it _ jtis]
    by (auto simp: ValidateDPoPProof_def st_then_Ok_iff Let_def split_beta split: if_splits)
  then show ?thesis
    unfolding dpop_checks_Ok_iff dpop_proof_ok_def by blast
qed

lemma dpop_checks_Err: "dpop_checks ext J now dp htm htu = Err e \<Longrightarrow> \<exists>d. e = dpop_error d"
  by (auto simp: dpop_checks_def go_outcome Let_def)

lemma dpop_checks_no_panic: "dpop_checks ext J now dp htm htu \<noteq> Panic p"
  unfolding dpop_checks_def Let_def by (intro then_ok_no_panic) simp_all

lemma ValidateDPoPProof_shape:
  "(\<exists>k. fst (ValidateDPoPProof ext J it now dp htm htu ath jtis) = Ok k) \<or>
   (\<exists>d. fst (ValidateDPoPProof ext J it now dp htm htu ath jtis) = Err (dpop_error d))"
proof (cases "dpop_checks ext J now dp htm htu")
  case (Ok x)
  then show ?thesis by (cases x) (auto simp: ValidateDPoPProof_def Let_def split_beta)
next
  case (Err e)
  then show ?thesis using dpop_checks_Err [OF Err] by (auto simp: ValidateDPoPProof_def)
next
  case (Panic p)
  then show ?thesis using dpop_checks_no_panic by blast
qed

lemma ValidateDPoPProof_state:
  "snd (ValidateDPoPProof ext J it now dp htm htu ath jtis) = jtis \<or>
   (\<exists>jti. snd (ValidateDPoPProof ext J it now dp htm htu ath jtis) = snd (jti_Accept it jti jtis))"
  by (cases "dpop_checks ext J now dp htm htu")
     (auto simp: ValidateDPoPProof_def Let_def split_beta)

lemma ValidateDPoPProof_bound:
  assumes "iterates it" and "gm_wf jtis" and "length jtis \<le> jtiStoreMaxSize"
  shows "gm_wf (snd (ValidateDPoPProof ext J it now dp htm htu ath jtis)) \<and>
    length (snd (ValidateDPoPProof ext J it now dp htm htu ath jtis)) \<le> jtiStoreMaxSize"
  using ValidateDPoPProof_state [of ext J it now dp htm htu ath jtis] assms
    jti_Accept_bound jti_Accept_wf by fastforce

lemma evict_loop_subset: "jti_seen (evict_loop ks n s) j \<Longrightarrow> jti_seen s j"
proof (induction ks n s rule: evict_loop.induct)
  case (2 k ks n s)
  then have "jti_seen (gm_del k s) j" by (auto simp: Let_def split: if_splits)
  then show ?case by (auto simp: jti_seen_def split: if_splits)
qed simp

lemma evict_loop_first: "\<not> jti_seen (evict_loop (k # ks) n s) k"
proof
  assume "jti_seen (evict_loop (k # ks) n s) k"
  then have "jti_seen (gm_del k s) k"
    using evict_loop_subset by (fastforce simp: Let_def split: if_splits)
  then show False by (simp add: jti_seen_def)
qed

section \<open>Properties\<close>

text \<open>C23 (refinement): a DPoP proof is accepted, with the wallet's key, exactly when it satisfies the
  order-free specification of RFC 9449 section 4.3 (one signature, type, ES256, a public key in the
  header, a valid signature by it, method and URL, an \<open>iat\<close> within five minutes either way, a fresh
  identifier, the access-token hash), and acceptance registers the identifier and nothing else.\<close>

theorem dpop_accepts_exactly:
  "ValidateDPoPProof ext J it now dp htm htu ath jtis = (Ok k, jtis') \<longleftrightarrow>
   (\<exists>jti. dpop_proof_ok ext J now dp htm htu ath jtis k jti \<and> jtis' = snd (jti_Accept it jti jtis))"
  by (rule ValidateDPoPProof_Ok_iff)

text \<open>Validation never panics, and every rejection is a 400 \<open>invalid_request\<close>.\<close>

theorem dpop_rejections:
  "(\<exists>k. fst (ValidateDPoPProof ext J it now dp htm htu ath jtis) = Ok k) \<or>
   (\<exists>d. fst (ValidateDPoPProof ext J it now dp htm htu ath jtis) = Err (BadRequest InvalidRequest d))"
  using ValidateDPoPProof_shape [of ext J it now dp htm htu ath jtis] by (simp add: dpop_error_def)

text \<open>A proof that has been accepted is rejected when it is presented again, at whatever
  time, for whatever request, by the store as the first validation left it.\<close>

theorem dpop_no_replay:
  assumes "ValidateDPoPProof ext J it now dp htm htu ath jtis = (Ok k, jtis')"
  shows "\<exists>d. fst (ValidateDPoPProof ext' J it' now' dp htm' htu' ath' jtis') = Err (dpop_error d)"
proof (rule ccontr)
  assume "\<not> ?thesis"
  then obtain k' where ok: "fst (ValidateDPoPProof ext' J it' now' dp htm' htu' ath' jtis') = Ok k'"
    using ValidateDPoPProof_shape [of ext' J it' now' dp htm' htu' ath' jtis'] by blast
  obtain jti where "dpop_proof_ok ext J now dp htm htu ath jtis k jti"
    and s': "jtis' = snd (jti_Accept it jti jtis)"
    using assms unfolding ValidateDPoPProof_Ok_iff by blast
  moreover obtain s2 jti' where "dpop_proof_ok ext' J now' dp htm' htu' ath' jtis' k' jti'"
    using ok ValidateDPoPProof_Ok_iff by (metis prod.collapse)
  ultimately have "jti' = jti" "\<not> jti_seen jtis' jti"
    unfolding dpop_proof_ok_def by auto
  then show False using jti.acc_seen [of it jti jtis] s' by simp
qed

definition demo_headers :: "string \<Rightarrow> string \<Rightarrow> string jws_headers" where
  "demo_headers typ key =
     \<lparr>h_typ = Some typ, h_alg = Some ''ES256'', h_jwk = Some key, h_x5c = False, h_kid = None\<rparr>"

definition demo_dpop_token :: jwt_token where
  "demo_dpop_token =
     \<lparr>tok_jti = Some ''j1'', tok_iat = Some 0, tok_aud = None,
      tok_string = map_of [(''htm'', ''POST''), (''htu'', ''https://i.example/n?x=1''), (''jti'', ''j1'')],
      tok_object = (\<lambda>_. None)\<rparr>"

definition demo_jose :: "(string, string) jose" where
  "demo_jose = table_jose [(''P'', demo_headers ''dpop+jwt'' ''K'')] [(''P'', demo_dpop_token)]"

lemma demo_htu: "htuMatches ext ''https://i.example/n?x=1'' ''https://i.example/n''"
  by (simp add: htuMatches_def url_parse_def parse_no_fragment_def is_ctl_def is_upper_def
      is_lower_def is_digit_def lower_char_def parse_rest_def has_prefix_def parse_authority_def
      unescape_host_def should_escape_host_def unreserved_def is_alnum_def set_path_def
      unescape_path_def should_escape_path_def empty_url_def url_string_def)

lemma demo_accept:
  "ValidateDPoPProof (\<lambda>_. None) demo_jose (\<lambda>xs. xs) 0 ''P'' ''POST'' ''https://i.example/n'' [] [] =
     (Ok ''K'', [(''j1'', ())])"
  using demo_htu [of "\<lambda>_. None"]
  by (simp add: ValidateDPoPProof_def dpop_checks_def demo_jose_def table_jose_def demo_headers_def
      demo_dpop_token_def get_or_empty_def equalFoldASCII_def lower_char_def is_upper_def
      time_sub_def dpopIATWindow_def minute_def second_def jti_Accept_def jtiStoreMaxSize_def
      gm_put_def Let_def)

theorem dpop_no_replay_witness:
  "\<exists>d. fst (ValidateDPoPProof (\<lambda>_. None) demo_jose (\<lambda>xs. xs) 5 ''P'' ''GET'' ''https://i.example/c'' ''a''
     [(''j1'', ())]) = Err (dpop_error d)"
  by (rule dpop_no_replay [OF demo_accept])

text \<open>In any sequence of proofs short enough for the store not to fill up, so in any
  interleaving of requests, one identifier is accepted at most once.\<close>

theorem jti_accepted_at_most_once:
  assumes "length s + length js \<le> 10000"
  shows "accept_hits (jti_Accept it) j js s \<le> 1"
  by (rule jti.hits_at_most_once) (use assms in \<open>simp add: jtiStoreMaxSize_def\<close>)

theorem jti_accepted_at_most_once_witness:
  "accept_hits (jti_Accept (\<lambda>xs. xs)) ''a'' [''a'', ''b'', ''a''] NewJTIStore \<le> 1"
  by (rule jti_accepted_at_most_once) (simp add: NewJTIStore_def)

text \<open>No validation, whatever its outcome and whatever order the eviction visits the keys
  in, lets the store grow past ten thousand identifiers, or breaks its key uniqueness.\<close>

theorem jti_store_bounded:
  assumes "iterates it" and "gm_wf jtis" and "length jtis \<le> 10000"
  shows "gm_wf (snd (ValidateDPoPProof ext J it now dp htm htu ath jtis)) \<and>
    length (snd (ValidateDPoPProof ext J it now dp htm htu ath jtis)) \<le> 10000"
  using ValidateDPoPProof_bound [OF assms(1,2)] assms(3) by (simp add: jtiStoreMaxSize_def)

theorem jti_store_bounded_witness:
  "length (snd (ValidateDPoPProof (\<lambda>_. None) demo_jose (\<lambda>xs. xs) 0 ''P'' ''POST''
     ''https://i.example/n'' [] NewJTIStore)) \<le> 10000"
  using jti_store_bounded [of "\<lambda>xs. xs" NewJTIStore "\<lambda>_. None" demo_jose 0 "''P''" "''POST''"
      "''https://i.example/n''" "[]"]
  by (simp add: NewJTIStore_def)

text \<open>C25 (safety): the bound has a price: once the store is full, there is an eviction order in which
  accepting one new identifier forgets a given older one, so that its proof, still inside the
  five-minute window, is accepted a second time.\<close>

theorem full_store_forgets:
  assumes "gm_wf s" and "length s = 10000" and "jti_seen s old" and "\<not> jti_seen s new"
  shows "\<exists>it. iterates it \<and> \<not> jti_seen (snd (jti_Accept it new s)) old \<and>
    fst (jti_Accept it old (snd (jti_Accept it new s)))"
proof -
  define it where "it = (\<lambda>ks :: string list. if old \<in> set ks then old # remove1 old ks else ks)"
  have it: "iterates it"
    by (auto simp: iterates_def it_def)
  have "old \<in> set (map fst s)"
    using assms(3) by (auto simp: jti_seen_def image_iff dest!: map_of_SomeD) (metis fst_conv)
  then obtain ks where ks: "it (map fst s) = old # ks" by (simp add: it_def)
  have "old \<noteq> new" using assms(3,4) by auto
  then have gone: "\<not> jti_seen (snd (jti_Accept it new s)) old"
    using assms(2,4) evict_loop_first [of old ks 0 s]
    by (simp add: jti_Accept_def jtiStoreMaxSize_def ks Let_def) (simp add: jti_seen_def)
  then have "fst (jti_Accept it old (snd (jti_Accept it new s)))"
    by (simp add: jti.acc_iff)
  with it gone show ?thesis by blast
qed

definition full_store :: jti_store where
  "full_store = map (\<lambda>n. (replicate n CHR ''x'', ())) [0..<10000]"

theorem full_store_forgets_witness:
  "\<exists>it. iterates it \<and> \<not> jti_seen (snd (jti_Accept it ''y'' full_store)) ''x''"
proof -
  have 1: "gm_wf full_store"
    by (auto simp: gm_wf_def full_store_def distinct_map inj_on_def o_def dest: arg_cong [where f = length])
  have 2: "length full_store = 10000" by (simp add: full_store_def)
  have "(''x'', ()) \<in> set full_store"
    unfolding full_store_def by (simp add: image_iff) (rule bexI [of _ 1], simp_all)
  then have 3: "jti_seen full_store ''x''"
    using gm_get_in [OF 1] by (auto simp: jti_seen_def)
  have "(''y'', ()) \<notin> set full_store"
    by (auto simp: full_store_def Cons_replicate_eq dest: sym)
  then have 4: "\<not> jti_seen full_store ''y''"
    using gm_get_in [OF 1, of "''y''" "()"] by (auto simp: jti_seen_def)
  show ?thesis using full_store_forgets [OF 1 2 3 4] by blast
qed

text \<open>A lone trailing question mark survives: \<open>ForceQuery\<close> is not cleared.\<close>

lemma htu_empty_query_rejected:
  assumes "plain_host h" and "plain_path p"
  shows "\<not> htuMatches ext (plain_url h p @ ''?'') (plain_url h p)"
proof -
  have nofrag: "CHR ''#'' \<notin> set (plain_url h p)"
    using plain_host_facts(1) [OF assms(1)] plain_path_facts(1) [OF assms(2)]
    by (simp add: plain_url_def)
  have "url_parse ext (plain_url h p) = Some (parsed_plain h p)"
    using nofrag parse_no_fragment_plain [OF assms] by (simp add: url_parse_def cut_at_none)
  moreover have "url_parse ext (plain_url h p @ ''?'') = Some ((parsed_plain h p)\<lparr>u_force_query := True\<rparr>)"
    using nofrag parse_no_fragment_query [OF assms, of "[]"]
    by (simp add: url_parse_def cut_at_none parsed_plain_def empty_url_def)
  moreover have "(parsed_plain h p)\<lparr>u_raw_query := [], u_fragment := []\<rparr> = parsed_plain h p"
    "(parsed_plain h p)\<lparr>u_force_query := True, u_raw_query := [], u_fragment := []\<rparr> =
       (parsed_plain h p)\<lparr>u_force_query := True\<rparr>"
    by (simp_all add: parsed_plain_def empty_url_def)
  ultimately show ?thesis by (simp add: htuMatches_def url_string_plain [OF assms])
qed

text \<open>C26 (functional): for a plain endpoint URL, the \<open>htu\<close> of a proof may carry any non-empty query and
  any decodable fragment, both are ignored; another path on the same host is refused. The comment on
  \<open>htuMatches\<close> says that any query component is ignored; an empty one is not: a proof whose \<open>htu\<close> is the
  endpoint URL followed by a lone question mark is rejected.\<close>

theorem htu_ignores_query_and_fragment:
  assumes "plain_host h" and "plain_path p" and "q \<noteq> []" and "CHR ''#'' \<notin> set q"
    and "\<not> list_ex is_ctl q" and "unescape_path f = Some f'" and "plain_path p'" and "p' \<noteq> p"
  shows "htuMatches ext (plain_url h p @ CHR ''?'' # q) (plain_url h p) \<and>
    htuMatches ext (plain_url h p @ CHR ''?'' # q @ CHR ''#'' # f) (plain_url h p) \<and>
    \<not> htuMatches ext (plain_url h p') (plain_url h p) \<and>
    \<not> htuMatches ext (plain_url h p @ ''?'') (plain_url h p)"
proof -
  have nofrag: "CHR ''#'' \<notin> set (plain_url h p)" "CHR ''#'' \<notin> set (plain_url h p')"
    using plain_host_facts(1) [OF assms(1)] plain_path_facts(1) assms(2,7)
    by (simp_all add: plain_url_def)
  have e: "url_parse ext (plain_url h p) = Some (parsed_plain h p)"
    and e': "url_parse ext (plain_url h p') = Some (parsed_plain h p')"
    using nofrag parse_no_fragment_plain [OF assms(1,2)] parse_no_fragment_plain [OF assms(1,7)]
    by (simp_all add: url_parse_def cut_at_none)
  let ?u = "(parsed_plain h p)\<lparr>u_raw_query := q\<rparr>"
  have pq: "parse_no_fragment ext (plain_url h p @ CHR ''?'' # q) = Some ?u"
    using parse_no_fragment_query [OF assms(1,2,5)] assms(3)
    by (simp add: parsed_plain_def empty_url_def)
  have c1: "url_parse ext (plain_url h p @ CHR ''?'' # q) = Some ?u"
    using pq nofrag(1) assms(4) by (simp add: url_parse_def cut_at_none)
  have "cut_at CHR ''#'' (plain_url h p @ CHR ''?'' # q @ CHR ''#'' # f) =
      (plain_url h p @ CHR ''?'' # q, f, True)"
    using cut_at_fresh [of "CHR ''#''" "plain_url h p @ CHR ''?'' # q" f] nofrag(1) assms(4) by simp
  then have "url_parse ext (plain_url h p @ CHR ''?'' # q @ CHR ''#'' # f) =
      Some (?u\<lparr>u_fragment := (if f = [] then [] else f')\<rparr>)"
    unfolding url_parse_def
    by (simp only: prod.case Let_def pq option.case assms(6))
       (simp add: parsed_plain_def empty_url_def)
  then obtain g where c2: "url_parse ext (plain_url h p @ CHR ''?'' # q @ CHR ''#'' # f) =
      Some (?u\<lparr>u_fragment := g\<rparr>)" by blast
  have clear: "?u\<lparr>u_raw_query := [], u_fragment := []\<rparr> = parsed_plain h p"
    "?u\<lparr>u_fragment := g, u_raw_query := [], u_fragment := []\<rparr> = parsed_plain h p"
    "(parsed_plain h x)\<lparr>u_raw_query := [], u_fragment := []\<rparr> = parsed_plain h x" for x
    by (simp_all add: parsed_plain_def empty_url_def)
  have "plain_url h p' \<noteq> plain_url h p" using assms(8) by (simp add: plain_url_def)
  then show ?thesis
    using assms(1,2,7)
    by (intro conjI htu_empty_query_rejected) (simp_all add: htuMatches_def e e' c1 c2 clear url_string_plain)
qed

theorem htu_ignores_query_and_fragment_witness:
  "htuMatches (\<lambda>_. None) (plain_url ''i.example'' ''/n'' @ ''?a=b'') (plain_url ''i.example'' ''/n'')"
proof -
  have "plain_host ''i.example''" "plain_path ''/n''" "plain_path ''/c''"
    by (simp_all add: plain_host_def plain_path_def char_classes)
  then have "htuMatches (\<lambda>_. None) (plain_url ''i.example'' ''/n'' @ CHR ''?'' # ''a=b'')
      (plain_url ''i.example'' ''/n'')"
    using htu_ignores_query_and_fragment [of "''i.example''" "''/n''" "''a=b''" "[]" "[]" "''/c''"]
    by (simp add: is_ctl_def unescape_path_def)
  then show ?thesis by simp
qed

end
