(* ===== verification/Oid4vci.thy ===== *)
theory Oid4vci
  imports Jose OAuth_Error
begin

text \<open>
  \<open>internal/oid4vci\<close>: the protocol types (credential offer, issuer metadata, credential request and
  response) and the validation of the wallet's key proof. The handlers return the code's errors in
  the code's order; \<open>proof_ok\<close> is the order-free specification they refine.
\<close>

section \<open>Offer, metadata, response\<close>

record credential_offer =
  credential_issuer :: string
  credential_configuration_ids :: "string list"
  grants :: "(string, f64 json) gomap"

definition authorizationCodeGrant :: string where
  "authorizationCodeGrant = ''authorization_code''"

definition AuthorizationCodeOffer :: "string \<Rightarrow> string \<Rightarrow> string \<Rightarrow> credential_offer" where
  "AuthorizationCodeOffer issuerURL configID issuerState =
     (let grant = (if issuerState \<noteq> [] then [(''issuer_state'', JStr issuerState)] else [])
      in \<lparr>credential_issuer = issuerURL,
          credential_configuration_ids = [configID],
          grants = [(authorizationCodeGrant, JObj grant)]\<rparr>)"

text \<open>The struct as \<open>json.Marshal\<close> sees it: the tags in declaration order, maps with sorted keys.\<close>

definition offer_json :: "credential_offer \<Rightarrow> f64 json" where
  "offer_json off =
     JObj [(''credential_issuer'', JStr (credential_issuer off)),
           (''credential_configuration_ids'', JArr (map JStr (credential_configuration_ids off))),
           (''grants'', sort_maps (JObj (grants off)))]"

record md_display =
  md_name :: string
  md_locale :: string

record 'c issuer_metadata =
  md_credential_issuer :: string
  md_authorization_servers :: "string list"
  md_credential_endpoint :: string
  md_nonce_endpoint :: string
  md_notification_endpoint :: string
  md_configurations :: "(string, 'c) gomap"
  md_displays :: "md_display list"

definition BuildCredentialIssuerMetadata ::
  "string \<Rightarrow> string \<Rightarrow> (string, 'c) gomap \<Rightarrow> 'c issuer_metadata" where
  "BuildCredentialIssuerMetadata baseURL authServerURL credentialConfigs =
     \<lparr>md_credential_issuer = baseURL,
      md_authorization_servers = [authServerURL],
      md_credential_endpoint = baseURL @ ''/oid4vci/v1/credential'',
      md_nonce_endpoint = baseURL @ ''/oid4vci/v1/nonce'',
      md_notification_endpoint = baseURL @ ''/oid4vci/v1/notification'',
      md_configurations = credentialConfigs,
      md_displays = [\<lparr>md_name = ''Fikua Lab Issuer'', md_locale = ''en''\<rparr>]\<rparr>"

record credential_response =
  resp_credentials :: "(string, string) gomap list"
  resp_transaction_id :: string
  resp_notification_id :: string

definition SuccessResponse :: "string \<Rightarrow> credential_response" where
  "SuccessResponse credential =
     \<lparr>resp_credentials = [[(''credential'', credential)]],
      resp_transaction_id = [], resp_notification_id = []\<rparr>"

section \<open>The credential request\<close>

record proof_object =
  pf_type :: string
  pf_jwt :: string

record credential_request =
  rq_format :: string
  rq_configuration_id :: string
  rq_identifier :: string
  rq_proof :: "proof_object option"
  rq_proofs :: "(string, string list) gomap"
  rq_encryption :: "(string, f64 json) gomap option"

definition zero_request :: credential_request where
  "zero_request = \<lparr>rq_format = [], rq_configuration_id = [], rq_identifier = [], rq_proof = None,
     rq_proofs = [], rq_encryption = None\<rparr>"

definition assign_proof :: "string \<Rightarrow> string json \<Rightarrow> proof_object \<Rightarrow> proof_object option" where
  "assign_proof n v p =
     (if n = ''proof_type'' then map_option (\<lambda>s. p\<lparr>pf_type := s\<rparr>) (decode_string (pf_type p) v)
      else map_option (\<lambda>s. p\<lparr>pf_jwt := s\<rparr>) (decode_string (pf_jwt p) v))"

definition decode_proof ::
  "proof_object option \<Rightarrow> string json \<Rightarrow> proof_object option option" where
  "decode_proof old v =
     (case v of
        JNull \<Rightarrow> Some None
      | JObj ms \<Rightarrow>
          map_option Some
            (decode_fields [''proof_type'', ''jwt''] assign_proof ms
               (case old of None \<Rightarrow> \<lparr>pf_type = [], pf_jwt = []\<rparr> | Some p \<Rightarrow> p))
      | _ \<Rightarrow> None)"

definition request_fields :: "string list" where
  "request_fields = [''format'', ''credential_configuration_id'', ''credential_identifier'',
     ''proof'', ''proofs'', ''credential_response_encryption'']"

definition assign_request ::
  "float_ops \<Rightarrow> string \<Rightarrow> string json \<Rightarrow> credential_request \<Rightarrow> credential_request option" where
  "assign_request fo n v r =
     (if n = ''format'' then map_option (\<lambda>s. r\<lparr>rq_format := s\<rparr>) (decode_string (rq_format r) v)
      else if n = ''credential_configuration_id'' then
        map_option (\<lambda>s. r\<lparr>rq_configuration_id := s\<rparr>) (decode_string (rq_configuration_id r) v)
      else if n = ''credential_identifier'' then
        map_option (\<lambda>s. r\<lparr>rq_identifier := s\<rparr>) (decode_string (rq_identifier r) v)
      else if n = ''proof'' then map_option (\<lambda>p. r\<lparr>rq_proof := p\<rparr>) (decode_proof (rq_proof r) v)
      else if n = ''proofs'' then map_option (\<lambda>m. r\<lparr>rq_proofs := m\<rparr>) (decode_lists (rq_proofs r) v)
      else map_option (\<lambda>m. r\<lparr>rq_encryption := m\<rparr>) (decode_map fo (rq_encryption r) v))"

text \<open>\<open>json.Unmarshal(body, &req)\<close>.\<close>

definition unmarshal_request :: "float_ops \<Rightarrow> string \<Rightarrow> credential_request option" where
  "unmarshal_request fo body =
     Option.bind (parse_document body)
       (decode_struct request_fields (assign_request fo) zero_request)"

definition ExtractProofJWT :: "credential_request \<Rightarrow> string" where
  "ExtractProofJWT r =
     (case gm_get (rq_proofs r) ''jwt'' of
        Some (j # js) \<Rightarrow> j
      | _ \<Rightarrow> (case rq_proof r of
                Some p \<Rightarrow> if pf_type p = ''jwt'' then pf_jwt p else []
              | None \<Rightarrow> []))"

section \<open>The key proof\<close>

definition proofIATWindow :: duration where
  "proofIATWindow = 5 * minute"

fun contains_string :: "string list \<Rightarrow> string \<Rightarrow> bool" where
  "contains_string [] v = False"
| "contains_string (s # ss) v = (if s = v then True else contains_string ss v)"

lemma contains_string_iff [simp]: "contains_string l v \<longleftrightarrow> v \<in> set l"
  by (induction l) auto

definition proof_error :: "string \<Rightarrow> go_error" where
  "proof_error d = BadRequest InvalidProof d"

text \<open>The em dash of the source's message is written as its UTF-8 bytes.\<close>

definition multiple_refs_message :: string where
  "multiple_refs_message =
     ''Proof must contain exactly one of jwk, x5c, or kid '' @ [CHR 0xE2, CHR 0x80, CHR 0x94] @
     '' multiple key references found''"

definition key_refs :: "'k jws_headers \<Rightarrow> nat" where
  "key_refs h =
     (if h_jwk h \<noteq> None then 1 else 0) + (if h_x5c h then 1 else 0) + (if h_kid h \<noteq> None then 1 else 0)"

definition audience :: "jwt_token \<Rightarrow> string list" where
  "audience token = (case tok_aud token of None \<Rightarrow> [] | Some a \<Rightarrow> a)"

definition ValidateProofJWT ::
  "('k, 'ks) jose \<Rightarrow> instant \<Rightarrow> string \<Rightarrow> string \<Rightarrow> 'k result" where
  "ValidateProofJWT J now proofJWT expectedIssuer =
     then_ok (of_sum (\<lambda>e. proof_error (''Invalid proof: '' @ e)) (jws_parse J proofJWT)) (\<lambda>sigs.
     then_ok (fail_if (length sigs \<noteq> 1) (proof_error ''Proof must have exactly one signature'')) (\<lambda>_.
     let headers = hd sigs in
     then_ok (fail_if (h_typ headers \<noteq> Some ''openid4vci-proof+jwt'')
       (proof_error ''Proof typ must be openid4vci-proof+jwt'')) (\<lambda>_.
     then_ok (fail_if (h_alg headers \<noteq> Some ''ES256'') (proof_error ''Proof must use ES256'')) (\<lambda>_.
     let keyRefs = key_refs headers in
     then_ok (fail_if (keyRefs = 0)
       (proof_error ''Proof must contain exactly one of jwk, x5c, or kid header parameters'')) (\<lambda>_.
     then_ok (fail_if (keyRefs > 1) (proof_error multiple_refs_message)) (\<lambda>_.
     then_ok (of_option (proof_error ''Only jwk key binding method is supported'')
       (h_jwk headers)) (\<lambda>walletJWK.
     then_ok (of_option (proof_error ''Proof signature invalid'')
       (jwt_verify_key J walletJWK proofJWT)) (\<lambda>token.
     then_ok (fail_if (\<not> contains_string (audience token) expectedIssuer)
       (proof_error ''Proof aud must be the credential issuer'')) (\<lambda>_.
     then_ok (of_option (proof_error ''Proof must contain iat claim'') (tok_iat token)) (\<lambda>iat.
     let skew = time_sub now iat in
     then_ok (fail_if (skew > proofIATWindow \<or> skew < - proofIATWindow)
       (proof_error ''Proof expired'')) (\<lambda>_.
     Ok walletJWK)))))))))))"

definition ProofNonce :: "('k, 'ks) jose \<Rightarrow> string \<Rightarrow> string result" where
  "ProofNonce J proofJWT =
     then_ok (of_sum (\<lambda>e. Plain (''oid4vci: parsing proof for nonce: '' @ e)) (jwt_insecure J proofJWT))
       (\<lambda>token. case tok_string token ''nonce'' of None \<Rightarrow> Ok [] | Some n \<Rightarrow> Ok n)"

text \<open>OID4VCI 1.0 section 8.2.1.1, for the only binding method the issuer supports.\<close>

definition proof_ok ::
  "('k, 'ks) jose \<Rightarrow> instant \<Rightarrow> string \<Rightarrow> string \<Rightarrow> 'k \<Rightarrow> bool" where
  "proof_ok J now pf issuer k \<longleftrightarrow>
     (\<exists>h tok aud iat.
        jws_parse J pf = Inr [h] \<and> h_typ h = Some ''openid4vci-proof+jwt'' \<and>
        h_alg h = Some ''ES256'' \<and> h_jwk h = Some k \<and> \<not> h_x5c h \<and> h_kid h = None \<and>
        jwt_verify_key J k pf = Some tok \<and> tok_aud tok = Some aud \<and> issuer \<in> set aud \<and>
        tok_iat tok = Some iat \<and> \<bar>now - iat\<bar> \<le> 5 * 60 * 1000000000)"

lemma proof_window: "(time_sub now iat > proofIATWindow \<or> time_sub now iat < - proofIATWindow) \<longleftrightarrow>
    \<not> \<bar>now - iat\<bar> \<le> 5 * 60 * 1000000000"
  using time_sub_window [of proofIATWindow now iat]
  by (simp add: proofIATWindow_def minute_def second_def not_le)

lemma key_refs_jwk:
  "h_jwk h = Some k \<Longrightarrow> key_refs h \<noteq> 0"
  "h_jwk h = Some k \<Longrightarrow> 1 < key_refs h \<longleftrightarrow> h_x5c h \<or> h_kid h \<noteq> None"
  by (simp_all add: key_refs_def)

lemma audience_iff: "i \<in> set (audience tok) \<longleftrightarrow> (\<exists>aud. tok_aud tok = Some aud \<and> i \<in> set aud)"
  by (cases "tok_aud tok") (auto simp: audience_def)

lemma ValidateProofJWT_Ok_iff:
  "ValidateProofJWT J now pf issuer = Ok k \<longleftrightarrow> proof_ok J now pf issuer k"
proof
  assume "ValidateProofJWT J now pf issuer = Ok k"
  then obtain sigs tok iat where p: "jws_parse J pf = Inr sigs" "\<not> length sigs \<noteq> 1"
    and rest: "h_typ (hd sigs) = Some ''openid4vci-proof+jwt''" "h_alg (hd sigs) = Some ''ES256''"
      "\<not> 1 < key_refs (hd sigs)" "h_jwk (hd sigs) = Some k" "jwt_verify_key J k pf = Some tok"
      "issuer \<in> set (audience tok)" "tok_iat tok = Some iat" "\<bar>now - iat\<bar> \<le> 5 * 60 * 1000000000"
    unfolding ValidateProofJWT_def Let_def go_outcome proof_window contains_string_iff not_not
      outcome.inject by (elim exE conjE) blast
  from p(2) obtain h where "sigs = [h]" by (auto simp: length_Suc_conv)
  with p rest show "proof_ok J now pf issuer k"
    unfolding proof_ok_def audience_iff using key_refs_jwk(2) [of h k] by auto
next
  assume "proof_ok J now pf issuer k"
  then obtain h tok iat where
    "jws_parse J pf = Inr [h]" "h_typ h = Some ''openid4vci-proof+jwt''"
    "h_alg h = Some ''ES256''" "h_jwk h = Some k" "\<not> h_x5c h" "h_kid h = None"
    "jwt_verify_key J k pf = Some tok" "issuer \<in> set (audience tok)"
    "tok_iat tok = Some iat" "\<bar>now - iat\<bar> \<le> 5 * 60 * 1000000000"
    unfolding proof_ok_def audience_iff by blast
  then show "ValidateProofJWT J now pf issuer = Ok k"
    using proof_window [of now iat]
    by (simp add: ValidateProofJWT_def Let_def key_refs_def)
qed

lemma ValidateProofJWT_Err:
  "ValidateProofJWT J now pf issuer = Err e \<Longrightarrow> \<exists>d. e = proof_error d"
  by (auto simp: ValidateProofJWT_def go_outcome Let_def)

lemma ValidateProofJWT_no_panic: "ValidateProofJWT J now pf issuer \<noteq> Panic p"
  unfolding ValidateProofJWT_def Let_def by (intro then_ok_no_panic) simp_all

section \<open>Properties\<close>

text \<open>C27 (refinement): a key proof is accepted exactly when it is a single ES256 signature of the proof
  type whose only key reference is a \<open>jwk\<close> under which it verifies, names this issuer among its
  audiences and was issued within five minutes either way; the key returned is that \<open>jwk\<close>. Every
  rejection is a 400 \<open>invalid_proof\<close>, and validation never panics.\<close>

theorem key_proof_accepts_exactly:
  "(ValidateProofJWT J now pf issuer = Ok k \<longleftrightarrow> proof_ok J now pf issuer k) \<and>
   ((\<exists>k. ValidateProofJWT J now pf issuer = Ok k) \<or>
    (\<exists>d. ValidateProofJWT J now pf issuer = Err (BadRequest InvalidProof d)))"
proof -
  have "(\<exists>k. ValidateProofJWT J now pf issuer = Ok k) \<or>
    (\<exists>d. ValidateProofJWT J now pf issuer = Err (BadRequest InvalidProof d))"
    using ValidateProofJWT_Err [of J now pf issuer] ValidateProofJWT_no_panic [of J now pf issuer]
    by (cases "ValidateProofJWT J now pf issuer") (auto simp: proof_error_def)
  then show ?thesis using ValidateProofJWT_Ok_iff [of J now pf issuer k] by simp
qed

end
