(* ===== verification/Service.thy ===== *)
theory Service
  imports Issuance_Store Status_List Sd_Jwt Mdoc Access_Token Dpop Oid4vci
begin

text \<open>
  \<open>internal/issuance/service.go\<close>: the issuance service, composed of all the components. \<open>service_env\<close>
  holds what a \<open>Service\<close> is built with and never changes (base URL, key, the two store interfaces) and
  the third-party code behind it; \<open>service\<close> is its mutable state with the stores it points to and the
  outside world. A request is a function of the state; the replies of the authorization server
  during it are an \<open>as_world\<close>. Each call under a mutex is one step of the model; what interleaving
  requests can do is the subject of \<open>Service_Status\<close> and \<open>Issue_Threads\<close>.
\<close>

section \<open>The service\<close>

definition statusListID :: string where "statusListID = ''pid''"
definition statusListCacheTTL :: duration where "statusListCacheTTL = 60 * second"
definition PIDConfigID :: string where "PIDConfigID = ''urn:eudi:pid:1''"
definition PIDMdocConfigID :: string where "PIDMdocConfigID = ''urn:eudi:pid:1.mdoc''"
definition pidVCT :: string where "pidVCT = ''urn:eudi:pid:1''"
definition pidDocType :: string where "pidDocType = ''eu.europa.ec.eudi.pid.1''"
definition pidSubjectPrefix :: string where "pidSubjectPrefix = ''urn:fikua:pid:''"

record ('k, 'ks, 'sg, 's) service_env =
  se_baseURL :: string
  se_issuerKey :: "('k, 'sg) signing_key"
  se_records :: "'s record_ops"
  se_status :: "'s status_ops"
  se_float :: float_ops
  se_jose :: "('k, 'ks) jose"
  se_out :: "('k, 'sg) jose_out"
  se_zlib :: zlib
  se_cbor :: cbor_lib
  se_asn1_error :: "bytes \<Rightarrow> string"
  se_url :: "string \<Rightarrow> string option"
  se_marshal_error :: string
  se_jti_order :: "string iteration"
  se_entry_order :: "(int \<times> byte) iteration"
  se_claim_order :: "(string \<times> f64 json) iteration"

record ('s, 'ks) service =
  sv_store :: 's
  sv_sessions :: session_store
  sv_jtis :: jti_store
  sv_tokens :: "'ks verifier"
  sv_cacheToken :: string
  sv_cacheExp :: instant
  sv_world :: world

definition NewService :: "session_store \<Rightarrow> 's \<Rightarrow> 'ks verifier \<Rightarrow> world \<Rightarrow> ('s, 'ks) service" where
  "NewService sessions store tokens w =
     \<lparr>sv_store = store, sv_sessions = sessions, sv_jtis = NewJTIStore, sv_tokens = tokens,
      sv_cacheToken = [], sv_cacheExp = zero_time, sv_world = w\<rparr>"

text \<open>Calls on the store, the clock and the entropy source, on the whole state.\<close>

definition on_store :: "('s \<Rightarrow> 'a \<times> 's) \<Rightarrow> ('s, 'ks) service \<Rightarrow> 'a \<times> ('s, 'ks) service" where
  "on_store f sv = (let (a, t) = f (sv_store sv) in (a, sv\<lparr>sv_store := t\<rparr>))"

definition on_store_world ::
  "('s \<Rightarrow> world \<Rightarrow> 's \<times> world) \<Rightarrow> ('s, 'ks) service \<Rightarrow> ('s, 'ks) service" where
  "on_store_world f sv = (let (t, w) = f (sv_store sv) (sv_world sv) in sv\<lparr>sv_store := t, sv_world := w\<rparr>)"

definition on_world :: "(world \<Rightarrow> 'a \<times> world) \<Rightarrow> ('s, 'ks) service \<Rightarrow> 'a \<times> ('s, 'ks) service" where
  "on_world f sv = (let (a, w) = f (sv_world sv) in (a, sv\<lparr>sv_world := w\<rparr>))"

definition call_Create ::
  "('k, 'ks, 'sg, 's) service_env \<Rightarrow> string \<Rightarrow> string \<Rightarrow> string \<Rightarrow> string \<Rightarrow> ('s, 'ks) service \<Rightarrow>
   issuance_record \<times> ('s, 'ks) service" where
  "call_Create E ct cd st sr sv =
     (let (r, t, w) = ro_Create (se_records E) ct cd st sr (sv_store sv) (sv_world sv)
      in (r, sv\<lparr>sv_store := t, sv_world := w\<rparr>))"

section \<open>Triggering an issuance\<close>

record trigger_request =
  tr_credential_type :: string
  tr_credential_data :: "(string, f64 json) gomap option"
  tr_source_type :: string
  tr_source_ref :: string

record trigger_result =
  ti_issuance_id :: string
  ti_credential_offer_uri :: string

definition trigger_failure :: "string \<Rightarrow> go_error" where
  "trigger_failure e = BadRequest InvalidRequest (''Failed to trigger issuance: '' @ e)"

definition store_offer :: "string \<Rightarrow> ('s, 'ks) service \<Rightarrow> string \<times> ('s, 'ks) service" where
  "store_offer offerJSON sv =
     (let (oid, rnd, ss) = StoreCredentialOffer offerJSON (w_rand (sv_world sv)) (sv_sessions sv)
      in (oid, sv\<lparr>sv_sessions := ss, sv_world := (sv_world sv)\<lparr>w_rand := rnd\<rparr>\<rparr>))"

definition TriggerIssuance ::
  "('k, 'ks, 'sg, 's) service_env \<Rightarrow> trigger_request \<Rightarrow> ('s, 'ks) service \<Rightarrow>
   trigger_result result \<times> ('s, 'ks) service" where
  "TriggerIssuance E req sv0 =
     (let credentialType = (if tr_credential_type req = [] then PIDConfigID else tr_credential_type req);
          credentialData = (case tr_credential_data req of None \<Rightarrow> [] | Some m \<Rightarrow> m)
      in st_then (of_option (trigger_failure (se_marshal_error E)) (marshal_any (se_float E) (JObj credentialData)), sv0)
        (\<lambda>credentialDataJSON sv.
          let (rc, sv) = call_Create E credentialType credentialDataJSON (tr_source_type req) (tr_source_ref req) sv;
              (issuerState, sv) = on_world (draw_token 16) sv;
              sv = on_store_world (ro_UpdateIssuerState (se_records E) (rec_ID rc) issuerState) sv;
              offer = AuthorizationCodeOffer (se_baseURL E) credentialType issuerState
          in st_then (of_option (trigger_failure (se_marshal_error E)) (marshal (se_float E) (offer_json offer)), sv)
            (\<lambda>offerJSON sv.
              let (offerID, sv) = store_offer offerJSON sv;
                  sv = on_store_world (ro_UpdateStatus (se_records E) (rec_ID rc) ''offer_created'') sv;
                  offerURI = se_baseURL E @ ''/oid4vci/v1/credential-offer/'' @ offerID
              in (Ok \<lparr>ti_issuance_id = rec_ID rc, ti_credential_offer_uri = offerURI\<rparr>, sv))))"

definition service_GetCredentialOffer :: "string \<Rightarrow> ('s, 'ks) service \<Rightarrow> string option" where
  "service_GetCredentialOffer i sv = GetCredentialOffer i (sv_sessions sv)"

definition service_FindByIssuerState ::
  "('k, 'ks, 'sg, 's) service_env \<Rightarrow> string \<Rightarrow> ('s, 'ks) service \<Rightarrow>
   issuance_record option \<times> ('s, 'ks) service" where
  "service_FindByIssuerState E issuerState sv =
     on_store (ro_FindByIssuerState (se_records E) issuerState) sv"

section \<open>Who is asking\<close>

definition requireBoundThumbprint ::
  "('k, 'ks) jose \<Rightarrow> string \<Rightarrow> 'k \<Rightarrow> string \<Rightarrow> unit result" where
  "requireBoundThumbprint J boundJKT presentedKey mismatchMessage =
     (case DPoPThumbprint J presentedKey of
        Err _ \<Rightarrow> Err (Unauthorized InvalidToken ''DPoP thumbprint verification failed'')
      | Panic p \<Rightarrow> Panic p
      | Ok actual \<Rightarrow> fail_if (boundJKT \<noteq> actual) (Unauthorized InvalidToken mismatchMessage))"

text \<open>
  The sequence both protected endpoints start with: the access token, the DPoP proof at this
  endpoint, and the binding of one to the other. The clock is read once for the proof; where the
  proof is refused before its age is looked at, the reading is simply not used.
\<close>

definition authorize ::
  "('k, 'ks, 'sg, 's) service_env \<Rightarrow> as_world \<Rightarrow> string \<Rightarrow> string \<Rightarrow> string \<Rightarrow> string \<Rightarrow>
   ('s, 'ks) service \<Rightarrow> token_claims result \<times> ('s, 'ks) service" where
  "authorize E A accessToken dpopHeader endpoint mismatch sv0 =
     (let (verdict, v) = Verify (se_float E) (se_jose E) A accessToken (sv_tokens sv0)
      in st_then (verdict, sv0\<lparr>sv_tokens := v\<rparr>) (\<lambda>claims sv.
         let (now, sv) = on_world time_Now sv;
             (key, jtis) = ValidateDPoPProof (se_url E) (se_jose E) (se_jti_order E) now dpopHeader ''POST''
               (se_baseURL E @ endpoint) (ComputeATH accessToken) (sv_jtis sv)
         in st_then (key, sv\<lparr>sv_jtis := jtis\<rparr>) (\<lambda>dpopKey sv.
            st_then (requireBoundThumbprint (se_jose E) (c_JKT claims) dpopKey mismatch, sv) (\<lambda>_ sv.
            (Ok claims, sv)))))"

definition service_GenerateNonce ::
  "('k, 'ks, 'sg, 's) service_env \<Rightarrow> as_world \<Rightarrow> string \<Rightarrow> string \<Rightarrow> ('s, 'ks) service \<Rightarrow>
   string result \<times> ('s, 'ks) service" where
  "service_GenerateNonce E A accessToken dpopHeader sv0 =
     (let (nonce, rnd) = GenerateNonce (w_rand (sv_world sv0));
          sv = sv0\<lparr>sv_world := (sv_world sv0)\<lparr>w_rand := rnd\<rparr>, sv_sessions := RegisterNonce nonce (sv_sessions sv0)\<rparr>
      in if accessToken \<noteq> [] then
           st_then (authorize E A accessToken dpopHeader ''/oid4vci/v1/nonce''
             ''DPoP key mismatch at nonce endpoint'' sv) (\<lambda>_ sv. (Ok nonce, sv))
         else (Ok nonce, sv))"

section \<open>Issuing a credential\<close>

definition request_error :: "string \<Rightarrow> go_error" where
  "request_error d = BadRequest InvalidCredentialRequest d"

definition read_request :: "('k, 'ks, 'sg, 's) service_env \<Rightarrow> string \<Rightarrow> credential_request result" where
  "read_request E body =
     then_ok (of_option (request_error (''Invalid request body: '' @ json_error (se_float E) body))
       (unmarshal_request (se_float E) body)) (\<lambda>req.
     then_ok (fail_if (rq_configuration_id req = [] \<and> rq_identifier req = [])
       (request_error ''credential_configuration_id or credential_identifier is required'')) (\<lambda>_.
     then_ok (fail_if (rq_identifier req \<noteq> [])
       (BadRequest UnknownCredentialIdentifier ''Identifier-based credential requests are not supported'')) (\<lambda>_.
     then_ok (fail_if (rq_configuration_id req \<noteq> PIDConfigID \<and> rq_configuration_id req \<noteq> PIDMdocConfigID)
       (BadRequest UnknownCredentialConfiguration
         (''Unknown credential_configuration_id: '' @ rq_configuration_id req))) (\<lambda>_.
     Ok req))))"

definition nonce_error :: go_error where
  "nonce_error = BadRequest InvalidNonce ''Proof nonce does not match c_nonce''"

definition validateProofNonce ::
  "('k, 'ks, 'sg, 's) service_env \<Rightarrow> string \<Rightarrow> string \<Rightarrow> ('s, 'ks) service \<Rightarrow>
   unit result \<times> ('s, 'ks) service" where
  "validateProofNonce E proofJWT tokenCNonce sv =
     (case ProofNonce (se_jose E) proofJWT of
        Err _ \<Rightarrow> (Err nonce_error, sv)
      | Panic p \<Rightarrow> (Panic p, sv)
      | Ok proofNonce \<Rightarrow>
          if proofNonce = [] then (Err nonce_error, sv)
          else let (known, ss) = ValidateNonce proofNonce (sv_sessions sv); sv = sv\<lparr>sv_sessions := ss\<rparr>
               in if known then (Ok (), sv)
                  else if tokenCNonce \<noteq> [] \<and> proofNonce = tokenCNonce then (Ok (), sv)
                  else (Err nonce_error, sv))"

definition statusClaim :: "int \<Rightarrow> string \<Rightarrow> (string \<times> go_any) list" where
  "statusClaim idx uri = [(''status_list'', VMap [(''idx'', VInt idx), (''uri'', VStr uri)])]"

definition parse_credential_data ::
  "('k, 'ks, 'sg, 's) service_env \<Rightarrow> issuance_record \<Rightarrow> (string, f64 json) gomap result" where
  "parse_credential_data E rc =
     then_ok (of_option (Plain (''parsing credential_data: '' @ json_error (se_float E) (CredentialData rc)))
       (unmarshal_map (se_float E) (CredentialData rc))) (\<lambda>m.
     Ok (case m of None \<Rightarrow> [] | Some cs \<Rightarrow> cs))"

text \<open>The builder as it stands when \<open>Build\<close> is called.\<close>

definition pid_sd_builder ::
  "('k, 'ks, 'sg, 's) service_env \<Rightarrow> 'k \<Rightarrow> (string, f64 json) gomap \<Rightarrow> string \<Rightarrow> int \<Rightarrow> string \<Rightarrow>
   ('k, 'sg) sd_builder" where
  "pid_sd_builder E walletKey claims sub statusIdx statusURI =
     (let b = sd_X5CChain (sk_x5cChain (se_issuerKey E)) (sd_HolderKey walletKey (sd_Subject sub
                (sd_Issuer (se_baseURL E) (sd_VCT pidVCT (sd_NewBuilder (se_issuerKey E))))));
          b = foldl (\<lambda>b (name, value). SelectiveClaim name (VStr (Sprintf_v (se_float E) value)) b)
                b (se_claim_order E claims);
          b = PlainClaim ''issuing_authority'' (VStr ''Fikua Lab'') b;
          b = PlainClaim ''issuing_country'' (VStr ''ES'') b
      in PlainClaim ''status'' (VMap (statusClaim statusIdx statusURI)) b)"

definition buildSDJWTCredential ::
  "('k, 'ks, 'sg, 's) service_env \<Rightarrow> 'k \<Rightarrow> issuance_record \<Rightarrow> int \<Rightarrow> string \<Rightarrow> world \<Rightarrow>
   string result \<times> world" where
  "buildSDJWTCredential E walletKey rc statusIdx statusURI w0 =
     st_then (parse_credential_data E rc, w0) (\<lambda>claims w.
     let (tok, w) = draw_token 8 w
     in sd_Build (se_float E) (se_out E)
          (pid_sd_builder E walletKey claims (pidSubjectPrefix @ tok) statusIdx statusURI) w)"

definition pid_mdoc_builder ::
  "('k, 'ks, 'sg, 's) service_env \<Rightarrow> 'k \<Rightarrow> (string, f64 json) gomap \<Rightarrow> int \<Rightarrow> string \<Rightarrow>
   ('k, 'sg) mdoc_builder" where
  "pid_mdoc_builder E walletKey claims statusIdx statusURI =
     (let b = mdoc_X5CChain (sk_x5cChain (se_issuerKey E)) (mdoc_DeviceKey walletKey
                (mdoc_Namespace pidDocType (mdoc_DocType pidDocType (mdoc_NewBuilder (se_issuerKey E)))));
          b = foldl (\<lambda>b (name, value). mdoc_Element name (Sprintf_v (se_float E) value) b)
                b (se_claim_order E claims);
          b = mdoc_Element ''issuing_authority'' ''Fikua Lab'' b;
          b = mdoc_Element ''issuing_country'' ''ES'' b
      in mdoc_MapElement ''status'' (statusClaim statusIdx statusURI) b)"

definition buildMdocCredential ::
  "('k, 'ks, 'sg, 's) service_env \<Rightarrow> 'k \<Rightarrow> issuance_record \<Rightarrow> int \<Rightarrow> string \<Rightarrow> world \<Rightarrow>
   string result \<times> world" where
  "buildMdocCredential E walletKey rc statusIdx statusURI w0 =
     st_then (parse_credential_data E rc, w0) (\<lambda>claims w.
     BuildBase64URL (se_out E) (se_cbor E) (se_asn1_error E)
       (pid_mdoc_builder E walletKey claims statusIdx statusURI) w)"

definition status_uri :: "('k, 'ks, 'sg, 's) service_env \<Rightarrow> string" where
  "status_uri E = se_baseURL E @ ''/oid4vci/v1/status-list/'' @ statusListID"

definition build_credential ::
  "('k, 'ks, 'sg, 's) service_env \<Rightarrow> string \<Rightarrow> 'k \<Rightarrow> issuance_record \<Rightarrow> int \<Rightarrow> world \<Rightarrow>
   string result \<times> world" where
  "build_credential E configID walletKey rc statusIdx w =
     (let (res, w') =
        (if configID = PIDMdocConfigID
         then buildMdocCredential E walletKey rc statusIdx (status_uri E) w
         else buildSDJWTCredential E walletKey rc statusIdx (status_uri E) w)
      in (map_err (\<lambda>e. BadRequest InvalidRequest (''Invalid credential request: '' @ error_text e)) res, w'))"

definition no_record_message :: string where
  "no_record_message = ''No issuance record linked to this access token. Use POST /oid4vci/v1/issuance '' @
     ''to trigger credential issuance.''"

definition no_data_message :: string where
  "no_data_message = ''Issuance record has no credential data. Provide credential_data when triggering issuance.''"

definition IssueCredential ::
  "('k, 'ks, 'sg, 's) service_env \<Rightarrow> as_world \<Rightarrow> string \<Rightarrow> string \<Rightarrow> string \<Rightarrow> ('s, 'ks) service \<Rightarrow>
   credential_response result \<times> ('s, 'ks) service" where
  "IssueCredential E A accessToken dpopHeader body sv0 =
     st_then (authorize E A accessToken dpopHeader ''/oid4vci/v1/credential'' ''DPoP key mismatch'' sv0) (\<lambda>claims sv.
     st_then (read_request E body, sv) (\<lambda>req sv.
     let proofJWT = ExtractProofJWT req in
     st_then (fail_if (proofJWT = []) (BadRequest InvalidProof ''proof_type must be jwt''), sv) (\<lambda>_ sv.
     let (now, sv) = on_world time_Now sv in
     st_then (ValidateProofJWT (se_jose E) now proofJWT (se_baseURL E), sv) (\<lambda>walletKey sv.
     st_then (validateProofNonce E proofJWT (c_CNonce claims) sv) (\<lambda>_ sv.
     let rid = c_IssuanceRecordID claims in
     st_then (fail_if (rid = []) (BadRequest InvalidRequest no_record_message), sv) (\<lambda>_ sv.
     let (found, sv) = on_store (ro_FindByID (se_records E) rid) sv in
     st_then (of_option (BadRequest InvalidRequest no_data_message) found, sv) (\<lambda>rc sv.
     st_then (fail_if (CredentialData rc = [] \<or> CredentialData rc = ''{}'')
       (BadRequest InvalidRequest no_data_message), sv) (\<lambda>_ sv.
     let (allocated, sv) = on_store (so_AllocateIdx (se_status E) rid) sv in
     st_then (map_err (\<lambda>e. BadRequest InvalidRequest (''Failed to allocate status list index: '' @ error_text e)) allocated, sv)
       (\<lambda>statusIdx sv.
     st_then (on_world (build_credential E (rq_configuration_id req) walletKey rc statusIdx) sv) (\<lambda>credential sv.
     let sv = on_store_world (ro_UpdateStatus (se_records E) rid ''credential_issued'') sv;
         sv = sv\<lparr>sv_sessions := InvalidateNonce (c_CNonce claims) (sv_sessions sv)\<rparr>
     in (Ok (SuccessResponse credential), sv)))))))))))"

section \<open>The status list\<close>

definition size_of_entries :: "(int \<times> byte) list \<Rightarrow> int" where
  "size_of_entries es = foldl (\<lambda>sz (idx, _). if i64 (idx + 1) > sz then i64 (idx + 1) else sz) 0 es"

text \<open>
  \<open>GetStatusListToken\<close> runs under the cache mutex. Its stages are separate definitions because other
  requests reach the store between them: the cache is tried, the entries are read, and the list is
  signed and cached.
\<close>

definition cached_token :: "('s, 'ks) service \<Rightarrow> string option \<times> ('s, 'ks) service" where
  "cached_token sv =
     (if sv_cacheToken sv \<noteq> [] then
        let (now, sv) = on_world time_Now sv
        in (if now < sv_cacheExp sv then Some (sv_cacheToken sv) else None, sv)
      else (None, sv))"

definition load_entries ::
  "('k, 'ks, 'sg, 's) service_env \<Rightarrow> ('s, 'ks) service \<Rightarrow> (int, byte) gomap result \<times> ('s, 'ks) service" where
  "load_entries E sv =
     (let (all, sv) = on_store (so_AllEntries (se_status E)) sv
      in (map_err (\<lambda>e. BadRequest InvalidRequest (''Failed to load status list entries: '' @ error_text e)) all, sv))"

definition sign_entries ::
  "('k, 'ks, 'sg, 's) service_env \<Rightarrow> (int, byte) gomap \<Rightarrow> ('s, 'ks) service \<Rightarrow>
   string result \<times> ('s, 'ks) service" where
  "sign_entries E entries sv =
     (let sz = size_of_entries (se_entry_order E entries);
          (tok, sv) = on_world (Build_status_list (se_out E) (se_zlib E) (se_entry_order E) entries sz
            (status_uri E) (se_issuerKey E)) sv
      in st_then (map_err (\<lambda>e. BadRequest InvalidRequest (''Failed to build status list token: '' @ error_text e)) tok, sv)
        (\<lambda>token sv.
      let (now, sv) = on_world time_Now sv
      in (Ok token, sv\<lparr>sv_cacheToken := token, sv_cacheExp := now + statusListCacheTTL\<rparr>)))"

definition GetStatusListToken ::
  "('k, 'ks, 'sg, 's) service_env \<Rightarrow> string \<Rightarrow> ('s, 'ks) service \<Rightarrow> string result \<times> ('s, 'ks) service" where
  "GetStatusListToken E listID sv0 =
     st_then (fail_if (listID \<noteq> statusListID) (BadRequest InvalidRequest (''Unknown status list: '' @ listID)), sv0)
       (\<lambda>_ sv.
     case cached_token sv of
       (Some token, sv) \<Rightarrow> (Ok token, sv)
     | (None, sv) \<Rightarrow> st_then (load_entries E sv) (sign_entries E))"

text \<open>A revocation checks the record, marks its entry, and only then takes the mutex to drop the cache.\<close>

definition revocable ::
  "('k, 'ks, 'sg, 's) service_env \<Rightarrow> string \<Rightarrow> ('s, 'ks) service \<Rightarrow> unit result \<times> ('s, 'ks) service" where
  "revocable E rid sv0 =
     (let (found, sv) = on_store (ro_FindByID (se_records E) rid) sv0 in
      st_then (of_option (BadRequest InvalidRequest (''Unknown issuance record: '' @ rid)) found, sv) (\<lambda>rc sv.
      st_then (fail_if (rec_Status rc \<noteq> ''credential_issued'') (BadRequest InvalidRequest
        (''Only an issued credential can be revoked (current status: '' @ rec_Status rc @ '')'')), sv) (\<lambda>_ sv.
      let (slot, sv) = on_store (so_FindByRecordID (se_status E) rid) sv in
      st_then (of_option (BadRequest InvalidRequest (''This credential has no status list entry '' @
        ''(issued before revocation support existed) and cannot be revoked'')) slot, sv) (\<lambda>_ sv. (Ok (), sv)))))"

definition mark_invalid ::
  "('k, 'ks, 'sg, 's) service_env \<Rightarrow> string \<Rightarrow> ('s, 'ks) service \<Rightarrow> unit result \<times> ('s, 'ks) service" where
  "mark_invalid E rid sv =
     (let (upd, sv) = on_store (so_SetStatus (se_status E) rid StatusInvalid) sv in
      st_then (of_option (BadRequest InvalidRequest ''Failed to revoke credential'') upd, sv) (\<lambda>_ sv. (Ok (), sv)))"

definition drop_cache :: "('s, 'ks) service \<Rightarrow> ('s, 'ks) service" where
  "drop_cache sv = sv\<lparr>sv_cacheToken := []\<rparr>"

definition RevokeCredential ::
  "('k, 'ks, 'sg, 's) service_env \<Rightarrow> string \<Rightarrow> ('s, 'ks) service \<Rightarrow> unit result \<times> ('s, 'ks) service" where
  "RevokeCredential E rid sv0 =
     st_then (revocable E rid sv0) (\<lambda>_ sv.
     st_then (mark_invalid E rid sv) (\<lambda>_ sv.
     (Ok (), drop_cache sv)))"

end
