(* ===== verification/Either_Store.thy ===== *)
theory Either_Store
  imports Issuance_Store
begin

text \<open>
  Which store the service runs on is decided when the process starts (\<open>loadIssuanceStore\<close> in
  \<open>cmd/issuer/main.go\<close>): Postgres if a database is configured, otherwise the in-memory store. A Go interface value is a
  store of either kind, so the state here is a sum and each operation is dispatched to the store that
  is there. The combined store satisfies the joint contract because both do.
\<close>

type_synonym any_store = "memory_store + pg_store"

record store_params =
  sp_map_order :: "(string \<times> issuance_record) iteration"
  sp_big_sort :: "issuance_record big_sort"
  sp_pg :: pg_params

definition store_params_ok :: "store_params \<Rightarrow> bool" where
  "store_params_ok sp \<longleftrightarrow> iterates (sp_map_order sp) \<and> rearranges (sp_big_sort sp) \<and> pg_orders_ok (sp_pg sp)"

definition plain_store_params :: store_params where
  "plain_store_params = \<lparr>sp_map_order = (\<lambda>xs. xs), sp_big_sort = insertion_sort, sp_pg = plain_pg\<rparr>"

lemma plain_store_params_ok: "store_params_ok plain_store_params"
  by (simp add: store_params_ok_def plain_store_params_def plain_pg_orders rearranges_def iterates_def
      insertion_sort_mset)

section \<open>Dispatch\<close>

fun dispatch :: "('a \<Rightarrow> 'r \<times> 'a) \<Rightarrow> ('b \<Rightarrow> 'r \<times> 'b) \<Rightarrow> 'a + 'b \<Rightarrow> 'r \<times> ('a + 'b)" where
  "dispatch f g (Inl a) = (let (r, a') = f a in (r, Inl a'))"
| "dispatch f g (Inr b) = (let (r, b') = g b in (r, Inr b'))"

fun dispatch_world ::
  "('a \<Rightarrow> 'w \<Rightarrow> 'a \<times> 'w) \<Rightarrow> ('b \<Rightarrow> 'w \<Rightarrow> 'b \<times> 'w) \<Rightarrow> 'a + 'b \<Rightarrow> 'w \<Rightarrow> ('a + 'b) \<times> 'w" where
  "dispatch_world f g (Inl a) w = (let (a', w') = f a w in (Inl a', w'))"
| "dispatch_world f g (Inr b) w = (let (b', w') = g b w in (Inr b', w'))"

fun dispatch_create ::
  "('a \<Rightarrow> 'w \<Rightarrow> 'r \<times> 'a \<times> 'w) \<Rightarrow> ('b \<Rightarrow> 'w \<Rightarrow> 'r \<times> 'b \<times> 'w) \<Rightarrow> 'a + 'b \<Rightarrow> 'w \<Rightarrow> 'r \<times> ('a + 'b) \<times> 'w" where
  "dispatch_create f g (Inl a) w = (let (r, a', w') = f a w in (r, Inl a', w'))"
| "dispatch_create f g (Inr b) w = (let (r, b', w') = g b w in (r, Inr b', w'))"

definition either_records :: "'a record_ops \<Rightarrow> 'b record_ops \<Rightarrow> ('a + 'b) record_ops" where
  "either_records R Q =
     \<lparr>ro_Create = \<lambda>ct cd st sr. dispatch_create (ro_Create R ct cd st sr) (ro_Create Q ct cd st sr),
      ro_FindByID = \<lambda>i. dispatch (ro_FindByID R i) (ro_FindByID Q i),
      ro_FindByIssuerState = \<lambda>i. dispatch (ro_FindByIssuerState R i) (ro_FindByIssuerState Q i),
      ro_UpdateStatus = \<lambda>i x. dispatch_world (ro_UpdateStatus R i x) (ro_UpdateStatus Q i x),
      ro_UpdateIssuerState = \<lambda>i x. dispatch_world (ro_UpdateIssuerState R i x) (ro_UpdateIssuerState Q i x),
      ro_FindAll = \<lambda>off lim f ord. dispatch (ro_FindAll R off lim f ord) (ro_FindAll Q off lim f ord)\<rparr>"

definition either_status :: "'a status_ops \<Rightarrow> 'b status_ops \<Rightarrow> ('a + 'b) status_ops" where
  "either_status S T =
     \<lparr>so_AllocateIdx = \<lambda>r. dispatch (so_AllocateIdx S r) (so_AllocateIdx T r),
      so_SetStatus = \<lambda>r v. dispatch (so_SetStatus S r v) (so_SetStatus T r v),
      so_FindByRecordID = \<lambda>r. dispatch (so_FindByRecordID S r) (so_FindByRecordID T r),
      so_AllEntries = dispatch (so_AllEntries S) (so_AllEntries T)\<rparr>"

lemma dispatch_eq:
  "dispatch f g s = (r, s') \<longleftrightarrow>
   (\<exists>a a'. s = Inl a \<and> s' = Inl a' \<and> f a = (r, a')) \<or> (\<exists>b b'. s = Inr b \<and> s' = Inr b' \<and> g b = (r, b'))"
  by (cases s) (auto simp: split_beta Let_def prod_eq_iff)

lemma dispatch_world_eq:
  "dispatch_world f g s w = (s', w') \<longleftrightarrow>
   (\<exists>a a'. s = Inl a \<and> s' = Inl a' \<and> f a w = (a', w')) \<or> (\<exists>b b'. s = Inr b \<and> s' = Inr b' \<and> g b w = (b', w'))"
  by (cases s) (auto simp: split_beta Let_def prod_eq_iff)

lemma dispatch_create_eq:
  "dispatch_create f g s w = (r, s', w') \<longleftrightarrow>
   (\<exists>a a'. s = Inl a \<and> s' = Inl a' \<and> f a w = (r, a', w')) \<or>
   (\<exists>b b'. s = Inr b \<and> s' = Inr b' \<and> g b w = (r, b', w'))"
  by (cases s) (auto simp: split_beta Let_def prod_eq_iff)

lemmas dispatch_simps = either_records_def either_status_def dispatch_eq dispatch_world_eq dispatch_create_eq

lemma either_record_store:
  assumes "record_store R tab sound" and "record_store Q tab' sound'"
  shows "record_store (either_records R Q) (case_sum tab tab') (case_sum sound sound')"
proof -
  note R = assms(1) and Q = assms(2)
  note find = record_store.find [OF R] record_store.find [OF Q]
  show ?thesis
  proof (unfold_locales, goal_cases)
    case (1 s ct cd st sr w r s' w')
    then show ?case
      unfolding dispatch_simps record_ops.simps status_ops.simps
      by - (elim disjE exE conjE; hypsubst; unfold sum.case; rule record_store.create [OF R] record_store.create [OF Q]; assumption)
  next
    case (2 s i res s')
    then show ?case
      unfolding dispatch_simps record_ops.simps status_ops.simps
      by - (elim disjE exE conjE; hypsubst; unfold sum.case; rule record_store.find [OF R] record_store.find [OF Q]; assumption)
  next
    case (3 s i res s')
    then show ?case
      unfolding dispatch_simps record_ops.simps status_ops.simps
      by - (elim disjE exE conjE; hypsubst; unfold sum.case; rule record_store.find_issuer_state [OF R] record_store.find_issuer_state [OF Q]; assumption)
  next
    case (4 s i st w s' w')
    then show ?case
      unfolding dispatch_simps record_ops.simps status_ops.simps
      by - (elim disjE exE conjE; hypsubst; unfold sum.case; rule record_store.update_status [OF R] record_store.update_status [OF Q]; assumption)
  next
    case (5 s i st w s' w')
    then show ?case
      unfolding dispatch_simps record_ops.simps status_ops.simps
      by - (elim disjE exE conjE; hypsubst; unfold sum.case; rule record_store.update_issuer_state [OF R] record_store.update_issuer_state [OF Q]; assumption)
  next
    case (6 s off lim f ord page s')
    then show ?case
      unfolding dispatch_simps record_ops.simps status_ops.simps
      by - (elim disjE exE conjE; hypsubst; unfold sum.case; rule record_store.find_all [OF R] record_store.find_all [OF Q]; assumption)
  next
    case (7 s i r)
    then show ?case
      by (cases s) (auto dest: record_store.keyed [OF R] record_store.keyed [OF Q])
  qed
qed

lemma either_status_store:
  assumes "status_store S ent sane room" and "status_store T ent' sane' room'"
  shows "status_store (either_status S T) (case_sum ent ent') (case_sum sane sane') (case_sum room room')"
proof -
  note S = assms(1) and T = assms(2)
  show ?thesis
  proof (unfold_locales, goal_cases)
    case (1 s r i v res s')
    then show ?case
      unfolding dispatch_simps record_ops.simps status_ops.simps
      by - (elim disjE exE conjE; hypsubst; unfold sum.case; rule status_store.alloc_old [OF S] status_store.alloc_old [OF T]; assumption)
  next
    case (2 s r res s')
    then show ?case
      unfolding dispatch_simps record_ops.simps status_ops.simps
      by - (elim disjE exE conjE; hypsubst; unfold sum.case; rule status_store.alloc_new [OF S] status_store.alloc_new [OF T]; assumption)
  next
    case (3 s r v upd s')
    then show ?case
      unfolding dispatch_simps record_ops.simps status_ops.simps
      by - (elim disjE exE conjE; hypsubst; unfold sum.case; rule status_store.set_result [OF S] status_store.set_result [OF T]; assumption)
  next
    case (4 s r hit s')
    then show ?case
      unfolding dispatch_simps record_ops.simps status_ops.simps
      by - (elim disjE exE conjE; hypsubst; unfold sum.case; rule status_store.lookup [OF S] status_store.lookup [OF T]; assumption)
  next
    case (5 s all s')
    then show ?case
      unfolding dispatch_simps record_ops.simps status_ops.simps
      by - (elim disjE exE conjE; hypsubst; unfold sum.case; rule status_store.entries [OF S] status_store.entries [OF T]; assumption)
  next
    case (6 s r i u q v)
    then show ?case
      by (cases s) (auto dest: status_store.idx_inj [OF S] status_store.idx_inj [OF T])
  next
    case (7 s r i u)
    then show ?case
      by (cases s) (auto dest: status_store.idx_range [OF S] status_store.idx_range [OF T])
  qed
qed

lemma either_issuance_store:
  assumes "issuance_store R tab sound S ent sane room" and "issuance_store Q tab' sound' T ent' sane' room'"
  shows "issuance_store (either_records R Q) (case_sum tab tab') (case_sum sound sound')
    (either_status S T) (case_sum ent ent') (case_sum sane sane') (case_sum room room')"
proof -
  note a = assms(1) and b = assms(2)
  note frames =
    issuance_store.create_frame [OF a] issuance_store.create_frame [OF b]
    issuance_store.find_frame [OF a] issuance_store.find_frame [OF b]
    issuance_store.find_issuer_state_frame [OF a] issuance_store.find_issuer_state_frame [OF b]
    issuance_store.update_status_frame [OF a] issuance_store.update_status_frame [OF b]
    issuance_store.update_issuer_state_frame [OF a] issuance_store.update_issuer_state_frame [OF b]
    issuance_store.find_all_frame [OF a] issuance_store.find_all_frame [OF b]
    issuance_store.alloc_frame [OF a] issuance_store.alloc_frame [OF b]
    issuance_store.set_frame [OF a] issuance_store.set_frame [OF b]
    issuance_store.lookup_frame [OF a] issuance_store.lookup_frame [OF b]
    issuance_store.entries_frame [OF a] issuance_store.entries_frame [OF b]
  show ?thesis
    by (intro issuance_store.intro either_record_store either_status_store issuance_store_axioms.intro
        issuance_store.axioms(1) [OF a] issuance_store.axioms(1) [OF b]
        issuance_store.axioms(2) [OF a] issuance_store.axioms(2) [OF b])
      (simp add: dispatch_simps; elim disjE exE conjE; simp; drule frames; simp)+
qed

section \<open>The issuer's store\<close>

definition any_records :: "store_params \<Rightarrow> any_store record_ops" where
  "any_records sp = either_records (memory_records (sp_map_order sp) (sp_big_sort sp)) (postgres_records (sp_pg sp))"

definition any_status :: "store_params \<Rightarrow> any_store status_ops" where
  "any_status sp = either_status memory_status (postgres_status (sp_pg sp))"

definition any_table :: "any_store \<Rightarrow> string \<Rightarrow> issuance_record option" where
  "any_table = case_sum mem_table pg_table"
definition any_sound :: "any_store \<Rightarrow> bool" where
  "any_sound = case_sum mem_sound pg_sound"
definition any_entries :: "any_store \<Rightarrow> string \<Rightarrow> (int \<times> byte) option" where
  "any_entries = case_sum mem_entries pg_entries"
definition any_sane :: "any_store \<Rightarrow> bool" where
  "any_sane = case_sum mem_sane pg_sane"
definition any_room :: "any_store \<Rightarrow> bool" where
  "any_room = case_sum mem_room (\<lambda>s. True)"

lemmas any_store_defs =
  any_records_def any_status_def any_table_def any_sound_def any_entries_def any_sane_def any_room_def

lemma any_issuance_store:
  "store_params_ok sp \<Longrightarrow>
   issuance_store (any_records sp) any_table any_sound (any_status sp) any_entries any_sane any_room"
  unfolding any_store_defs store_params_ok_def
  by (intro either_issuance_store memory_issuance_store postgres_issuance_store) simp_all

interpretation plain: issuance_store "any_records plain_store_params" any_table any_sound
  "any_status plain_store_params" any_entries any_sane any_room
  by (rule any_issuance_store [OF plain_store_params_ok])

end
