(* ===== verification/Service_Issue.thy ===== *)
theory Service_Issue
  imports Service Either_Store
begin

text \<open>
  What the issuing half of the service guarantees, for whichever store it runs on: the facts are
  proved in \<open>issuance_store\<close> and hold of the two stores of the repository through its
  interpretations. \<open>authorized\<close>, \<open>request_ok\<close> and \<open>fresh_nonce\<close> are order-free specifications of the
  stages of the credential endpoint.
\<close>

section \<open>The stages\<close>

lemma fails_with_basic [intro]:
  "has_status S e \<Longrightarrow> fails_with S (fail_if b e)"
  "has_status S e \<Longrightarrow> fails_with S (of_option e m)"
  by (auto simp: fails_with_def fail_if_def split: outcome.splits elim: of_option.elims)

lemma fails_with_map_err [intro]: "(\<And>e. has_status S (f e)) \<Longrightarrow> fails_with S (map_err f m)"
  by (cases m) auto

lemma fails_with_mono: "fails_with S r \<Longrightarrow> S \<subseteq> T \<Longrightarrow> fails_with T r"
  using has_status_mono by (cases r) auto

definition authorized ::
  "('k, 'ks, 'sg, 's) service_env \<Rightarrow> as_world \<Rightarrow> instant \<Rightarrow> string \<Rightarrow> string \<Rightarrow> string \<Rightarrow>
   ('s, 'ks) service \<Rightarrow> token_claims \<Rightarrow> string \<Rightarrow> bool" where
  "authorized E A now accessToken dp endpoint sv claims jti \<longleftrightarrow>
     token_ok (se_float E) (se_jose E) A (sv_tokens sv) accessToken claims \<and>
     (\<exists>k tp. dpop_proof_ok (se_url E) (se_jose E) now dp ''POST'' (se_baseURL E @ endpoint)
          (ComputeATH accessToken) (sv_jtis sv) k jti \<and>
        jwk_thumbprint (se_jose E) k = Inr tp \<and> c_JKT claims = b64url tp)"

lemma requireBoundThumbprint_Ok:
  "requireBoundThumbprint J jkt k msg = Ok u \<longleftrightarrow> (\<exists>tp. jwk_thumbprint J k = Inr tp \<and> jkt = b64url tp)"
  by (auto simp: requireBoundThumbprint_def DPoPThumbprint_def fail_if_Ok_iff split: outcome.splits sum.splits)

lemma requireBoundThumbprint_total:
  "requireBoundThumbprint J jkt k msg \<noteq> Panic p" "fails_with {401} (requireBoundThumbprint J jkt k msg)"
  by (auto simp: requireBoundThumbprint_def DPoPThumbprint_def fail_if_def split: outcome.splits sum.splits)

lemma authorize_Ok:
  assumes "authorize E A tok dp ep msg sv = (Ok claims, sv')"
  obtains jti v where "authorized E A (w_clock (sv_world sv) 0) tok dp ep sv claims jti"
    "sv' = sv\<lparr>sv_tokens := v, sv_jtis := snd (jti_Accept (se_jti_order E) jti (sv_jtis sv)),
       sv_world := snd (time_Now (sv_world sv))\<rparr>"
proof -
  obtain r v where V: "Verify (se_float E) (se_jose E) A tok (sv_tokens sv) = (r, v)" by fastforce
  obtain q jtis where D: "ValidateDPoPProof (se_url E) (se_jose E) (se_jti_order E) (w_clock (sv_world sv) 0) dp
      ''POST'' (se_baseURL E @ ep) (ComputeATH tok) (sv_jtis sv) = (q, jtis)" by fastforce
  from assms obtain k where
    v: "Verify (se_float E) (se_jose E) A tok (sv_tokens sv) = (Ok claims, v)"
    and d: "ValidateDPoPProof (se_url E) (se_jose E) (se_jti_order E) (w_clock (sv_world sv) 0) dp ''POST''
        (se_baseURL E @ ep) (ComputeATH tok) (sv_jtis sv) = (Ok k, jtis)"
    and b: "requireBoundThumbprint (se_jose E) (c_JKT claims) k msg = Ok ()"
    and sv': "sv' = sv\<lparr>sv_tokens := v, sv_jtis := jtis, sv_world := snd (time_Now (sv_world sv))\<rparr>"
    by (cases r; cases q) (auto simp: authorize_def Let_def st_then_Ok_iff on_world_def time_Now_def V D)
  from v Verify_Ok_iff [of "se_float E" "se_jose E" A tok "sv_tokens sv" claims]
  have "token_ok (se_float E) (se_jose E) A (sv_tokens sv) tok claims" by simp
  moreover obtain jti where "dpop_proof_ok (se_url E) (se_jose E) (w_clock (sv_world sv) 0) dp ''POST''
      (se_baseURL E @ ep) (ComputeATH tok) (sv_jtis sv) k jti"
    "jtis = snd (jti_Accept (se_jti_order E) jti (sv_jtis sv))"
    using d unfolding ValidateDPoPProof_Ok_iff by blast
  ultimately show thesis
    using that b sv' unfolding authorized_def requireBoundThumbprint_Ok by blast
qed

lemma authorize_no_panic: "fst (authorize E A tok dp ep msg sv) \<noteq> Panic p"
proof -
  have "fst (ValidateDPoPProof x J it now dp htm htu ath jtis) \<noteq> Panic p" for x J it now htm htu ath jtis
    using ValidateDPoPProof_shape [of x J it now dp htm htu ath jtis] by auto
  then show ?thesis
    unfolding authorize_def Let_def split_beta
    by (intro st_then_no_panic) (simp_all add: Verify_no_panic requireBoundThumbprint_total)
qed

lemma authorize_fails_with: "fails_with {400, 401, 503} (fst (authorize E A tok dp ep msg sv))"
proof -
  have d: "fails_with {400, 401, 503} (fst (ValidateDPoPProof x J it now dp htm htu ath jtis))"
    for x J it now htm htu ath jtis
    using ValidateDPoPProof_shape [of x J it now dp htm htu ath jtis]
    by (auto simp: dpop_error_def)
  show ?thesis
    unfolding authorize_def Let_def split_beta
    by (intro fails_with_st_then)
      (auto simp: d intro: fails_with_mono [OF Verify_fails_with] fails_with_mono [OF requireBoundThumbprint_total(2)])
qed

text \<open>The body names one of the two configurations and no credential identifier.\<close>

definition request_ok :: "('k, 'ks, 'sg, 's) service_env \<Rightarrow> string \<Rightarrow> credential_request \<Rightarrow> bool" where
  "request_ok E body req \<longleftrightarrow>
     unmarshal_request (se_float E) body = Some req \<and> rq_identifier req = [] \<and>
     rq_configuration_id req \<in> {''urn:eudi:pid:1'', ''urn:eudi:pid:1.mdoc''}"

lemma read_request_Ok: "read_request E body = Ok req \<longleftrightarrow> request_ok E body req"
  by (auto simp: read_request_def go_outcome request_ok_def PIDConfigID_def PIDMdocConfigID_def)

lemma read_request_total:
  "read_request E body \<noteq> Panic p" "fails_with {400, 401, 503} (read_request E body)"
proof -
  show "read_request E body \<noteq> Panic p"
    unfolding read_request_def by (intro then_ok_no_panic) simp_all
  show "fails_with {400, 401, 503} (read_request E body)"
    unfolding read_request_def request_error_def
    by (intro fails_with_then_ok fails_with_basic fails_with_simps(1)) simp_all
qed

text \<open>
  The nonce of the proof is one the Nonce Endpoint registered, or the one the authorization server
  put into the access token.
\<close>

definition fresh_nonce ::
  "('k, 'ks, 'sg, 's) service_env \<Rightarrow> string \<Rightarrow> string \<Rightarrow> session_store \<Rightarrow> string \<Rightarrow> bool" where
  "fresh_nonce E pf cnonce ss n \<longleftrightarrow>
     ProofNonce (se_jose E) pf = Ok n \<and> n \<noteq> [] \<and> (has_nonce ss n \<or> n = cnonce)"

lemma ProofNonce_no_panic: "ProofNonce J pf \<noteq> Panic p"
  by (auto simp: ProofNonce_def then_ok_Panic_iff split: option.splits)

lemma validateProofNonce_Ok:
  "validateProofNonce E pf cnonce sv = (Ok u, sv') \<longleftrightarrow>
   (\<exists>n. fresh_nonce E pf cnonce (sv_sessions sv) n \<and>
      sv' = sv\<lparr>sv_sessions := snd (ValidateNonce n (sv_sessions sv))\<rparr>)"
  by (cases "ProofNonce (se_jose E) pf")
    (auto simp: validateProofNonce_def fresh_nonce_def Let_def split_beta)

lemma validateProofNonce_total:
  "fst (validateProofNonce E pf cnonce sv) \<noteq> Panic p"
  "fails_with {400, 401, 503} (fst (validateProofNonce E pf cnonce sv))"
  using ProofNonce_no_panic [of "se_jose E" pf]
  by (auto simp: validateProofNonce_def nonce_error_def Let_def split_beta split: outcome.splits)

lemma element_keys:
  "mb_deviceKey (mdoc_Element n v b) = mb_deviceKey b" "mb_issuerKey (mdoc_Element n v b) = mb_issuerKey b"
  "mb_deviceKey (mdoc_MapElement n w b) = mb_deviceKey b" "mb_issuerKey (mdoc_MapElement n w b) = mb_issuerKey b"
  by (simp_all add: mdoc_Element_def mdoc_MapElement_def)

lemma element_fold:
  "mb_deviceKey (foldl (\<lambda>b (name, value). mdoc_Element name (f value) b) b cs) = mb_deviceKey b"
  "mb_issuerKey (foldl (\<lambda>b (name, value). mdoc_Element name (f value) b) b cs) = mb_issuerKey b"
  by (induction cs arbitrary: b) (auto simp: element_keys)

lemma pid_mdoc_builder_keys:
  "mb_deviceKey (pid_mdoc_builder E wk claims i uri) = Some wk"
  "mb_issuerKey (pid_mdoc_builder E wk claims i uri) = se_issuerKey E"
  by (simp_all add: pid_mdoc_builder_def Let_def element_keys element_fold mdoc_X5CChain_def
      mdoc_DeviceKey_def mdoc_Namespace_def mdoc_DocType_def mdoc_NewBuilder_def)

text \<open>The one way building a credential can panic is an oversized signature under an mdoc.\<close>

definition signer_fits :: "('k, 'ks, 'sg, 's) service_env \<Rightarrow> bool" where
  "signer_fits E \<longleftrightarrow> fits_p256 (se_out E) (se_asn1_error E) (sk_signer (se_issuerKey E))"

lemma build_credential_no_panic:
  assumes "signer_fits E"
  shows "fst (build_credential E c k rc i w) \<noteq> Panic p"
proof -
  have parsed: "parse_credential_data E rc \<noteq> Panic p"
    by (simp add: parse_credential_data_def then_ok_Panic_iff)
  have "fst (buildMdocCredential E k rc i u w) \<noteq> Panic p" for u
    unfolding buildMdocCredential_def using assms
    by (intro st_then_no_panic mdoc_no_panic) (simp_all add: parsed signer_fits_def pid_mdoc_builder_keys)
  moreover have "fst (buildSDJWTCredential E k rc i u w) \<noteq> Panic p" for u
    unfolding buildSDJWTCredential_def Let_def split_beta
    by (intro st_then_no_panic sd_Build_no_panic) (simp add: parsed)
  ultimately show ?thesis
    unfolding build_credential_def Let_def split_beta fst_conv by (intro map_err_no_panic) simp
qed

lemma build_credential_total:
  "fails_with {400, 401, 503} (fst (build_credential E c k rc i w))"
  unfolding build_credential_def Let_def split_beta fst_conv by (intro fails_with_map_err) simp


section \<open>The whole endpoint\<close>

text \<open>A successful request, taken apart: every check it passed and every call it made.\<close>

lemma IssueCredential_Ok:
  assumes "IssueCredential E A tok dp body sv = (Ok resp, sv')"
  obtains claims jti req wk n rc idx cred w where
    "authorized E A (w_clock (sv_world sv) 0) tok dp ''/oid4vci/v1/credential'' sv claims jti"
    "request_ok E body req"
    "proof_ok (se_jose E) (w_clock (sv_world sv) 1) (ExtractProofJWT req) (se_baseURL E) wk"
    "fresh_nonce E (ExtractProofJWT req) (c_CNonce claims) (sv_sessions sv) n"
    "c_IssuanceRecordID claims \<noteq> []"
    "fst (ro_FindByID (se_records E) (c_IssuanceRecordID claims) (sv_store sv)) = Some rc"
    "CredentialData rc \<notin> {[], ''{}''}"
    "fst (so_AllocateIdx (se_status E) (c_IssuanceRecordID claims)
       (snd (ro_FindByID (se_records E) (c_IssuanceRecordID claims) (sv_store sv)))) = Ok idx"
    "fst (build_credential E (rq_configuration_id req) wk rc idx w) = Ok cred"
    "resp = SuccessResponse cred"
    "sv_store sv' = fst (ro_UpdateStatus (se_records E) (c_IssuanceRecordID claims) ''credential_issued''
       (snd (so_AllocateIdx (se_status E) (c_IssuanceRecordID claims)
         (snd (ro_FindByID (se_records E) (c_IssuanceRecordID claims) (sv_store sv)))))
       (snd (build_credential E (rq_configuration_id req) wk rc idx w)))"
    "sv_sessions sv' = InvalidateNonce (c_CNonce claims) (snd (ValidateNonce n (sv_sessions sv)))"
    "sv_jtis sv' = snd (jti_Accept (se_jti_order E) jti (sv_jtis sv))"
    "sv_cacheToken sv' = sv_cacheToken sv \<and> sv_cacheExp sv' = sv_cacheExp sv"
proof -
  from assms obtain claims sva where
    a: "authorize E A tok dp ''/oid4vci/v1/credential'' ''DPoP key mismatch'' sv = (Ok claims, sva)"
    unfolding IssueCredential_def st_then_Ok_iff by blast
  note rest = assms [unfolded IssueCredential_def a st_then.simps]
  obtain jti v where au: "authorized E A (w_clock (sv_world sv) 0) tok dp ''/oid4vci/v1/credential'' sv claims jti"
    and sva: "sva = sv\<lparr>sv_tokens := v, sv_jtis := snd (jti_Accept (se_jti_order E) jti (sv_jtis sv)),
       sv_world := snd (time_Now (sv_world sv))\<rparr>"
    using authorize_Ok [OF a] by blast
  obtain req where req: "read_request E body = Ok req"
    using rest unfolding st_then_Ok_iff by blast
  let ?pf = "ExtractProofJWT req" and ?rid = "c_IssuanceRecordID claims"
  note rest = rest [unfolded req st_then.simps Let_def]
  let ?svb = "sva\<lparr>sv_world := snd (time_Now (sv_world sva))\<rparr>"
  have now: "fst (time_Now (sv_world sva)) = w_clock (sv_world sv) 1" by (simp add: sva time_Now_def)
  from rest obtain wk svc rc idx cred where
    pf: "ValidateProofJWT (se_jose E) (fst (time_Now (sv_world sva))) ?pf (se_baseURL E) = Ok wk"
    and nv: "validateProofNonce E ?pf (c_CNonce claims) ?svb = (Ok (), svc)"
    and r: "?rid \<noteq> []" "fst (ro_FindByID (se_records E) ?rid (sv_store svc)) = Some rc"
      "CredentialData rc \<noteq> []" "CredentialData rc \<noteq> ''{}''"
      "fst (so_AllocateIdx (se_status E) ?rid (snd (ro_FindByID (se_records E) ?rid (sv_store svc)))) = Ok idx"
      "fst (build_credential E (rq_configuration_id req) wk rc idx (sv_world svc)) = Ok cred"
      "resp = SuccessResponse cred"
    and sv': "sv_store sv' = fst (ro_UpdateStatus (se_records E) ?rid ''credential_issued''
        (snd (so_AllocateIdx (se_status E) ?rid (snd (ro_FindByID (se_records E) ?rid (sv_store svc)))))
        (snd (build_credential E (rq_configuration_id req) wk rc idx (sv_world svc))))"
      "sv_sessions sv' = InvalidateNonce (c_CNonce claims) (sv_sessions svc)"
      "sv_jtis sv' = sv_jtis svc" "sv_cacheToken sv' = sv_cacheToken svc" "sv_cacheExp sv' = sv_cacheExp svc"
    by (auto simp: st_then_Ok_iff on_store_def on_world_def on_store_world_def split_beta
        fail_if_Ok_iff of_option_Ok_iff map_err_Ok_iff)
  obtain n where n: "fresh_nonce E ?pf (c_CNonce claims) (sv_sessions ?svb) n"
    and svc: "svc = ?svb\<lparr>sv_sessions := snd (ValidateNonce n (sv_sessions ?svb))\<rparr>"
    using nv unfolding validateProofNonce_Ok by blast
  have same: "sv_store sva = sv_store sv" "sv_sessions sva = sv_sessions sv" "sv_cacheToken sva = sv_cacheToken sv"
    "sv_jtis sva = snd (jti_Accept (se_jti_order E) jti (sv_jtis sv))" "sv_cacheExp sva = sv_cacheExp sv"
    by (simp_all add: sva)
  show thesis
    by (rule that [of claims jti req wk n rc idx "sv_world svc" cred])
      (use au req n r sv' pf [unfolded now] in \<open>simp_all add: svc same read_request_Ok ValidateProofJWT_Ok_iff\<close>)
qed


text \<open>
  \<open>indexed ent rid idx ent'\<close>: the record \<open>rid\<close> had the index \<open>idx\<close> and the list is unchanged, or it
  had none and \<open>idx\<close> is above every index in use and has been given to it, as VALID.
\<close>

definition indexed ::
  "(string \<Rightarrow> (int \<times> byte) option) \<Rightarrow> string \<Rightarrow> int \<Rightarrow> (string \<Rightarrow> (int \<times> byte) option) \<Rightarrow> bool" where
  "indexed en rid idx en' \<longleftrightarrow>
     (\<exists>v. en rid = Some (idx, v) \<and> en' = en) \<or>
     (en rid = None \<and> (\<forall>q j v. en q = Some (j, v) \<longrightarrow> j < idx) \<and> en' = en(rid \<mapsto> (idx, StatusValid)))"

context issuance_store
begin

lemma allocate_effect:
  assumes "sane s" and "room s" and "so_AllocateIdx S r s = (Ok idx, s')"
  shows "sane s' \<and> indexed (ent s) r idx (ent s') \<and> tab s' = tab s \<and> sound s' = sound s"
proof (cases "ent s r")
  case None
  from alloc_new [OF assms(1,2) None assms(3)] alloc_frame [OF assms(3)] None show ?thesis
    by (auto simp: indexed_def)
next
  case (Some x)
  obtain i v where x: "x = (i, v)" by fastforce
  from alloc_old [OF assms(1) Some [unfolded x] assms(3)] alloc_frame [OF assms(3)] Some x show ?thesis
    by (auto simp: indexed_def)
qed

lemma issue_effect:
  assumes env: "se_records E = R" "se_status E = S"
    and inv: "sound (sv_store sv)" "sane (sv_store sv)" "room (sv_store sv)"
    and run: "IssueCredential E A tok dp body sv = (Ok resp, sv')"
    and later: "\<forall>i s hit s' j res s''. ro_FindByID R i s = (hit, s') \<longrightarrow> so_AllocateIdx S j s' = (res, s'') \<longrightarrow> later s s''"
  shows "sound (sv_store sv') \<and> sane (sv_store sv') \<and>
    (\<exists>claims jti req wk rc idx w cred w'.
       authorized E A (w_clock (sv_world sv) 0) tok dp ''/oid4vci/v1/credential'' sv claims jti \<and>
       tab (sv_store sv) (c_IssuanceRecordID claims) = Some rc \<and> CredentialData rc \<notin> {[], ''{}''} \<and> request_ok E body req \<and>
       proof_ok (se_jose E) (w_clock (sv_world sv) 1) (ExtractProofJWT req) (se_baseURL E) wk \<and>
       indexed (ent (sv_store sv)) (c_IssuanceRecordID claims) idx (ent (sv_store sv')) \<and>
       build_credential E (rq_configuration_id req) wk rc idx w = (Ok cred, w') \<and> resp = SuccessResponse cred \<and>
       touched (c_IssuanceRecordID claims) (set_status ''credential_issued'') (tab (sv_store sv)) (tab (sv_store sv')) \<and>
       (\<exists>s v. tab s = tab (sv_store sv) \<and> later (sv_store sv) s \<and>
          sv_store sv' = fst (ro_UpdateStatus R (c_IssuanceRecordID claims) ''credential_issued'' s v)))"
proof -
  obtain claims jti req wk rc idx cred w where
    au: "authorized E A (w_clock (sv_world sv) 0) tok dp ''/oid4vci/v1/credential'' sv claims jti" and
    req: "request_ok E body req" and
    pf: "proof_ok (se_jose E) (w_clock (sv_world sv) 1) (ExtractProofJWT req) (se_baseURL E) wk"
    and f: "fst (ro_FindByID R (c_IssuanceRecordID claims) (sv_store sv)) = Some rc"
    and d: "CredentialData rc \<notin> {[], ''{}''}"
    and a: "fst (so_AllocateIdx S (c_IssuanceRecordID claims)
       (snd (ro_FindByID R (c_IssuanceRecordID claims) (sv_store sv)))) = Ok idx"
    and b: "fst (build_credential E (rq_configuration_id req) wk rc idx w) = Ok cred"
    and resp: "resp = SuccessResponse cred"
    and sv': "sv_store sv' = fst (ro_UpdateStatus R (c_IssuanceRecordID claims) ''credential_issued''
       (snd (so_AllocateIdx S (c_IssuanceRecordID claims)
         (snd (ro_FindByID R (c_IssuanceRecordID claims) (sv_store sv)))))
       (snd (build_credential E (rq_configuration_id req) wk rc idx w)))"
    by (rule IssueCredential_Ok [OF run, unfolded env]) (rule that; assumption)
  let ?rid = "c_IssuanceRecordID claims"
  obtain s1 where s1: "ro_FindByID R ?rid (sv_store sv) = (Some rc, s1)" using f by (metis prod.collapse)
  obtain s2 where s2: "so_AllocateIdx S ?rid s1 = (Ok idx, s2)" using a s1 by (metis prod.collapse snd_conv)
  obtain w' where w': "build_credential E (rq_configuration_id req) wk rc idx w = (Ok cred, w')"
    using b by (metis prod.collapse)
  obtain w2 where s3: "ro_UpdateStatus R ?rid ''credential_issued'' s2 w' = (sv_store sv', w2)"
    using sv' by (simp add: s1 s2 w') (metis prod.collapse)
  note 1 = find [OF inv(1) s1] find_frame [OF s1]
  then have inv1: "sound s1" "sane s1" "room s1" using inv by simp_all
  note 2 = allocate_effect [OF inv1(2,3) s2]
  then have "sound s2" using inv1 by simp
  note 3 = update_status [OF this s3] update_status_frame [OF s3]
  have "tab (sv_store sv) ?rid = Some rc" using 1 by auto
  moreover have "indexed (ent (sv_store sv)) ?rid idx (ent (sv_store sv'))" using 1 2 3 by simp
  moreover have "touched ?rid (set_status ''credential_issued'') (tab (sv_store sv)) (tab (sv_store sv'))"
    using 1 2 3 by simp
  moreover have "sound (sv_store sv')" "sane (sv_store sv')" using 2 3 by simp_all
  moreover have "tab s2 = tab (sv_store sv)" using 1 2 by simp
  moreover have "sv_store sv' = fst (ro_UpdateStatus R ?rid ''credential_issued'' s2 w')" by (simp add: s3)
  ultimately show ?thesis using au d req pf w' resp later [rule_format, OF s1 s2] by blast
qed

text \<open>No stage of an issuance panics, unless the signer's answer to an mdoc is oversized.\<close>

lemma issue_no_panic:
  assumes env: "se_records E = R" "se_status E = S"
    and inv: "sound (sv_store sv)" "sane (sv_store sv)" "room (sv_store sv)" and fits: "signer_fits E"
  shows "fst (IssueCredential E A tok dp body sv) \<noteq> Panic p"
proof -
  have alloc: "fst (so_AllocateIdx S r (snd (ro_FindByID R i (sv_store sv)))) \<noteq> Panic p" for r i
  proof -
    obtain hit s1 where s1: "ro_FindByID R i (sv_store sv) = (hit, s1)" by fastforce
    obtain res s2 where s2: "so_AllocateIdx S r s1 = (res, s2)" by fastforce
    have s1inv: "sane s1" "room s1" using find_frame [OF s1] inv by simp_all
    have "res \<noteq> Panic p"
      using alloc_new [OF s1inv _ s2] alloc_old [OF s1inv(1) _ s2] by (cases "ent s1 r") auto
    then show ?thesis by (simp add: s1 s2)
  qed
  have au: "sv_store s = sv_store sv" if "authorize E A tok dp ep msg sv = (Ok claims, s)" for claims s ep msg
    using that by (rule authorize_Ok) simp
  have va: "sv_store s' = sv_store s" if "validateProofNonce E pf cn s = (Ok u, s')" for s s' pf cn u
    using that by (auto simp: validateProofNonce_Ok)
  have w: "sv_store (snd (on_world f s)) = sv_store s" for f :: "world \<Rightarrow> 'v \<times> world" and s
    by (simp add: on_world_def split_beta Let_def)
  have al: "map_err f (fst (on_store (so_AllocateIdx (se_status E) r) (snd (on_store (ro_FindByID (se_records E) i) s)))) \<noteq> Panic p"
    if "sv_store s = sv_store sv" for f r i s
    using alloc [of r i] that by (intro map_err_no_panic) (simp add: on_store_def split_beta Let_def env)
  have bu: "fst (on_world (build_credential E c k rc i) s) \<noteq> Panic p" for c k rc i s
    by (simp add: on_world_def split_beta Let_def build_credential_no_panic [OF fits])
  show ?thesis
    unfolding IssueCredential_def Let_def split_beta
    by (intro st_then_no_panic, simp_all only: fst_conv snd_conv authorize_no_panic read_request_total outcome_no_panic
        ValidateProofJWT_no_panic validateProofNonce_total bu not_False_eq_True outcome.distinct)
      (simp only: prod.inject, elim conjE, hypsubst, rule al, drule au, drule va, simp add: w)
qed

end


section \<open>Triggering an issuance\<close>

text \<open>An offer consists of strings, so it always has a JSON text.\<close>

lemma marshal_offer: "\<exists>j. marshal fo (offer_json (AuthorizationCodeOffer base ct st)) = Some j"
  by (simp add: offer_json_def AuthorizationCodeOffer_def Let_def)

definition trigger_type :: "trigger_request \<Rightarrow> string" where
  "trigger_type req = (if tr_credential_type req = [] then PIDConfigID else tr_credential_type req)"

definition trigger_data :: "trigger_request \<Rightarrow> (string, f64 json) gomap" where
  "trigger_data req = (case tr_credential_data req of None \<Rightarrow> [] | Some m \<Rightarrow> m)"

text \<open>The calls of a triggered issuance, in order.\<close>

lemma TriggerIssuance_eq:
  assumes "marshal_any (se_float E) (JObj (trigger_data req)) = Some data"
    and "ro_Create (se_records E) (trigger_type req) data (tr_source_type req) (tr_source_ref req)
      (sv_store sv) (sv_world sv) = (rc, s1, w1)"
    and "draw_token 16 w1 = (st, w2)"
    and "ro_UpdateIssuerState (se_records E) (rec_ID rc) st s1 w2 = (s2, w3)"
    and "marshal (se_float E) (offer_json (AuthorizationCodeOffer (se_baseURL E) (trigger_type req) st)) = Some j"
    and "StoreCredentialOffer j (w_rand w3) (sv_sessions sv) = (oid, rnd, ss)"
    and "ro_UpdateStatus (se_records E) (rec_ID rc) ''offer_created'' s2 (w3\<lparr>w_rand := rnd\<rparr>) = (s3, w4)"
  shows "TriggerIssuance E req sv =
    (Ok \<lparr>ti_issuance_id = rec_ID rc,
        ti_credential_offer_uri = se_baseURL E @ ''/oid4vci/v1/credential-offer/'' @ oid\<rparr>,
     sv\<lparr>sv_store := s3, sv_sessions := ss, sv_world := w4\<rparr>)"
  using assms
  by (simp add: TriggerIssuance_def trigger_type_def trigger_data_def Let_def call_Create_def on_world_def
      on_store_world_def store_offer_def)

lemma TriggerIssuance_cases:
  obtains (unmarshalled) "marshal_any (se_float E) (JObj (trigger_data req)) = None"
      "TriggerIssuance E req sv = (Err (trigger_failure (se_marshal_error E)), sv)"
  | (triggered) data rc s1 w1 st w2 s2 w3 j oid rnd ss s3 w4 where
      "marshal_any (se_float E) (JObj (trigger_data req)) = Some data"
      "ro_Create (se_records E) (trigger_type req) data (tr_source_type req) (tr_source_ref req)
        (sv_store sv) (sv_world sv) = (rc, s1, w1)"
      "draw_token 16 w1 = (st, w2)"
      "ro_UpdateIssuerState (se_records E) (rec_ID rc) st s1 w2 = (s2, w3)"
      "marshal (se_float E) (offer_json (AuthorizationCodeOffer (se_baseURL E) (trigger_type req) st)) = Some j"
      "StoreCredentialOffer j (w_rand w3) (sv_sessions sv) = (oid, rnd, ss)"
      "ro_UpdateStatus (se_records E) (rec_ID rc) ''offer_created'' s2 (w3\<lparr>w_rand := rnd\<rparr>) = (s3, w4)"
      "TriggerIssuance E req sv =
        (Ok \<lparr>ti_issuance_id = rec_ID rc,
            ti_credential_offer_uri = se_baseURL E @ ''/oid4vci/v1/credential-offer/'' @ oid\<rparr>,
         sv\<lparr>sv_store := s3, sv_sessions := ss, sv_world := w4\<rparr>)"
proof (cases "marshal_any (se_float E) (JObj (trigger_data req))")
  case None
  then show thesis
    by (intro unmarshalled) (simp_all add: TriggerIssuance_def trigger_data_def Let_def)
next
  case data: (Some data)
  obtain rc s1 w1 where 1: "ro_Create (se_records E) (trigger_type req) data (tr_source_type req) (tr_source_ref req)
    (sv_store sv) (sv_world sv) = (rc, s1, w1)" by (metis surj_pair)
  obtain st w2 where 2: "draw_token 16 w1 = (st, w2)" by (metis surj_pair)
  obtain s2 w3 where 3: "ro_UpdateIssuerState (se_records E) (rec_ID rc) st s1 w2 = (s2, w3)" by (metis surj_pair)
  obtain j where 4: "marshal (se_float E) (offer_json (AuthorizationCodeOffer (se_baseURL E) (trigger_type req) st)) = Some j"
    using marshal_offer by blast
  obtain oid rnd ss where 5: "StoreCredentialOffer j (w_rand w3) (sv_sessions sv) = (oid, rnd, ss)" by (metis surj_pair)
  obtain s3 w4 where 6: "ro_UpdateStatus (se_records E) (rec_ID rc) ''offer_created'' s2 (w3\<lparr>w_rand := rnd\<rparr>) = (s3, w4)"
    by (metis surj_pair)
  show thesis by (rule triggered [OF data 1 2 3 4 5 6 TriggerIssuance_eq [OF data 1 2 3 4 5 6]])
qed

lemma TriggerIssuance_total:
  "fst (TriggerIssuance E req sv) \<noteq> Panic p" "fails_with {400} (fst (TriggerIssuance E req sv))"
  by (rule TriggerIssuance_cases [of E req sv]; simp add: trigger_failure_def)+

context issuance_store
begin

text \<open>
  The record of a triggered issuance: created, then possibly given its issuer state and its status,
  whichever of the two updates took effect.
\<close>

lemma trigger_effect:
  assumes env: "se_records E = R" and inv: "sound (sv_store sv)"
    and run: "TriggerIssuance E req sv = (Ok res, sv')"
  shows "sound (sv_store sv') \<and> ent (sv_store sv') = ent (sv_store sv) \<and>
    (\<exists>oid st j.
       ti_credential_offer_uri res = se_baseURL E @ ''/oid4vci/v1/credential-offer/'' @ oid \<and>
       marshal (se_float E) (offer_json (AuthorizationCodeOffer (se_baseURL E) (trigger_type req) st)) = Some j \<and>
       service_GetCredentialOffer oid sv' = Some j \<and>
       (ti_issuance_id res = [] \<or>
        (\<exists>r. tab (sv_store sv') (ti_issuance_id res) = Some r \<and> CredentialType r = trigger_type req \<and>
           rec_Status r \<in> {''pending'', ''offer_created''})))"
proof (rule TriggerIssuance_cases [of E req sv])
  assume "TriggerIssuance E req sv = (Err (trigger_failure (se_marshal_error E)), sv)"
  with run show ?thesis by simp
next
  fix data rc s1 w1 st w2 s2 w3 j oid rnd ss s3 w4
  assume c: "ro_Create (se_records E) (trigger_type req) data (tr_source_type req) (tr_source_ref req)
        (sv_store sv) (sv_world sv) = (rc, s1, w1)"
    and u: "ro_UpdateIssuerState (se_records E) (rec_ID rc) st s1 w2 = (s2, w3)"
    and j: "marshal (se_float E) (offer_json (AuthorizationCodeOffer (se_baseURL E) (trigger_type req) st)) = Some j"
    and o: "StoreCredentialOffer j (w_rand w3) (sv_sessions sv) = (oid, rnd, ss)"
    and v: "ro_UpdateStatus (se_records E) (rec_ID rc) ''offer_created'' s2 (w3\<lparr>w_rand := rnd\<rparr>) = (s3, w4)"
    and t: "TriggerIssuance E req sv =
        (Ok \<lparr>ti_issuance_id = rec_ID rc,
            ti_credential_offer_uri = se_baseURL E @ ''/oid4vci/v1/credential-offer/'' @ oid\<rparr>,
         sv\<lparr>sv_store := s3, sv_sessions := ss, sv_world := w4\<rparr>)"
  note 1 = create [OF inv c [unfolded env]] create_frame [OF c [unfolded env]]
  then have "sound s1" by simp
  note 2 = update_issuer_state [OF this u [unfolded env]] update_issuer_state_frame [OF u [unfolded env]]
  then have "sound s2" by simp
  note 3 = update_status [OF this v [unfolded env]] update_status_frame [OF v [unfolded env]]
  have off: "GetCredentialOffer oid ss = Some j"
    using o by (auto simp: StoreCredentialOffer_def GetCredentialOffer_def split_beta Let_def)
  have rec: "rec_ID rc = [] \<or> (\<exists>r. tab s3 (rec_ID rc) = Some r \<and> CredentialType r = trigger_type req \<and>
      rec_Status r \<in> {''pending'', ''offer_created''})"
  proof (cases "rc = zero_record")
    case False
    with 1 have "tab s1 (rec_ID rc) = Some rc" "rec_Status rc = ''pending''" "CredentialType rc = trigger_type req"
      by auto
    with 2 3 show ?thesis by (auto simp: touched_def set_status_def set_issuer_state_def)
  qed (simp add: zero_record_def)
  have "res = \<lparr>ti_issuance_id = rec_ID rc,
            ti_credential_offer_uri = se_baseURL E @ ''/oid4vci/v1/credential-offer/'' @ oid\<rparr>"
    and sv': "sv' = sv\<lparr>sv_store := s3, sv_sessions := ss, sv_world := w4\<rparr>" using run t by simp_all
  then show ?thesis using rec off j 1 2 3 unfolding service_GetCredentialOffer_def
    by (intro conjI exI [of _ oid] exI [of _ st] exI [of _ j]) simp_all
qed

end

end
