(* ===== verification/Service_Props.thy ===== *)
theory Service_Props
  imports Service_Issue
begin

text \<open>
  The properties of the issuance service's request handlers: what an issued
  credential requires and leaves behind, that a credential request cannot be replayed, and what triggering
  an issuance leaves behind. Which errors the handlers can end in is in \<open>Service_Status\<close>.
\<close>

lemma is_ok_iff: "is_ok r \<longleftrightarrow> (\<exists>x. r = Ok x)"
  by (cases r) simp_all

section \<open>Errors\<close>

lemma service_GenerateNonce_total:
  "fst (service_GenerateNonce E A tok dp sv) \<noteq> Panic p"
  "fails_with {400, 401, 503} (fst (service_GenerateNonce E A tok dp sv))"
  unfolding service_GenerateNonce_def Let_def split_beta
  using st_then_no_panic [of "authorize E A tok dp e m s" _ "\<lambda>_ s. (Ok x, s)" for e m s and x :: string]
  by (auto intro!: fails_with_st_then simp: authorize_no_panic authorize_fails_with)

lemma ValidateProofJWT_fails_with: "400 \<in> S \<Longrightarrow> fails_with S (ValidateProofJWT J now pf iss)"
  using ValidateProofJWT_Err [of J now pf iss] by (auto simp: fails_with_def proof_error_def split: outcome.splits)

lemma IssueCredential_fails_with: "fails_with {400, 401, 503} (fst (IssueCredential E A tok dp body sv))"
  unfolding IssueCredential_def Let_def split_beta on_world_def fst_conv
  by (intro fails_with_st_then fails_with_basic fails_with_map_err authorize_fails_with)
    (simp_all add: read_request_total ValidateProofJWT_fails_with validateProofNonce_total build_credential_total
      fails_with_basic fails_with_map_err)

lemma load_entries_fails_with: "fails_with {400} (fst (load_entries E sv))"
  unfolding load_entries_def Let_def split_beta fst_conv by (intro fails_with_map_err) simp

lemma sign_entries_fails_with: "fails_with {400} (fst (sign_entries E entries sv))"
  unfolding sign_entries_def Let_def split_beta by (intro fails_with_st_then) (auto intro!: fails_with_map_err)

lemma GetStatusListToken_fails_with: "fails_with {400} (fst (GetStatusListToken E lid sv))"
  unfolding GetStatusListToken_def
  by (intro fails_with_st_then)
    (auto intro!: fails_with_basic fails_with_st_then split: prod.split option.split
      simp: load_entries_fails_with sign_entries_fails_with)

lemma RevokeCredential_fails_with: "fails_with {400} (fst (RevokeCredential E rid sv))"
proof -
  have "fails_with {400} (fst (revocable E rid s))" for s
    unfolding revocable_def Let_def split_beta on_store_def fst_conv
    by (intro fails_with_st_then fails_with_basic) (simp_all add: fails_with_basic)
  moreover have "fails_with {400} (fst (mark_invalid E rid s))" for s
    unfolding mark_invalid_def Let_def split_beta on_store_def fst_conv
    by (intro fails_with_st_then) (simp_all add: fails_with_basic)
  ultimately show ?thesis unfolding RevokeCredential_def by (intro fails_with_st_then) simp_all
qed

section \<open>A complete issuance\<close>

text \<open>
  A run for the witnesses: access token \<open>t\<close>, DPoP proof \<open>d\<close> by key \<open>k\<close>, key proof \<open>p\<close> by key \<open>w\<close>
  with the nonce \<open>n\<close> of the token, and the record \<open>r\<close> in the in-memory store.
\<close>

definition demo_base :: string where "demo_base = ''https://i''"

definition demo_fo :: float_ops where
  "demo_fo = \<lparr>f64_parse = (\<lambda>_. None), f64_json = (\<lambda>_. None), f64_v = (\<lambda>_. []), json_error = (\<lambda>_. [])\<rparr>"

definition access_token :: jwt_token where
  "access_token = \<lparr>tok_jti = Some ''j'', tok_iat = None, tok_aud = None,
     tok_string = map_of [(''issuance_record_id'', ''r''), (''c_nonce'', ''n'')],
     tok_object = (\<lambda>n. if n = ''cnf'' then Some [(''jkt'', JStr (b64url (bytes_of ''k'')))] else None)\<rparr>"

definition dpop_token :: jwt_token where
  "dpop_token = \<lparr>tok_jti = Some ''d1'', tok_iat = Some 0, tok_aud = None,
     tok_string = map_of [(''htm'', ''POST''), (''htu'', demo_base @ ''/oid4vci/v1/credential''), (''jti'', ''d1''),
       (''ath'', ComputeATH ''t'')], tok_object = (\<lambda>_. None)\<rparr>"

definition proof_token :: jwt_token where
  "proof_token = \<lparr>tok_jti = None, tok_iat = Some 0, tok_aud = Some [demo_base],
     tok_string = map_of [(''nonce'', ''n'')], tok_object = (\<lambda>_. None)\<rparr>"

definition issue_jose :: "(string, string) jose" where
  "issue_jose = table_jose
     [(''t'', \<lparr>h_typ = Some ''at+jwt'', h_alg = None, h_jwk = None, h_x5c = False, h_kid = None\<rparr>),
      (''d'', demo_headers ''dpop+jwt'' ''k''), (''p'', demo_headers ''openid4vci-proof+jwt'' ''w'')]
     [(''t'', access_token), (''d'', dpop_token), (''p'', proof_token)]"

definition demo_body :: string where
  "demo_body = ''{\"credential_configuration_id\":\"urn:eudi:pid:1\",\"proof\":{\"proof_type\":\"jwt\",\"jwt\":\"p\"}}''"

definition demo_record :: issuance_record where
  "demo_record = \<lparr>rec_ID = ''r'', CredentialType = PIDConfigID, CredentialData = ''{\"a\":\"b\"}'', SourceType = [],
     SourceRef = [], rec_Status = ''offer_created'', rec_IssuerState = ''s'', CreatedAt = 0, UpdatedAt = 0\<rparr>"

definition demo_env_on :: "'s record_ops \<Rightarrow> 's status_ops \<Rightarrow> (string, string, string, 's) service_env" where
  "demo_env_on R S = \<lparr>se_baseURL = demo_base, se_issuerKey = plain_key, se_records = R,
     se_status = S, se_float = demo_fo, se_jose = issue_jose, se_out = plain_jose_out,
     se_zlib = \<lparr>deflate_best = (\<lambda>b. b), inflate = Some\<rparr>, se_cbor = (\<lambda>_. Inr [7]), se_asn1_error = (\<lambda>_. []),
     se_url = (\<lambda>_. None), se_marshal_error = [], se_jti_order = (\<lambda>xs. xs), se_entry_order = (\<lambda>xs. xs),
     se_claim_order = (\<lambda>xs. xs)\<rparr>"

definition demo_env :: "(string, string, string, any_store) service_env" where
  "demo_env = demo_env_on (any_records plain_store_params) (any_status plain_store_params)"

definition demo_service :: "(any_store, string) service" where
  "demo_service = NewService new_session_store (Inl (NewStore\<lparr>mem_records := [(''r'', demo_record)]\<rparr>))
     sample_verifier zero_world"

lemma demo_request:
  "unmarshal_request fo demo_body = Some (zero_request\<lparr>rq_configuration_id := ''urn:eudi:pid:1'',
     rq_proof := Some \<lparr>pf_type = ''jwt'', pf_jwt = ''p''\<rparr>\<rparr>)"
  unfolding demo_body_def by code_simp

lemma demo_data: "unmarshal_map fo ''{\"a\":\"b\"}'' = Some (Some [(''a'', JStr ''b'')])"
  by code_simp


lemma demo_empty: "unmarshal_map fo ''{}'' = Some (Some [])"
  by code_simp

definition demo_claims :: token_claims where
  "demo_claims = \<lparr>c_IssuanceRecordID = ''r'', c_CNonce = ''n'', c_JKT = b64url (bytes_of ''k''), c_JTI = ''j''\<rparr>"

lemma htuMatches_refl: "htuMatches ext u u"
  by (simp add: htuMatches_def split: option.split)

lemma demo_verify:
  "Verify demo_fo issue_jose sample_world ''t'' sample_verifier = (Ok demo_claims, sample_verifier)"
proof -
  have ne: "bytes_of ''k'' \<noteq> []" by (simp add: bytes_of_def)
  show ?thesis
    by (simp add: Verify_def keySet_def requireAccessTokenType_def issue_jose_def access_token_def table_jose_def
        sample_verifier_def sample_world_def NewVerifier_def second_def tokenType_def isRevoked_def cnf_jkt_def
        get_or_empty_def demo_claims_def ne)
qed


lemma demo_dpop:
  "ValidateDPoPProof (\<lambda>_. None) issue_jose (\<lambda>xs. xs) 0 ''d'' ''POST''
     (demo_base @ ''/oid4vci/v1/credential'') (ComputeATH ''t'') NewJTIStore = (Ok ''k'', [(''d1'', ())])"
proof -
  have "dpop_checks (\<lambda>_. None) issue_jose 0 ''d'' ''POST'' (demo_base @ ''/oid4vci/v1/credential'') = Ok (''k'', dpop_token)"
    by (simp add: dpop_checks_Ok_iff issue_jose_def table_jose_def demo_headers_def dpop_token_def get_or_empty_def
        htuMatches_refl)
  then show ?thesis
    by (simp add: ValidateDPoPProof_def get_or_empty_def dpop_token_def jti_Accept_def NewJTIStore_def
        jtiStoreMaxSize_def gm_put_def Let_def)
qed

lemma demo_authorize:
  "authorize demo_env sample_world ''t'' ''d'' ''/oid4vci/v1/credential'' msg demo_service =
   (Ok demo_claims, demo_service\<lparr>sv_jtis := [(''d1'', ())]\<rparr>)"
proof -
  have w: "time_Now zero_world = (0, zero_world)" by (simp add: time_Now_def zero_world_def)
  have b: "requireBoundThumbprint issue_jose (c_JKT demo_claims) ''k'' msg = Ok ()"
    by (simp add: requireBoundThumbprint_Ok issue_jose_def table_jose_def demo_claims_def)
  show ?thesis
    using demo_verify demo_dpop b
    by (simp add: authorize_def demo_env_def demo_env_on_def demo_service_def NewService_def on_world_def w Let_def)
qed

lemma demo_proof:
  "ValidateProofJWT issue_jose 0 ''p'' demo_base = Ok ''w''" "ProofNonce issue_jose ''p'' = Ok ''n''"
  by (simp_all add: ValidateProofJWT_Ok_iff proof_ok_def issue_jose_def table_jose_def demo_headers_def
      proof_token_def ProofNonce_def)

lemma demo_build:
  "\<exists>cred w'. build_credential demo_env PIDConfigID ''w'' demo_record i w = (Ok cred, w')"
proof -
  have "\<exists>cred. fst (buildSDJWTCredential demo_env ''w'' demo_record i uri w) = Ok cred" for uri
    using demo_data [of demo_fo] demo_empty [of demo_fo]
    by (simp add: buildSDJWTCredential_def parse_credential_data_def demo_env_def demo_env_on_def demo_record_def Let_def split_beta
        pid_sd_builder_def sd_Build_def sd_NewBuilder_def sd_VCT_def sd_Issuer_def sd_Subject_def sd_HolderKey_def
        sd_X5CChain_def SelectiveClaim_def PlainClaim_def pidVCT_def NewDisclosure_def holder_claim_def jwkToMap_def
        jwt_headers_def plain_jose_out_def plain_key_def) 
  then obtain cred where "fst (buildSDJWTCredential demo_env ''w'' demo_record i (status_uri demo_env) w) = Ok cred"
    by blast
  then show ?thesis
    by (simp add: build_credential_def PIDConfigID_def PIDMdocConfigID_def split_beta Let_def)
qed


lemma demo_issue: "\<exists>resp sv'. IssueCredential demo_env sample_world ''t'' ''d'' demo_body demo_service = (Ok resp, sv')"
proof -
  let ?req = "zero_request\<lparr>rq_configuration_id := PIDConfigID, rq_proof := Some \<lparr>pf_type = ''jwt'', pf_jwt = ''p''\<rparr>\<rparr>"
  have req: "read_request demo_env demo_body = Ok ?req"
    by (simp add: read_request_Ok request_ok_def demo_request PIDConfigID_def zero_request_def)
  have pf: "ExtractProofJWT ?req = ''p''" by (simp add: ExtractProofJWT_def zero_request_def)
  have w: "time_Now zero_world = (0, zero_world)" by (simp add: time_Now_def zero_world_def)
  have n: "validateProofNonce demo_env ''p'' ''n'' sv = (Ok (), sv)"
    if "sv_sessions sv = new_session_store" for sv :: "(any_store, string) service"
  proof -
    have "ProofNonce (se_jose demo_env) ''p'' = Ok ''n''" using demo_proof(2) by (simp add: demo_env_def demo_env_on_def)
    with that show ?thesis
      by (cases sv) (simp add: validateProofNonce_def ValidateNonce_def new_session_store_def)
  qed
  have rid: "c_IssuanceRecordID demo_claims = ''r''" "c_CNonce demo_claims = ''n''" by (simp_all add: demo_claims_def)
  have f: "ro_FindByID (any_records plain_store_params) ''r'' (sv_store demo_service) = (Some demo_record, sv_store demo_service)"
    by (simp add: demo_service_def NewService_def any_records_def either_records_def memory_records_def mem_FindByID_def)
  obtain s2 where a: "so_AllocateIdx (any_status plain_store_params) ''r'' (sv_store demo_service) = (Ok 0, s2)"
    by (simp add: demo_service_def NewService_def any_status_def either_status_def memory_status_def
        mem_AllocateIdx_def NewStore_def Let_def)
  obtain cred w' where b: "build_credential demo_env PIDConfigID ''w'' demo_record 0 zero_world = (Ok cred, w')"
    using demo_build by blast
  have d: "CredentialData demo_record \<noteq> []" "CredentialData demo_record \<noteq> ''{}''" by (simp_all add: demo_record_def)
  have e: "se_jose demo_env = issue_jose" "se_baseURL demo_env = demo_base" "sv_world demo_service = zero_world"
    "se_records demo_env = any_records plain_store_params" "se_status demo_env = any_status plain_store_params"
    "sv_sessions demo_service = new_session_store"
    by (simp_all add: demo_env_def demo_env_on_def demo_service_def NewService_def)
  show ?thesis
    by (simp add: IssueCredential_def demo_authorize req pf Let_def on_world_def on_store_def on_store_world_def
        split_beta w e n demo_proof rid f a b d)
qed

section \<open>What an issued credential requires\<close>

text \<open>C1 (safety): a credential is only issued for an access token that verifies and is current, with a
  fresh DPoP proof by the very key the token is bound to, for one of the two configurations, against
  a valid key proof for this issuer whose nonce is registered here or carried by the token.
  Afterwards the DPoP identifier is recorded, and the nonce is not registered: one that was registered
  cannot be used again. A nonce carried by the token was never registered, and nothing uses it up
  (\<open>key_proof_reusable\<close> in \<open>Service_Live\<close>).\<close>

theorem issuing_requires_authorization:
  assumes "IssueCredential E A tok dp body sv = (Ok resp, sv')"
  shows "\<exists>claims jti req wk n.
    authorized E A (w_clock (sv_world sv) 0) tok dp ''/oid4vci/v1/credential'' sv claims jti \<and>
    request_ok E body req \<and>
    proof_ok (se_jose E) (w_clock (sv_world sv) 1) (ExtractProofJWT req) (se_baseURL E) wk \<and>
    fresh_nonce E (ExtractProofJWT req) (c_CNonce claims) (sv_sessions sv) n \<and>
    \<not> has_nonce (sv_sessions sv') n \<and> jti_seen (sv_jtis sv') jti"
proof (rule IssueCredential_Ok [OF assms], goal_cases)
  case (1 claims jti req wk n rc idx cred w)
  have "\<not> has_nonce (sv_sessions sv') n" "jti_seen (sv_jtis sv') jti"
    using 1(12,13) jti.acc_seen [of "se_jti_order E" jti "sv_jtis sv"] by simp_all
  with 1(1-4) show ?case by blast
qed


theorem issuing_requires_authorization_witness:
  "\<exists>resp sv' claims jti. IssueCredential demo_env sample_world ''t'' ''d'' demo_body demo_service = (Ok resp, sv') \<and>
     authorized demo_env sample_world 0 ''t'' ''d'' ''/oid4vci/v1/credential'' demo_service claims jti \<and>
     jti_seen (sv_jtis sv') jti"
proof -
  obtain resp sv' where run: "IssueCredential demo_env sample_world ''t'' ''d'' demo_body demo_service = (Ok resp, sv')"
    using demo_issue by blast
  have "w_clock (sv_world demo_service) 0 = 0" by (simp add: demo_service_def NewService_def zero_world_def)
  with issuing_requires_authorization [OF run] run show ?thesis by auto
qed

text \<open>C38 (safety): a credential request cannot be replayed. After a credential was issued, presenting the
  same DPoP proof again is refused at both protected endpoints, with whatever token and body, at
  whatever time, as long as the replay store is the one the first request left.\<close>

theorem request_not_replayed:
  assumes "IssueCredential E A tok dp body sv = (Ok resp, sv')" and "sv_jtis sv2 = sv_jtis sv'"
  shows "\<not> is_ok (fst (IssueCredential E A2 tok2 dp body2 sv2)) \<and>
    \<not> (tok2 \<noteq> [] \<and> is_ok (fst (service_GenerateNonce E A2 tok2 dp sv2)))"
proof (rule IssueCredential_Ok [OF assms(1)], goal_cases)
  case (1 claims jti req wk n rc idx cred w)
  then have seen: "jti_seen (sv_jtis sv2) jti"
    using assms(2) jti.acc_seen [of "se_jti_order E" jti "sv_jtis sv"] by simp
  have no: False if "authorize E A2 tok2 dp ep msg sv3 = (Ok claims2, sv4)" and "sv_jtis sv3 = sv_jtis sv2"
    for ep msg claims2 sv3 sv4
  proof (rule authorize_Ok [OF that(1)])
    fix jti2 v assume "authorized E A2 (w_clock (sv_world sv3) 0) tok2 dp ep sv3 claims2 jti2"
    with 1(1) have "jti2 = jti" "\<not> jti_seen (sv_jtis sv3) jti2"
      by (auto simp: authorized_def dpop_proof_ok_def)
    with seen that(2) show False by simp
  qed
  have "\<not> is_ok (fst (IssueCredential E A2 tok2 dp body2 sv2))"
    using no [OF _ refl] unfolding is_ok_iff IssueCredential_def fst_st_then_Ok_iff by blast
  moreover have "\<not> (tok2 \<noteq> [] \<and> is_ok (fst (service_GenerateNonce E A2 tok2 dp sv2)))"
    unfolding is_ok_iff service_GenerateNonce_def Let_def split_beta
    by (auto simp: fst_st_then_Ok_iff dest!: no)
  ultimately show ?case by blast
qed

theorem request_not_replayed_witness:
  "\<exists>resp sv'. IssueCredential demo_env sample_world ''t'' ''d'' demo_body demo_service = (Ok resp, sv') \<and>
     \<not> is_ok (fst (IssueCredential demo_env sample_world ''t'' ''d'' demo_body sv'))"
proof -
  obtain resp sv' where run: "IssueCredential demo_env sample_world ''t'' ''d'' demo_body demo_service = (Ok resp, sv')"
    using demo_issue by blast
  with request_not_replayed [OF run, of sv'] show ?thesis by auto
qed

section \<open>What an issued credential leaves behind\<close>

text \<open>
  \<open>store_up sp i s\<close>: the store carries out every statement about the record \<open>i\<close>. The in-memory store always
  does; of Postgres it means that no statement is refused and that the texts are ones \<open>TEXT\<close> accepts.
\<close>

definition store_up :: "store_params \<Rightarrow> string \<Rightarrow> any_store \<Rightarrow> bool" where
  "store_up sp i s =
     (case s of Inl ms \<Rightarrow> True | Inr ps \<Rightarrow> up ps \<and> text_ok (sp_pg sp) i \<and> text_ok (sp_pg sp) ''credential_issued'')"

lemma store_up_later:
  assumes "ro_FindByID (any_records sp) i s = (hit, s')" and "so_AllocateIdx (any_status sp) j s' = (res, s'')"
  shows "store_up sp r s \<longrightarrow> store_up sp r s''"
proof (cases s)
  case (Inl ms)
  with assms show ?thesis
    by (auto simp: store_up_def any_records_def any_status_def either_records_def either_status_def dispatch_eq
        split: prod.splits)
next
  case (Inr ps)
  with assms obtain ps1 ps2 where p: "s' = Inr ps1" "s'' = Inr ps2" "pg_FindByID (sp_pg sp) i ps = (hit, ps1)"
    "pg_AllocateIdx (sp_pg sp) j ps1 = (res, ps2)"
    by (auto simp: any_records_def any_status_def either_records_def either_status_def dispatch_eq
        postgres_records_def postgres_status_def split: prod.splits)
  have "up ps1" if "up ps"
    using that p(3) up_tick [OF that] by (auto simp: pg_FindByID_def up_autocommit sql_select_by_id_def)
  with up_allocates [OF _ p(4)] show ?thesis by (auto simp: store_up_def Inr p)
qed

lemma update_marks:
  assumes "store_up sp i s" and "any_table s i \<noteq> None"
  shows "\<exists>rc. any_table (fst (ro_UpdateStatus (any_records sp) i ''credential_issued'' s v)) i = Some rc \<and>
    rec_Status rc = ''credential_issued''"
  using assms
  by (cases s)
    (auto simp: store_up_def any_table_def any_records_def either_records_def memory_records_def postgres_records_def
      mem_table_def pg_table_def mem_UpdateStatus_def mem_mutate_def set_status_def pg_UpdateStatus_def up_autocommit
      sql_update_status_def split_beta Let_def)

text \<open>C10 (functional): on either store, a credential is issued for the record its verified access token
  names, which exists and has data; the list index built into it is that record's own (the one it
  already had, or a new VALID one above every index in use), no other entry changes, and nothing else
  in the records changes than that record's status and modification time. Unless Postgres refuses a
  statement, the record is marked as issued afterwards. The store's invariants are kept.\<close>

theorem issued_credential_is_indexed:
  assumes "store_params_ok sp" and "se_records E = any_records sp" and "se_status E = any_status sp"
    and "any_sound (sv_store sv)" and "any_sane (sv_store sv)" and "any_room (sv_store sv)"
    and "IssueCredential E A tok dp body sv = (Ok resp, sv')"
  shows "any_sound (sv_store sv') \<and> any_sane (sv_store sv') \<and>
    (\<exists>claims jti rid req wk rc idx w cred w'.
       authorized E A (w_clock (sv_world sv) 0) tok dp ''/oid4vci/v1/credential'' sv claims jti \<and>
       rid = c_IssuanceRecordID claims \<and>
       any_table (sv_store sv) rid = Some rc \<and> CredentialData rc \<notin> {[], ''{}''} \<and> request_ok E body req \<and>
       proof_ok (se_jose E) (w_clock (sv_world sv) 1) (ExtractProofJWT req) (se_baseURL E) wk \<and>
       indexed (any_entries (sv_store sv)) rid idx (any_entries (sv_store sv')) \<and>
       build_credential E (rq_configuration_id req) wk rc idx w = (Ok cred, w') \<and> resp = SuccessResponse cred \<and>
       touched rid (set_status ''credential_issued'') (any_table (sv_store sv)) (any_table (sv_store sv')) \<and>
       (store_up sp rid (sv_store sv) \<longrightarrow>
         (\<exists>rc'. any_table (sv_store sv') rid = Some rc' \<and> rec_Status rc' = ''credential_issued'')))"
proof -
  have later: "\<forall>i s hit s' j res s''. ro_FindByID (any_records sp) i s = (hit, s') \<longrightarrow>
      so_AllocateIdx (any_status sp) j s' = (res, s'') \<longrightarrow> (\<forall>r. store_up sp r s \<longrightarrow> store_up sp r s'')"
    using store_up_later by blast
  have marks: "\<exists>rc'. any_table s' i = Some rc' \<and> rec_Status rc' = ''credential_issued''"
    if "any_table t i = Some rc" and "any_table s = any_table t" and "\<forall>r. store_up sp r t \<longrightarrow> store_up sp r s"
      and "s' = fst (ro_UpdateStatus (any_records sp) i ''credential_issued'' s v)" and "store_up sp i t" for s' i t rc s v
    using that update_marks [of sp i s v] by simp
  show ?thesis
    using issuance_store.issue_effect [OF any_issuance_store [OF assms(1)] assms(2-7),
        of "\<lambda>s t. \<forall>r. store_up sp r s \<longrightarrow> store_up sp r t", OF later]
    by (elim conjE exE) (intro conjI exI; (assumption | rule refl | (rule impI, rule marks, assumption+)))
qed

lemma demo_invariants: "any_sound (sv_store demo_service)" "any_sane (sv_store demo_service)" "any_room (sv_store demo_service)"
  by (simp_all add: demo_service_def NewService_def any_sound_def any_sane_def any_room_def mem_sound_def mem_sane_def
      mem_room_def NewStore_def gm_wf_def demo_record_def)

theorem issued_credential_is_indexed_witness:
  "\<exists>resp sv' rid idx rc'. IssueCredential demo_env sample_world ''t'' ''d'' demo_body demo_service = (Ok resp, sv') \<and>
     indexed (any_entries (sv_store demo_service)) rid idx (any_entries (sv_store sv')) \<and>
     any_table (sv_store sv') rid = Some rc' \<and> rec_Status rc' = ''credential_issued''"
proof -
  obtain resp sv' where run: "IssueCredential demo_env sample_world ''t'' ''d'' demo_body demo_service = (Ok resp, sv')"
    using demo_issue by blast
  have e: "se_records demo_env = any_records plain_store_params" "se_status demo_env = any_status plain_store_params"
    by (simp_all add: demo_env_def demo_env_on_def)
  have "store_up plain_store_params i (sv_store demo_service)" for i
    by (simp add: store_up_def demo_service_def NewService_def)
  with issued_credential_is_indexed [OF plain_store_params_ok e demo_invariants run] run show ?thesis by blast
qed


section \<open>What a triggered issuance leaves behind\<close>

text \<open>C18 (functional): on either store, the offer URI of a triggered issuance resolves to the JSON of
  an authorization-code offer for the requested type, the status list is untouched, and the issuance
  id, unless it is empty, names a stored record of that type in state pending or offer_created.\<close>

theorem triggered_issuance:
  assumes "store_params_ok sp" and "se_records E = any_records sp" and "any_sound (sv_store sv)"
    and "TriggerIssuance E req sv = (Ok res, sv')"
  shows "any_sound (sv_store sv') \<and> any_entries (sv_store sv') = any_entries (sv_store sv) \<and>
    (\<exists>oid st j.
       ti_credential_offer_uri res = se_baseURL E @ ''/oid4vci/v1/credential-offer/'' @ oid \<and>
       marshal (se_float E) (offer_json (AuthorizationCodeOffer (se_baseURL E) (trigger_type req) st)) = Some j \<and>
       service_GetCredentialOffer oid sv' = Some j \<and>
       (ti_issuance_id res = [] \<or>
        (\<exists>r. any_table (sv_store sv') (ti_issuance_id res) = Some r \<and> CredentialType r = trigger_type req \<and>
           rec_Status r \<in> {''pending'', ''offer_created''})))"
  by (rule issuance_store.trigger_effect [OF any_issuance_store [OF assms(1)] assms(2-4)])

definition demo_trigger :: trigger_request where
  "demo_trigger = \<lparr>tr_credential_type = [], tr_credential_data = None, tr_source_type = ''manual'', tr_source_ref = []\<rparr>"

lemma trigger_succeeds:
  "tr_credential_data req = None \<Longrightarrow> \<exists>res sv'. TriggerIssuance E req sv = (Ok res, sv')"
  by (rule TriggerIssuance_cases [of E req sv])
    (simp_all add: trigger_data_def marshal_any_def)

theorem triggered_issuance_witness:
  "\<exists>res sv' oid j. TriggerIssuance demo_env demo_trigger demo_service = (Ok res, sv') \<and>
     ti_credential_offer_uri res = ''https://i/oid4vci/v1/credential-offer/'' @ oid \<and>
     service_GetCredentialOffer oid sv' = Some j"
proof -
  obtain res sv' where run: "TriggerIssuance demo_env demo_trigger demo_service = (Ok res, sv')"
    using trigger_succeeds [of demo_trigger demo_env demo_service] by (auto simp: demo_trigger_def)
  have e: "se_records demo_env = any_records plain_store_params" "se_baseURL demo_env = ''https://i''"
    by (simp_all add: demo_env_def demo_env_on_def demo_base_def)
  from triggered_issuance [OF plain_store_params_ok e(1) demo_invariants(1) run] run e(2) show ?thesis by auto
qed

text \<open>
  The link the authorization server follows: in the in-memory store the issuer state of the offer
  resolves to the record just created, which holds the submitted data.
\<close>

text \<open>C19 (roundtrip): on the in-memory store, looking up the issuer state carried by the offer returns
  the record of the issuance just triggered, in state offer_created and with the submitted data.\<close>

theorem issuer_state_links_offer:
  assumes "marshal_any (se_float E) (JObj (trigger_data req)) = Some data"
  shows "\<exists>res sv' st oid r.
    TriggerIssuance (E\<lparr>se_records := dev_records\<rparr>) req sv = (Ok res, sv') \<and>
    service_GetCredentialOffer oid sv' =
      marshal (se_float E) (offer_json (AuthorizationCodeOffer (se_baseURL E) (trigger_type req) st)) \<and>
    ti_credential_offer_uri res = se_baseURL E @ ''/oid4vci/v1/credential-offer/'' @ oid \<and>
    service_FindByIssuerState (E\<lparr>se_records := dev_records\<rparr>) st sv' = (Some r, sv') \<and>
    rec_ID r = ti_issuance_id res \<and> rec_Status r = ''offer_created'' \<and> rec_IssuerState r = st \<and>
    CredentialType r = trigger_type req \<and> CredentialData r = (if data = [] then ''{}'' else data)"
proof (rule TriggerIssuance_cases [of "E\<lparr>se_records := dev_records\<rparr>" req sv], goal_cases)
  case 1
  with assms show ?case by simp
next
  case (2 d rc s1 w1 st w2 s2 w3 j oid rnd ss s3 w4)
  have d: "d = data" using 2(1) assms by simp
  have off: "service_GetCredentialOffer oid (sv\<lparr>sv_store := s3, sv_sessions := ss, sv_world := w4\<rparr>) = Some j"
    using 2(6) unfolding service_GetCredentialOffer_def by (auto simp: StoreCredentialOffer_def GetCredentialOffer_def split_beta Let_def)
  have rc: "gm_get (mem_records s1) (rec_ID rc) = Some rc" "CredentialType rc = trigger_type req"
    "CredentialData rc = (if data = [] then ''{}'' else data)"
    using 2(2) by (auto simp: dev_records_def memory_records_def mem_Create_def d Let_def split_beta)
  have s2: "gm_get (byIssuerState s2) st = Some (rec_ID rc)"
    "\<exists>now. gm_get (mem_records s2) (rec_ID rc) = Some (rc\<lparr>rec_IssuerState := st, UpdatedAt := now\<rparr>)"
    using 2(4) rc(1) by (auto simp: dev_records_def memory_records_def mem_UpdateIssuerState_def Let_def split_beta)
  then obtain now where r2: "gm_get (mem_records s2) (rec_ID rc) = Some (rc\<lparr>rec_IssuerState := st, UpdatedAt := now\<rparr>)"
    by blast
  have s3: "gm_get (byIssuerState s3) st = Some (rec_ID rc)"
    "\<exists>now'. gm_get (mem_records s3) (rec_ID rc) =
       Some (rc\<lparr>rec_IssuerState := st, rec_Status := ''offer_created'', UpdatedAt := now'\<rparr>)"
    using 2(7) r2 s2(1)
    by (auto simp: dev_records_def memory_records_def mem_UpdateStatus_def mem_mutate_def set_status_def Let_def split_beta)
  then obtain now' where r3: "gm_get (mem_records s3) (rec_ID rc) =
      Some (rc\<lparr>rec_IssuerState := st, rec_Status := ''offer_created'', UpdatedAt := now'\<rparr>)" by blast
  let ?r = "rc\<lparr>rec_IssuerState := st, rec_Status := ''offer_created'', UpdatedAt := now'\<rparr>"
  let ?sv' = "sv\<lparr>sv_store := s3, sv_sessions := ss, sv_world := w4\<rparr>"
  have f: "service_FindByIssuerState (E\<lparr>se_records := dev_records\<rparr>) st ?sv' = (Some ?r, ?sv')"
    using s3(1) r3
    by (simp add: service_FindByIssuerState_def on_store_def dev_records_def memory_records_def mem_FindByIssuerState_def)
  show ?case
    by (intro exI conjI, rule 2(8), rule trans [OF _ 2(5) [symmetric, simplified]], rule off, simp, rule f)
      (simp_all add: rc)
qed


theorem issuer_state_links_offer_witness:
  "\<exists>res sv' st r. TriggerIssuance (demo_env_on dev_records memory_status) demo_trigger
       (NewService new_session_store NewStore sample_verifier zero_world) = (Ok res, sv') \<and>
     service_FindByIssuerState (demo_env_on dev_records memory_status) st sv' = (Some r, sv') \<and>
     rec_Status r = ''offer_created'' \<and> CredentialData r = ''{}''"
proof -
  let ?E = "demo_env_on dev_records memory_status"
  have E: "?E\<lparr>se_records := dev_records\<rparr> = ?E" by (simp add: demo_env_on_def)
  have m: "marshal_any (se_float ?E) (JObj (trigger_data demo_trigger)) = Some ''{}''"
    by (simp add: trigger_data_def demo_trigger_def marshal_any_def)
  show ?thesis
    using issuer_state_links_offer [OF m, of "NewService new_session_store NewStore sample_verifier zero_world"]
    unfolding E by auto
qed

text \<open>An update of a record that does not exist leaves the tables alone, whatever the database does.\<close>

lemma pg_update_missing:
  assumes "gm_get (pg_records s) i = None"
  shows "pg_records (fst (pg_UpdateStatus P i x s w)) = pg_records s"
    and "pg_records (fst (pg_UpdateIssuerState P i x s w)) = pg_records s"
  unfolding pg_UpdateStatus_def pg_UpdateIssuerState_def fst_conv using assms
  by (intro autocommit_snd_inv [where I = "\<lambda>t. pg_records t = pg_records s"];
      simp add: sql_update_status_def sql_update_issuer_state_def)+

lemma pg_no_issuer_state:
  assumes "pg_orders_ok P" and "\<forall>r \<in> snd ` set (pg_records s). rec_IssuerState r \<noteq> st"
  shows "fst (pg_FindByIssuerState P st s) = None"
proof -
  have none: "fst (sql_select_by_issuer_state P st (s\<lparr>pg_events := ev\<rparr>)) = None" for ev
    using assms by (auto simp: sql_select_by_issuer_state_def find_None_iff pg_orders_ok_def iterates_set)
  obtain res t where a: "autocommit (sql_select_by_issuer_state P st) s = (res, t)" by fastforce
  then have "res = None"
    by (cases rule: autocommit_cases) (use none in \<open>auto dest: arg_cong [where f = fst]\<close>)
  with a show ?thesis by (simp add: pg_FindByIssuerState_def)
qed

text \<open>C20 (error): when Postgres does not carry out the insertion, for whatever reason, triggering an
  issuance still succeeds, whatever becomes of the later statements: the caller gets an empty issuance
  id and the URI of an offer that can be fetched, and looking up the issuer state in that offer finds
  no record. Assumed is that no record has an empty id, and that the random issuer state is not that
  of an older record.\<close>

theorem unsaved_issuance_reported:
  assumes "se_records E = postgres_records P" and "pg_orders_ok P"
    and "marshal_any (se_float E) (JObj (trigger_data req)) = Some data"
    and "pg_Create P (trigger_type req) data (tr_source_type req) (tr_source_ref req) (sv_store sv) (sv_world sv) =
      (zero_record, s1, w1)"
    and "pg_records s1 = pg_records (sv_store sv)" and "gm_get (pg_records (sv_store sv)) [] = None"
    and "\<forall>r \<in> snd ` set (pg_records (sv_store sv)). rec_IssuerState r \<noteq> fst (draw_token 16 w1)"
  shows "\<exists>res sv' oid st j. TriggerIssuance E req sv = (Ok res, sv') \<and> ti_issuance_id res = [] \<and>
     ti_credential_offer_uri res = se_baseURL E @ ''/oid4vci/v1/credential-offer/'' @ oid \<and>
     service_GetCredentialOffer oid sv' = Some j \<and>
     marshal (se_float E) (offer_json (AuthorizationCodeOffer (se_baseURL E) (trigger_type req) st)) = Some j \<and>
     fst (service_FindByIssuerState E st sv') = None \<and> pg_records (sv_store sv') = pg_records (sv_store sv)"
proof (rule TriggerIssuance_cases [of E req sv], goal_cases)
  case 1
  with assms(3) show ?case by simp
next
  case (2 d rc s1' w1' st w2 s2 w3 j oid rnd ss s3 w4)
  have 1: "rc = zero_record" "s1' = s1" "w1' = w1"
    using 2(1,2) assms(1,3,4) by (simp_all add: postgres_records_def)
  have st: "st = fst (draw_token 16 w1)" using 2(3) by (simp add: 1)
  have e: "rec_ID zero_record = []" by (simp add: zero_record_def)
  have "s2 = fst (pg_UpdateIssuerState P [] st s1 w2)" using 2(4) by (simp add: 1 e assms(1) postgres_records_def)
  then have s2: "pg_records s2 = pg_records (sv_store sv)" using pg_update_missing(2) assms(5,6) by simp
  have "s3 = fst (pg_UpdateStatus P [] ''offer_created'' s2 (w3\<lparr>w_rand := rnd\<rparr>))"
    using 2(7) by (simp add: 1 e assms(1) postgres_records_def)
  then have s3: "pg_records s3 = pg_records (sv_store sv)" using pg_update_missing(1) assms(6) s2 by simp
  have off: "gm_get (credentialOffers ss) oid = Some j"
    using 2(6) by (auto simp: StoreCredentialOffer_def GetCredentialOffer_def split_beta Let_def)
  have none: "fst (pg_FindByIssuerState P st s3) = None"
    using pg_no_issuer_state [OF assms(2), of s3 st] assms(7) by (simp add: s3 st)
  show ?case
    by (rule exI, rule exI, rule exI [of _ oid], rule exI [of _ st], rule exI [of _ j], intro conjI, rule 2(8))
      (simp_all add: 1 e s3 off none service_GetCredentialOffer_def GetCredentialOffer_def 2(5) service_FindByIssuerState_def
        on_store_def split_beta assms(1) postgres_records_def)
qed

text \<open>A database that refuses one statement and then works again.\<close>

definition hiccup_service :: "(pg_store, string) service" where
  "hiccup_service = NewService new_session_store
     \<lparr>pg_records = [(''r'', demo_record)], pg_status = [], pg_next_idx = 0,
      pg_events = (\<lambda>n. (int n, if n = 0 then DbErr ''down'' else DbOk))\<rparr> sample_verifier zero_world"

theorem unsaved_issuance_reported_witness:
  "\<exists>res sv' oid st j. TriggerIssuance (demo_env_on (postgres_records plain_pg) (postgres_status plain_pg)) demo_trigger
       hiccup_service = (Ok res, sv') \<and> ti_issuance_id res = [] \<and>
     service_GetCredentialOffer oid sv' = Some j \<and>
     marshal demo_fo (offer_json (AuthorizationCodeOffer demo_base PIDConfigID st)) = Some j \<and>
     fst (service_FindByIssuerState (demo_env_on (postgres_records plain_pg) (postgres_status plain_pg)) st sv') = None"
proof -
  let ?E = "demo_env_on (postgres_records plain_pg) (postgres_status plain_pg)"
  let ?s1 = "(sv_store hiccup_service)\<lparr>pg_events := \<lambda>n. (int n + 1, DbOk)\<rparr>" and ?w1 = "snd (draw_token 16 zero_world)"
  have E: "se_records ?E = postgres_records plain_pg" "se_float ?E = demo_fo" "se_baseURL ?E = demo_base"
    by (simp_all add: demo_env_on_def)
  have m: "marshal_any (se_float ?E) (JObj (trigger_data demo_trigger)) = Some ''{}''"
    by (simp add: trigger_data_def demo_trigger_def marshal_any_def)
  have t: "trigger_type demo_trigger = PIDConfigID" by (simp add: trigger_type_def demo_trigger_def)
  have c: "pg_Create plain_pg (trigger_type demo_trigger) ''{}'' (tr_source_type demo_trigger) (tr_source_ref demo_trigger)
      (sv_store hiccup_service) (sv_world hiccup_service) = (zero_record, ?s1, ?w1)"
    by (simp add: pg_Create_def autocommit_def next_event_def pg_new_row_def hiccup_service_def NewService_def Let_def
        split_beta fun_eq_iff)
  have len: "length (fst (draw_token 16 ?w1)) \<noteq> 1"
    by (simp add: draw_token_def split_beta Let_def length_RandomToken)
  have "fst (draw_token 16 ?w1) \<noteq> ''s''"
  proof
    assume e: "fst (draw_token 16 ?w1) = ''s''"
    show False using len unfolding e by simp
  qed
  then have st: "\<forall>r \<in> snd ` set (pg_records (sv_store hiccup_service)). rec_IssuerState r \<noteq> fst (draw_token 16 ?w1)"
    by (simp add: hiccup_service_def NewService_def demo_record_def)
  have none: "gm_get (pg_records (sv_store hiccup_service)) [] = None" "pg_records ?s1 = pg_records (sv_store hiccup_service)"
    by (simp_all add: hiccup_service_def NewService_def)
  from unsaved_issuance_reported [OF E(1) plain_pg_orders m c none(2,1) st] show ?thesis by (simp only: E t) blast
qed

end
