(* ===== verification/Service_Status.thy ===== *)
theory Service_Status
  imports Service_Props
begin

text \<open>
  Revocation and the status list of the service. The facts about one request are proved in
  \<open>issuance_store\<close>; then the requests are let loose on each other: \<open>status_step\<close> interleaves the stages
  of revocations and of status list requests with every other operation on the store, the cache
  mutex being the only thing that orders them.
\<close>

section \<open>The list that is published\<close>

lemma size_of_entries_bounds:
  assumes "\<forall>(i, v) \<in> set es. 0 \<le> i \<and> i < b" and "0 \<le> b" and "b < 2 ^ 63"
  shows "0 \<le> size_of_entries es \<and> size_of_entries es \<le> b \<and> (\<forall>(i, v) \<in> set es. i < size_of_entries es)"
proof -
  let ?f = "\<lambda>sz (idx :: int, v :: byte). if i64 (idx + 1) > sz then i64 (idx + 1) else sz"
  have "0 \<le> foldl ?f sz xs \<and> foldl ?f sz xs \<le> b \<and> sz \<le> foldl ?f sz xs \<and> (\<forall>(i, v) \<in> set xs. i < foldl ?f sz xs)"
    if "\<forall>(i, v) \<in> set xs. 0 \<le> i \<and> i < b" "0 \<le> sz" "sz \<le> b" for sz xs
    using that
  proof (induction xs arbitrary: sz)
    case (Cons x xs)
    obtain i v where x: "x = (i, v)" by fastforce
    have i: "i64 (i + 1) = i + 1" "0 \<le> i" "i < b" using Cons.prems(1) assms(3) by (auto simp: x in_i64_def)
    have "\<forall>(i, v) \<in> set xs. 0 \<le> i \<and> i < b" using Cons.prems(1) by simp
    from Cons.IH [OF this, of "?f sz x"] Cons.prems i show ?case
      by (fastforce simp: x split: if_splits)
  qed simp
  from this [OF assms(1), of 0] assms(2) show ?thesis by (simp add: size_of_entries_def)
qed

text \<open>The entries fit a list whose size computation does not wrap: fewer than \<open>2 ^ 61\<close> indices.\<close>

definition fits :: "(string \<Rightarrow> (int \<times> byte) option) \<Rightarrow> bool" where
  "fits en \<longleftrightarrow> (\<forall>r i v. en r = Some (i, v) \<longrightarrow> i < 2 ^ 61 - 1)"

definition small_list :: "(int, byte) gomap \<Rightarrow> bool" where
  "small_list m \<longleftrightarrow> gm_wf m \<and> (\<forall>i v. gm_get m i = Some v \<longrightarrow> 0 \<le> i \<and> i < 2 ^ 61 - 1)"

lemma small_list_size:
  assumes "small_list m" and "iterates it"
  shows "0 \<le> size_of_entries (it m)" "list_size_ok (size_of_entries (it m))"
    and "gm_get m i = Some v \<Longrightarrow> 0 \<le> i \<and> i < size_of_entries (it m)"
proof -
  have mem: "\<forall>(i, v) \<in> set (it m). 0 \<le> i \<and> i < 2 ^ 61 - 1"
    using assms gm_get_in by (fastforce simp: small_list_def iterates_set)
  note b = size_of_entries_bounds [OF mem]
  then show "0 \<le> size_of_entries (it m)" "list_size_ok (size_of_entries (it m))"
    by (simp_all add: list_size_ok_def)
  show "0 \<le> i \<and> i < size_of_entries (it m)" if "gm_get m i = Some v"
  proof -
    have "(i, v) \<in> set (it m)" using that assms gm_get_in by (fastforce simp: small_list_def iterates_set)
    with b mem show ?thesis by auto
  qed
qed

lemma sign_entries_Ok:
  assumes "sign_entries E m sv = (Ok tok, sv')" and "small_list m" and "iterates (se_entry_order E)"
    and "zlib_ok (se_zlib E)" and "gm_get m i = Some v"
  shows "published (se_out E) (se_zlib E) (se_issuerKey E) (status_uri E) tok i (v AND 3)"
proof -
  let ?sz = "size_of_entries (se_entry_order E m)"
  obtain w' where "Build_status_list (se_out E) (se_zlib E) (se_entry_order E) m ?sz (status_uri E)
      (se_issuerKey E) (sv_world sv) = (Ok tok, w')"
    using assms(1) by (auto simp: sign_entries_def on_world_def Let_def split_beta st_then_Ok_iff map_err_Ok_iff)
      (metis prod.collapse)
  note b = Build_status_list_published [OF assms(3) _ _ _ assms(4) this]
  have "slot_of m i = v AND 3" using assms(5) by (simp add: slot_of_def)
  with b [of i] small_list_size [OF assms(2,3)] assms(2,5) show ?thesis by (auto simp: small_list_def)
qed

lemma sign_entries_state:
  "sv_store (snd (sign_entries E m sv)) = sv_store sv"
  "sign_entries E m sv = (Ok tok, sv') \<Longrightarrow> sv_cacheToken sv' = tok"
  "fst (sign_entries E m sv) = Ok tok \<or> sv_cacheToken (snd (sign_entries E m sv)) = sv_cacheToken sv \<or>
     fst (sign_entries E m sv) = Ok (sv_cacheToken (snd (sign_entries E m sv)))"
  by (cases "fst (Build_status_list (se_out E) (se_zlib E) (se_entry_order E) m
      (size_of_entries (se_entry_order E m)) (status_uri E) (se_issuerKey E) (sv_world sv))";
    auto simp: sign_entries_def on_world_def Let_def split_beta)+

lemma cached_token_state [simp]:
  "sv_store (snd (cached_token sv)) = sv_store sv" "sv_cacheToken (snd (cached_token sv)) = sv_cacheToken sv"
  by (simp_all add: cached_token_def on_world_def Let_def split_beta)

lemma sessions_untouched [simp]:
  "sv_sessions (snd (cached_token sv)) = sv_sessions sv" "sv_jtis (snd (cached_token sv)) = sv_jtis sv"
  "sv_sessions (snd (load_entries E sv)) = sv_sessions sv" "sv_jtis (snd (load_entries E sv)) = sv_jtis sv"
  "sv_sessions (snd (sign_entries E m sv)) = sv_sessions sv" "sv_jtis (snd (sign_entries E m sv)) = sv_jtis sv"
proof -
  have st: "sv_sessions (snd (st_then n f)) = z" "sv_jtis (snd (st_then n f)) = u"
    if "sv_sessions (snd n) = z" "sv_jtis (snd n) = u"
      "\<And>x s. sv_sessions s = z \<Longrightarrow> sv_jtis s = u \<Longrightarrow> sv_sessions (snd (f x s)) = z \<and> sv_jtis (snd (f x s)) = u"
    for n :: "'r result \<times> ('u, 'v) service" and f :: "'r \<Rightarrow> ('u, 'v) service \<Rightarrow> 'w result \<times> ('u, 'v) service" and z u
    using that by (cases n; cases "fst n"; auto)+
  show "sv_sessions (snd (cached_token sv)) = sv_sessions sv" "sv_jtis (snd (cached_token sv)) = sv_jtis sv"
    by (simp_all add: cached_token_def on_world_def Let_def split_beta)
  show "sv_sessions (snd (load_entries E sv)) = sv_sessions sv" "sv_jtis (snd (load_entries E sv)) = sv_jtis sv"
    by (simp_all add: load_entries_def on_store_def Let_def split_beta)
  show "sv_sessions (snd (sign_entries E m sv)) = sv_sessions sv" "sv_jtis (snd (sign_entries E m sv)) = sv_jtis sv"
    by (auto simp: sign_entries_def on_world_def Let_def split_beta intro!: st)
qed

lemma cached_token_Some: "fst (cached_token sv) = Some tok \<Longrightarrow> tok = sv_cacheToken sv \<and> tok \<noteq> []"
  by (auto simp: cached_token_def on_world_def Let_def split_beta split: if_splits)

context issuance_store
begin

lemma entries_small:
  assumes "sane s" and "fits (ent s)" and "so_AllEntries S s = (Ok m, s')"
  shows "small_list m" "gm_get m i = Some v \<longleftrightarrow> (\<exists>r. ent s r = Some (i, v))"
proof -
  from entries [OF assms(1,3)] have m: "gm_wf m" "\<And>i v. gm_get m i = Some v \<longleftrightarrow> (\<exists>r. ent s r = Some (i, v))"
    by simp_all
  then show "gm_get m i = Some v \<longleftrightarrow> (\<exists>r. ent s r = Some (i, v))" by simp
  show "small_list m"
    unfolding small_list_def using m assms(2) idx_range [OF assms(1)] by (fastforce simp: fits_def)
qed

lemma load_entries_Ok:
  assumes "se_status E = S" and "load_entries E sv = (Ok m, sv')" and "sane (sv_store sv)" and "fits (ent (sv_store sv))"
  shows "small_list m" "\<And>i v. gm_get m i = Some v \<longleftrightarrow> (\<exists>r. ent (sv_store sv) r = Some (i, v))"
proof -
  from assms(2) obtain s' where "so_AllEntries S (sv_store sv) = (Ok m, s')"
    by (auto simp: load_entries_def on_store_def assms(1) Let_def split_beta map_err_Ok_iff) (metis prod.collapse)
  from entries_small [OF assms(3,4) this]
  show "small_list m" "\<And>i v. gm_get m i = Some v \<longleftrightarrow> (\<exists>r. ent (sv_store sv) r = Some (i, v))" by simp_all
qed

lemma load_entries_state:
  assumes "se_status E = S" and "sane (sv_store sv)"
  shows "sane (sv_store (snd (load_entries E sv)))" "ent (sv_store (snd (load_entries E sv))) = ent (sv_store sv)"
    "tab (sv_store (snd (load_entries E sv))) = tab (sv_store sv)"
    "sound (sv_store (snd (load_entries E sv))) = sound (sv_store sv)"
    "sv_cacheToken (snd (load_entries E sv)) = sv_cacheToken sv" "\<And>p. fst (load_entries E sv) \<noteq> Panic p"
proof -
  obtain all s' where a: "so_AllEntries S (sv_store sv) = (all, s')" by fastforce
  from entries [OF assms(2) a] entries_frame [OF a]
  show "sane (sv_store (snd (load_entries E sv)))" "ent (sv_store (snd (load_entries E sv))) = ent (sv_store sv)"
    "tab (sv_store (snd (load_entries E sv))) = tab (sv_store sv)"
    "sound (sv_store (snd (load_entries E sv))) = sound (sv_store sv)"
    "sv_cacheToken (snd (load_entries E sv)) = sv_cacheToken sv" "\<And>p. fst (load_entries E sv) \<noteq> Panic p"
    by (cases all; simp add: load_entries_def on_store_def assms(1) a Let_def)+
qed

text \<open>A status list token that does not come from the cache publishes every entry of the store.\<close>

lemma fresh_token_publishes:
  assumes env: "se_status E = S" "iterates (se_entry_order E)" "zlib_ok (se_zlib E)"
    and inv: "sane (sv_store sv)" "fits (ent (sv_store sv))"
    and run: "GetStatusListToken E lid sv = (Ok tok, sv')" and miss: "fst (cached_token sv) = None"
    and e: "ent (sv_store sv) r = Some (i, v)"
  shows "published (se_out E) (se_zlib E) (se_issuerKey E) (status_uri E) tok i (v AND 3)"
proof -
  obtain sva where c: "cached_token sv = (None, sva)" using miss by (metis prod.collapse)
  have st: "sv_store sva = sv_store sv" using cached_token_state(1) [of sv] by (simp add: c)
  from run c obtain m svb where l: "load_entries E sva = (Ok m, svb)" and s: "sign_entries E m svb = (Ok tok, sv')"
    by (auto simp: GetStatusListToken_def st_then_Ok_iff)
  note m = load_entries_Ok [OF env(1) l, unfolded st, OF inv]
  then have "gm_get m i = Some v" using e by blast
  from sign_entries_Ok [OF s m(1) env(2,3) this] show ?thesis .
qed

lemma revoke_effect:
  assumes env: "se_records E = R" "se_status E = S"
    and inv: "sound (sv_store sv)" "sane (sv_store sv)"
    and run: "RevokeCredential E rid sv = (Ok u, sv')"
  shows "sound (sv_store sv') \<and> sane (sv_store sv') \<and> sv_cacheToken sv' = [] \<and>
    tab (sv_store sv') = tab (sv_store sv) \<and>
    (\<exists>rc i v. tab (sv_store sv) rid = Some rc \<and> rec_Status rc = ''credential_issued'' \<and>
       ent (sv_store sv) rid = Some (i, v) \<and>
       ent (sv_store sv') = (ent (sv_store sv))(rid \<mapsto> (i, StatusInvalid)))"
proof -
  obtain rc s1 slot s2 j s3 where
    1: "ro_FindByID R rid (sv_store sv) = (Some rc, s1)" and rc: "rec_Status rc = ''credential_issued''"
    and 2: "so_FindByRecordID S rid s1 = (Some slot, s2)" and 3: "so_SetStatus S rid StatusInvalid s2 = (Some j, s3)"
    and sv': "sv' = sv\<lparr>sv_store := s3, sv_cacheToken := []\<rparr>"
  proof -
    from run obtain rc slot j where
      "fst (ro_FindByID R rid (sv_store sv)) = Some rc" "rec_Status rc = ''credential_issued''"
      "fst (so_FindByRecordID S rid (snd (ro_FindByID R rid (sv_store sv)))) = Some slot"
      "fst (so_SetStatus S rid StatusInvalid (snd (so_FindByRecordID S rid (snd (ro_FindByID R rid (sv_store sv)))))) = Some j"
      "sv' = sv\<lparr>sv_store := snd (so_SetStatus S rid StatusInvalid
          (snd (so_FindByRecordID S rid (snd (ro_FindByID R rid (sv_store sv)))))), sv_cacheToken := []\<rparr>"
      by (auto simp: RevokeCredential_def revocable_def mark_invalid_def drop_cache_def on_store_def env Let_def split_beta
          st_then_Ok_iff of_option_Ok_iff fail_if_Ok_iff)
    then show thesis by (intro that [of rc _ slot _ j]) (simp_all add: prod_eq_iff)
  qed
  note a = find [OF inv(1) 1] find_frame [OF 1]
  then have s1: "sane s1" "sound s1" using inv by simp_all
  note b = lookup [OF s1(1) 2] lookup_frame [OF 2]
  then have s2: "sane s2" by simp
  note c = set_result [OF s2 3] set_frame [OF 3]
  have t: "tab (sv_store sv) rid = Some rc" using a by auto
  from a b c s1 rc t show ?thesis by (auto simp: sv' simp del: not_None_eq)
qed

end


section \<open>One request at a time\<close>

text \<open>C11 (functional): on either store, a revocation that reports success found an issued record with an
  entry, sets exactly that entry to INVALID at the index it had, changes no record and no other entry,
  and empties the cache.\<close>

theorem revocation_effect:
  assumes "store_params_ok sp" and "se_records E = any_records sp" and "se_status E = any_status sp"
    and "any_sound (sv_store sv)" and "any_sane (sv_store sv)"
    and "RevokeCredential E rid sv = (Ok u, sv')"
  shows "any_sound (sv_store sv') \<and> any_sane (sv_store sv') \<and> sv_cacheToken sv' = [] \<and>
    any_table (sv_store sv') = any_table (sv_store sv) \<and>
    (\<exists>rc i v. any_table (sv_store sv) rid = Some rc \<and> rec_Status rc = ''credential_issued'' \<and>
       any_entries (sv_store sv) rid = Some (i, v) \<and>
       any_entries (sv_store sv') = (any_entries (sv_store sv))(rid \<mapsto> (i, StatusInvalid)))"
  by (rule issuance_store.revoke_effect [OF any_issuance_store [OF assms(1)] assms(2-6)])

text \<open>An issued credential with index 0 in the in-memory store, for the witnesses.\<close>

definition issued_service :: "(any_store, string) service" where
  "issued_service = NewService new_session_store (Inl (NewStore
     \<lparr>mem_records := [(''r'', demo_record\<lparr>rec_Status := ''credential_issued''\<rparr>)],
      statusNextIdx := 1, statusByIdx := [(0, StatusValid)], statusByRecID := [(''r'', 0)]\<rparr>))
     sample_verifier zero_world"

lemma issued_invariants:
  "any_sound (sv_store issued_service)" "any_sane (sv_store issued_service)" "any_room (sv_store issued_service)"
  "fits (any_entries (sv_store issued_service))"
  by (auto simp: issued_service_def NewService_def any_sound_def any_sane_def any_room_def mem_sound_def mem_sane_def
      mem_room_def NewStore_def gm_wf_def demo_record_def fits_def any_entries_def mem_entries_def split: if_splits)

lemma issued_revoke: "\<exists>sv'. RevokeCredential demo_env ''r'' issued_service = (Ok (), sv')"
  by (simp add: RevokeCredential_def revocable_def mark_invalid_def on_store_def issued_service_def NewService_def
      demo_env_def demo_env_on_def any_records_def any_status_def either_records_def either_status_def
      memory_records_def memory_status_def mem_FindByID_def mem_FindByRecordID_def mem_SetStatus_def Let_def)

theorem revocation_effect_witness:
  "\<exists>sv'. RevokeCredential demo_env ''r'' issued_service = (Ok (), sv') \<and>
     any_entries (sv_store sv') ''r'' = Some (0, StatusInvalid)"
proof -
  obtain sv' where run: "RevokeCredential demo_env ''r'' issued_service = (Ok (), sv')" using issued_revoke by blast
  have e: "se_records demo_env = any_records plain_store_params" "se_status demo_env = any_status plain_store_params"
    by (simp_all add: demo_env_def demo_env_on_def)
  have "any_entries (sv_store issued_service) ''r'' = Some (0, StatusValid)"
    by (simp add: issued_service_def NewService_def any_entries_def mem_entries_def mem_byte_at_def)
  with revocation_effect [OF plain_store_params_ok e issued_invariants(1,2) run] run show ?thesis by auto
qed

section \<open>Interleaved requests\<close>

text \<open>
  \<open>sy_lock\<close> is the cache mutex: \<open>Some m\<close> while a status list request that has read the entries \<open>m\<close>
  holds it. \<open>sy_marked\<close> are the revocations that have marked their entry and wait for the mutex,
  \<open>sy_revoked\<close> those that have returned. \<open>sy_answers\<close> is a ledger of the tokens handed out, each
  with the revocations that had returned by then; it is written and never read.
\<close>

record ('s, 'ks) system =
  sy_service :: "('s, 'ks) service"
  sy_lock :: "(int, byte) gomap option"
  sy_marked :: "string set"
  sy_revoked :: "string set"
  sy_answers :: "(string \<times> string set) list"

definition answer :: "string \<Rightarrow> ('s, 'ks) system \<Rightarrow> ('s, 'ks) system" where
  "answer tok y = y\<lparr>sy_answers := (tok, sy_revoked y) # sy_answers y\<rparr>"

text \<open>
  The steps: \<open>hit\<close>, \<open>read\<close>, \<open>refuse\<close>, \<open>sign\<close> and \<open>abort\<close> are the stages of \<open>GetStatusListToken\<close>,
  \<open>check\<close>, \<open>mark\<close> and \<open>clear\<close> those of \<open>RevokeCredential\<close>; the rest are the store calls of the other
  handlers, one by one.
\<close>

inductive status_step ::
  "('k, 'ks, 'sg, 's) service_env \<Rightarrow> ('s, 'ks) system \<Rightarrow> ('s, 'ks) system \<Rightarrow> bool" for E where
  hit: "sy_lock y = None \<Longrightarrow> cached_token (sy_service y) = (Some tok, sv) \<Longrightarrow>
    status_step E y (answer tok (y\<lparr>sy_service := sv\<rparr>))"
| read: "sy_lock y = None \<Longrightarrow> cached_token (sy_service y) = (None, sv1) \<Longrightarrow> load_entries E sv1 = (Ok m, sv) \<Longrightarrow>
    status_step E y (y\<lparr>sy_service := sv, sy_lock := Some m\<rparr>)"
| refuse: "sy_lock y = None \<Longrightarrow> cached_token (sy_service y) = (None, sv1) \<Longrightarrow> load_entries E sv1 = (Err e, sv) \<Longrightarrow>
    status_step E y (y\<lparr>sy_service := sv\<rparr>)"
| sign: "sy_lock y = Some m \<Longrightarrow> sign_entries E m (sy_service y) = (Ok tok, sv) \<Longrightarrow>
    status_step E y (answer tok (y\<lparr>sy_lock := None, sy_service := sv\<rparr>))"
| abort: "sy_lock y = Some m \<Longrightarrow> sign_entries E m (sy_service y) = (Err e, sv) \<Longrightarrow>
    status_step E y (y\<lparr>sy_lock := None, sy_service := sv\<rparr>)"
| check: "revocable E rid (sy_service y) = (res, sv) \<Longrightarrow> status_step E y (y\<lparr>sy_service := sv\<rparr>)"
| mark: "mark_invalid E rid (sy_service y) = (Ok (), sv) \<Longrightarrow>
    status_step E y (y\<lparr>sy_service := sv, sy_marked := insert rid (sy_marked y)\<rparr>)"
| mark_fail: "mark_invalid E rid (sy_service y) = (Err e, sv) \<Longrightarrow> status_step E y (y\<lparr>sy_service := sv\<rparr>)"
| clear: "sy_lock y = None \<Longrightarrow> rid \<in> sy_marked y \<Longrightarrow>
    status_step E y (y\<lparr>sy_service := drop_cache (sy_service y), sy_revoked := insert rid (sy_revoked y)\<rparr>)"
| allocate: "on_store (so_AllocateIdx (se_status E) rid) (sy_service y) = (idx, sv) \<Longrightarrow>
    status_step E y (y\<lparr>sy_service := sv\<rparr>)"
| create: "call_Create E ct cd st sr (sy_service y) = (rc, sv) \<Longrightarrow> status_step E y (y\<lparr>sy_service := sv\<rparr>)"
| find: "on_store (ro_FindByID (se_records E) rid) (sy_service y) = (hit, sv) \<Longrightarrow> status_step E y (y\<lparr>sy_service := sv\<rparr>)"
| find_state: "service_FindByIssuerState E st (sy_service y) = (hit, sv) \<Longrightarrow> status_step E y (y\<lparr>sy_service := sv\<rparr>)"
| list: "on_store (ro_FindAll (se_records E) off lim f ord) (sy_service y) = (page, sv) \<Longrightarrow>
    status_step E y (y\<lparr>sy_service := sv\<rparr>)"
| look_up: "on_store (so_FindByRecordID (se_status E) rid) (sy_service y) = (known, sv) \<Longrightarrow>
    status_step E y (y\<lparr>sy_service := sv\<rparr>)"
| update: "status_step E y (y\<lparr>sy_service := on_store_world (ro_UpdateStatus (se_records E) rid st) (sy_service y)\<rparr>)"
| update_state: "status_step E y
    (y\<lparr>sy_service := on_store_world (ro_UpdateIssuerState (se_records E) rid st) (sy_service y)\<rparr>)"

text \<open>Runs all of whose states satisfy a bound.\<close>

inductive status_run ::
  "('k, 'ks, 'sg, 's) service_env \<Rightarrow> ('s \<Rightarrow> bool) \<Rightarrow> ('s, 'ks) system \<Rightarrow> ('s, 'ks) system \<Rightarrow> bool" for E B where
  start: "status_run E B y y"
| more: "status_run E B x y \<Longrightarrow> B (sv_store (sy_service y)) \<Longrightarrow> status_step E y z \<Longrightarrow> status_run E B x z"

definition idle_system :: "('s, 'ks) service \<Rightarrow> ('s, 'ks) system" where
  "idle_system sv = \<lparr>sy_service = sv, sy_lock = None, sy_marked = {}, sy_revoked = {}, sy_answers = []\<rparr>"


text \<open>What every state of a run satisfies. Once INVALID, an entry keeps its index and stays INVALID.\<close>

definition still_revoked :: "(string \<Rightarrow> (int \<times> byte) option) \<Rightarrow> (string \<Rightarrow> (int \<times> byte) option) \<Rightarrow> bool" where
  "still_revoked en en' \<longleftrightarrow> (\<forall>r i. en r = Some (i, StatusInvalid) \<longrightarrow> en' r = Some (i, StatusInvalid))"

definition stays_placed :: "(string \<Rightarrow> (int \<times> byte) option) \<Rightarrow> (string \<Rightarrow> (int \<times> byte) option) \<Rightarrow> bool" where
  "stays_placed en en' \<longleftrightarrow> (\<forall>r i v. en r = Some (i, v) \<longrightarrow> (\<exists>u. en' r = Some (i, u)))"

definition tells_revoked ::
  "('k, 'ks, 'sg, 's) service_env \<Rightarrow> (string \<Rightarrow> (int \<times> byte) option) \<Rightarrow> string \<Rightarrow> string set \<Rightarrow> bool" where
  "tells_revoked E en tok rs \<longleftrightarrow>
     (\<forall>r \<in> rs. \<exists>i. en r = Some (i, StatusInvalid) \<and>
        published (se_out E) (se_zlib E) (se_issuerKey E) (status_uri E) tok i StatusInvalid)"

definition status_inv ::
  "('k, 'ks, 'sg, 's) service_env \<Rightarrow> (string \<Rightarrow> (int \<times> byte) option) \<Rightarrow> ('s, 'ks) system \<Rightarrow> bool" where
  "status_inv E en y \<longleftrightarrow>
     (\<forall>r \<in> sy_marked y \<union> sy_revoked y. \<exists>i. en r = Some (i, StatusInvalid)) \<and>
     (\<forall>m. sy_lock y = Some m \<longrightarrow> small_list m \<and>
        (\<forall>r \<in> sy_revoked y. \<exists>i. en r = Some (i, StatusInvalid) \<and> gm_get m i = Some StatusInvalid)) \<and>
     (sv_cacheToken (sy_service y) \<noteq> [] \<longrightarrow> tells_revoked E en (sv_cacheToken (sy_service y)) (sy_revoked y)) \<and>
     (\<forall>(tok, rs) \<in> set (sy_answers y). tells_revoked E en tok rs)"

lemma tells_revoked_mono: "tells_revoked E en tok rs \<Longrightarrow> still_revoked en en' \<Longrightarrow> tells_revoked E en' tok rs"
  by (fastforce simp: tells_revoked_def still_revoked_def)

lemma still_revoked_refl [simp]: "still_revoked en en" "stays_placed en en"
  by (simp_all add: still_revoked_def stays_placed_def)

lemma stays_placed_trans: "stays_placed a b \<Longrightarrow> stays_placed b c \<Longrightarrow> stays_placed a c"
  by (fastforce simp: stays_placed_def)

lemma status_inv_store:
  assumes "status_inv E en y" and "still_revoked en en'" and "sv_cacheToken sv = sv_cacheToken (sy_service y)"
  shows "status_inv E en' (y\<lparr>sy_service := sv\<rparr>)"
proof -
  have keep: "\<exists>i. en' r = Some (i, StatusInvalid) \<and> Q i" if "\<exists>i. en r = Some (i, StatusInvalid) \<and> Q i" for r Q
    using that assms(2) by (auto simp: still_revoked_def)
  show ?thesis
    unfolding status_inv_def
  proof (intro conjI ballI allI impI)
    fix r assume "r \<in> sy_marked (y\<lparr>sy_service := sv\<rparr>) \<union> sy_revoked (y\<lparr>sy_service := sv\<rparr>)"
    then show "\<exists>i. en' r = Some (i, StatusInvalid)"
      using assms(1) keep [of r "\<lambda>_. True"] by (simp add: status_inv_def)
  next
    fix m assume "sy_lock (y\<lparr>sy_service := sv\<rparr>) = Some m"
    then show "small_list m" using assms(1) by (simp add: status_inv_def)
  next
    fix m r assume "sy_lock (y\<lparr>sy_service := sv\<rparr>) = Some m" "r \<in> sy_revoked (y\<lparr>sy_service := sv\<rparr>)"
    then show "\<exists>i. en' r = Some (i, StatusInvalid) \<and> gm_get m i = Some StatusInvalid"
      using assms(1) keep by (simp add: status_inv_def)
  next
    assume "sv_cacheToken (sy_service (y\<lparr>sy_service := sv\<rparr>)) \<noteq> []"
    then show "tells_revoked E en' (sv_cacheToken (sy_service (y\<lparr>sy_service := sv\<rparr>))) (sy_revoked (y\<lparr>sy_service := sv\<rparr>))"
      using assms by (auto simp: status_inv_def intro: tells_revoked_mono [OF _ assms(2)])
  next
    fix a assume "a \<in> set (sy_answers (y\<lparr>sy_service := sv\<rparr>))"
    then show "case a of (tok, rs) \<Rightarrow> tells_revoked E en' tok rs"
      using assms(1) by (auto simp: status_inv_def intro: tells_revoked_mono [OF _ assms(2)])
  qed
qed

lemma status_inv_revoked:
  "status_inv E en y \<Longrightarrow> r \<in> sy_revoked y \<Longrightarrow> \<exists>i. en r = Some (i, StatusInvalid)"
  unfolding status_inv_def by blast

lemma status_inv_lock:
  "status_inv E en y \<Longrightarrow> small_list m \<Longrightarrow>
   \<forall>r \<in> sy_revoked y. \<exists>i. en r = Some (i, StatusInvalid) \<and> gm_get m i = Some StatusInvalid \<Longrightarrow>
   status_inv E en (y\<lparr>sy_lock := Some m\<rparr>)"
  by (simp add: status_inv_def)

lemma status_inv_unlock: "status_inv E en y \<Longrightarrow> status_inv E en (y\<lparr>sy_lock := None\<rparr>)"
  by (simp add: status_inv_def)

lemma status_inv_answer:
  "status_inv E en y \<Longrightarrow> tells_revoked E en tok (sy_revoked y) \<Longrightarrow> status_inv E en (answer tok y)"
  by (simp add: status_inv_def answer_def)

lemma status_inv_cached:
  "status_inv E en y \<Longrightarrow> tells_revoked E en (sv_cacheToken sv) (sy_revoked y) \<or> sv_cacheToken sv = [] \<or>
     sv_cacheToken sv = sv_cacheToken (sy_service y) \<Longrightarrow> status_inv E en (y\<lparr>sy_service := sv\<rparr>)"
  by (auto simp: status_inv_def)

lemma status_inv_clear:
  "status_inv E en y \<Longrightarrow> sy_lock y = None \<Longrightarrow> rid \<in> sy_marked y \<Longrightarrow>
   status_inv E en (y\<lparr>sy_service := drop_cache (sy_service y), sy_revoked := insert rid (sy_revoked y)\<rparr>)"
  by (simp add: status_inv_def drop_cache_def)


context issuance_store
begin

text \<open>Every store call keeps the contract's invariants, the entries that are INVALID and every index.\<close>

definition quiet :: "('s, 'ks) service \<Rightarrow> ('s, 'ks) service \<Rightarrow> bool" where
  "quiet sv sv' \<longleftrightarrow> sound (sv_store sv') \<and> sane (sv_store sv') \<and>
     still_revoked (ent (sv_store sv)) (ent (sv_store sv')) \<and> stays_placed (ent (sv_store sv)) (ent (sv_store sv')) \<and>
     sv_cacheToken sv' = sv_cacheToken sv \<and> sv_sessions sv' = sv_sessions sv \<and> sv_jtis sv' = sv_jtis sv"

lemma quiet_status_calls:
  assumes "sound (sv_store sv)" and "sane (sv_store sv)"
  shows "room (sv_store sv) \<Longrightarrow> on_store (so_AllocateIdx S rid) sv = (idx, sv') \<Longrightarrow> quiet sv sv'"
    and "on_store (so_FindByRecordID S rid) sv = (known, sv') \<Longrightarrow> quiet sv sv'"
    and "on_store (so_SetStatus S rid StatusInvalid) sv = (upd, sv') \<Longrightarrow> quiet sv sv' \<and>
       (\<forall>i. upd = Some i \<longrightarrow> (\<exists>i. ent (sv_store sv') rid = Some (i, StatusInvalid)))"
proof (goal_cases)
  case 1
  obtain res t where a: "so_AllocateIdx S rid (sv_store sv) = (res, t)" by fastforce
  have "sane t \<and> still_revoked (ent (sv_store sv)) (ent t) \<and> stays_placed (ent (sv_store sv)) (ent t)"
  proof (cases "ent (sv_store sv) rid")
    case None
    from alloc_new [OF assms(2) 1(1) None a] None show ?thesis by (auto simp: still_revoked_def stays_placed_def)
  next
    case (Some x)
    then show ?thesis using alloc_old [OF assms(2) _ a] by (cases x) auto
  qed
  with 1 alloc_frame [OF a] assms show ?case by (auto simp: quiet_def on_store_def a)
next
  case 2
  obtain res t where a: "so_FindByRecordID S rid (sv_store sv) = (res, t)" by fastforce
  with 2 lookup [OF assms(2) a] lookup_frame [OF a] assms show ?case by (auto simp: quiet_def on_store_def)
next
  case 3
  obtain res t where a: "so_SetStatus S rid StatusInvalid (sv_store sv) = (res, t)" by fastforce
  with 3 set_result [OF assms(2) a] set_frame [OF a] assms show ?case
    by (auto simp: quiet_def on_store_def still_revoked_def stays_placed_def)
qed

lemma quiet_record_calls:
  assumes "sound (sv_store sv)" and "sane (sv_store sv)" and "se_records E = R"
  shows "call_Create E ct cd st sr sv = (rc, sv') \<Longrightarrow> quiet sv sv'"
    and "on_store (ro_FindByID R rid) sv = (hit, sv') \<Longrightarrow> quiet sv sv'"
    and "service_FindByIssuerState E st sv = (hit, sv') \<Longrightarrow> quiet sv sv'"
    and "on_store (ro_FindAll R off lim f ord) sv = (page, sv') \<Longrightarrow> quiet sv sv'"
    and "quiet sv (on_store_world (ro_UpdateStatus R rid st) sv)"
    and "quiet sv (on_store_world (ro_UpdateIssuerState R rid st) sv)"
proof (goal_cases)
  case 1
  obtain r t w where a: "ro_Create R ct cd st sr (sv_store sv) (sv_world sv) = (r, t, w)" by (metis surj_pair)
  with 1 create [OF assms(1) a] create_frame [OF a] assms show ?case by (auto simp: quiet_def call_Create_def)
next
  case 2
  obtain r t where a: "ro_FindByID R rid (sv_store sv) = (r, t)" by fastforce
  with 2 find [OF assms(1) a] find_frame [OF a] assms show ?case by (auto simp: quiet_def on_store_def)
next
  case 3
  obtain r t where a: "ro_FindByIssuerState R st (sv_store sv) = (r, t)" by fastforce
  with 3 find_issuer_state [OF assms(1) a] find_issuer_state_frame [OF a] assms show ?case
    by (auto simp: quiet_def on_store_def service_FindByIssuerState_def)
next
  case 4
  obtain r t where a: "ro_FindAll R off lim f ord (sv_store sv) = (r, t)" by fastforce
  with 4 find_all [OF assms(1) a] find_all_frame [OF a] assms show ?case by (auto simp: quiet_def on_store_def)
next
  case 5
  obtain t w where a: "ro_UpdateStatus R rid st (sv_store sv) (sv_world sv) = (t, w)" by fastforce
  with update_status [OF assms(1) a] update_status_frame [OF a] assms show ?case
    by (auto simp: quiet_def on_store_world_def)
next
  case 6
  obtain t w where a: "ro_UpdateIssuerState R rid st (sv_store sv) (sv_world sv) = (t, w)" by fastforce
  with update_issuer_state [OF assms(1) a] update_issuer_state_frame [OF a] assms show ?case
    by (auto simp: quiet_def on_store_world_def)
qed

lemma quiet_revocable:
  assumes "sound (sv_store sv)" and "sane (sv_store sv)" and env: "se_records E = R" "se_status E = S"
    and "revocable E rid sv = (res, sv')"
  shows "quiet sv sv'"
proof -
  obtain found s1 where f: "on_store (ro_FindByID R rid) sv = (found, s1)" by fastforce
  note q1 = quiet_record_calls(2) [OF assms(1,2) env(1) f]
  obtain known s2 where k: "on_store (so_FindByRecordID S rid) s1 = (known, s2)" by fastforce
  have "quiet s1 s2" using quiet_status_calls(2) [OF _ _ k] q1 by (simp add: quiet_def)
  with q1 have q2: "quiet sv s2" by (auto simp: quiet_def still_revoked_def elim: stays_placed_trans)
  have "sv' = s1 \<or> sv' = s2"
    using assms(5) by (cases found; cases known) (auto simp: revocable_def env f k Let_def fail_if_def split: if_splits)
  with q1 q2 show ?thesis by auto
qed

lemma status_step_inv:
  assumes "status_step E y z" and env: "se_records E = R" "se_status E = S" "iterates (se_entry_order E)" "zlib_ok (se_zlib E)"
    and inv: "sound (sv_store (sy_service y))" "sane (sv_store (sy_service y))"
      "status_inv E (ent (sv_store (sy_service y))) y"
    and b: "room (sv_store (sy_service y))" "fits (ent (sv_store (sy_service y)))"
  shows "sound (sv_store (sy_service z)) \<and> sane (sv_store (sy_service z)) \<and>
    status_inv E (ent (sv_store (sy_service z))) z"
proof -
  have quiet: "sound (sv_store sv) \<and> sane (sv_store sv) \<and> status_inv E (ent (sv_store sv)) (y\<lparr>sy_service := sv\<rparr>)"
    if "quiet (sy_service y) sv" for sv
    using that status_inv_store [OF inv(3)] by (simp add: quiet_def)
  note calls = quiet_status_calls [OF inv(1,2)] quiet_record_calls [OF inv(1,2) env(1)]
  have hit_ok: "quiet (sy_service y) sv" if "cached_token (sy_service y) = (r, sv)" for r sv
    using cached_token_state [of "sy_service y"] sessions_untouched(1,2) [of "sy_service y"] that inv by (simp add: quiet_def)
  have load_ok: "quiet (sy_service y) sv" if "cached_token (sy_service y) = (None, sv1)" "load_entries E sv1 = (r, sv)" for r sv sv1
    using hit_ok [OF that(1)] load_entries_state [OF env(2), of sv1] sessions_untouched(3,4) [of E sv1] that by (simp add: quiet_def)
  from assms(1) show ?thesis
  proof cases
    case (hit tok sv)
    have "tok = sv_cacheToken (sy_service y)" "tok \<noteq> []"
      using cached_token_Some [of "sy_service y" tok] hit(3) by auto
    then have "tells_revoked E (ent (sv_store (sy_service y))) tok (sy_revoked y)"
      using inv(3) by (simp add: status_inv_def)
    moreover have "ent (sv_store sv) = ent (sv_store (sy_service y))"
      using cached_token_state(1) [of "sy_service y"] hit by simp
    ultimately show ?thesis
      using quiet [OF hit_ok [OF hit(3)]] status_inv_answer [of E "ent (sv_store sv)" "y\<lparr>sy_service := sv\<rparr>" tok]
      by (simp add: hit answer_def)
  next
    case (read sv1 m sv)
    have same: "sane (sv_store sv1)" "ent (sv_store sv1) = ent (sv_store (sy_service y))"
      using cached_token_state(1) [of "sy_service y"] read(3) inv(2) by simp_all
    note m = load_entries_Ok [OF env(2) read(4) same(1), unfolded same(2), OF b(2)]
    have "ent (sv_store sv) = ent (sv_store (sy_service y))"
      using load_entries_state(2) [OF env(2) same(1)] read(4) same(2) by simp
    moreover have "\<forall>r \<in> sy_revoked y. \<exists>i. ent (sv_store (sy_service y)) r = Some (i, StatusInvalid) \<and>
        gm_get m i = Some StatusInvalid"
    proof
      fix r assume "r \<in> sy_revoked y"
      then obtain i where "ent (sv_store (sy_service y)) r = Some (i, StatusInvalid)"
        using status_inv_revoked [OF inv(3)] by blast
      with m(2) [of i StatusInvalid] show "\<exists>i. ent (sv_store (sy_service y)) r = Some (i, StatusInvalid) \<and>
        gm_get m i = Some StatusInvalid" by blast
    qed
    ultimately show ?thesis
      using quiet [OF load_ok [OF read(3,4)]] status_inv_lock [of E "ent (sv_store sv)" "y\<lparr>sy_service := sv\<rparr>" m] m(1)
      by (simp add: read)
  next
    case (refuse sv1 e sv)
    show ?thesis using quiet [OF load_ok [OF refuse(3,4)]] by (simp add: refuse)
  next
    case (sign m tok sv)
    have st: "sv_store sv = sv_store (sy_service y)" and tok: "sv_cacheToken sv = tok"
      using sign_entries_state(1) [of E m "sy_service y"] sign_entries_state(2) [OF sign(3)] sign(3) by simp_all
    have m: "small_list m" using inv(3) sign(2) by (simp add: status_inv_def)
    have "tells_revoked E (ent (sv_store (sy_service y))) tok (sy_revoked y)"
      unfolding tells_revoked_def
    proof
      fix r assume "r \<in> sy_revoked y"
      then obtain i where i: "ent (sv_store (sy_service y)) r = Some (i, StatusInvalid)" "gm_get m i = Some StatusInvalid"
        using inv(3) sign(2) by (auto simp: status_inv_def)
      have "StatusInvalid AND 3 = StatusInvalid" by (simp add: StatusInvalid_def)
      with sign_entries_Ok [OF sign(3) m env(3,4) i(2)] i(1)
      show "\<exists>i. ent (sv_store (sy_service y)) r = Some (i, StatusInvalid) \<and>
          published (se_out E) (se_zlib E) (se_issuerKey E) (status_uri E) tok i StatusInvalid" by auto
    qed
    then show ?thesis
      using inv status_inv_answer [OF status_inv_cached [OF status_inv_unlock [OF inv(3)], of sv], of tok]
      by (simp add: sign st tok answer_def)
  next
    case (abort m e sv)
    have "sv_store sv = sv_store (sy_service y)" "sv_cacheToken sv = sv_cacheToken (sy_service y)"
      using sign_entries_state(1,3) [of E m "sy_service y"] abort(3) by simp_all
    then show ?thesis
      using inv status_inv_cached [OF status_inv_unlock [OF inv(3)], of sv] by (simp add: abort)
  next
    case (check rid res sv)
    show ?thesis using quiet [OF quiet_revocable [OF inv(1,2) env(1,2) check(2)]] by (simp add: check)
  next
    case (mark rid sv)
    obtain i where "on_store (so_SetStatus S rid StatusInvalid) (sy_service y) = (Some i, sv)"
      using mark(2) by (cases "on_store (so_SetStatus S rid StatusInvalid) (sy_service y)")
        (auto simp: mark_invalid_def env(2) Let_def st_then_Ok_iff of_option_Ok_iff)
    from calls(3) [OF this] have q: "quiet (sy_service y) sv"
      and e: "\<exists>i. ent (sv_store sv) rid = Some (i, StatusInvalid)" by auto
    from quiet [OF q] e show ?thesis by (simp add: mark status_inv_def)
  next
    case (mark_fail rid e sv)
    obtain upd where "on_store (so_SetStatus S rid StatusInvalid) (sy_service y) = (upd, sv)"
      using mark_fail(2) by (cases "on_store (so_SetStatus S rid StatusInvalid) (sy_service y)")
        (auto simp: mark_invalid_def env(2) Let_def st_then_Err_iff of_option_Err_iff)
    from quiet [OF conjunct1 [OF calls(3) [OF this]]] show ?thesis by (simp add: mark_fail)
  next
    case (clear rid)
    show ?thesis using inv status_inv_clear [OF inv(3) clear(2,3)] by (simp add: clear drop_cache_def)
  next
    case (allocate rid idx sv)
    show ?thesis using quiet [OF calls(1) [OF b(1) allocate(2) [unfolded env]]] by (simp add: allocate)
  next
    case (create ct cd st sr rc sv)
    show ?thesis using quiet [OF calls(4) [OF create(2)]] by (simp add: create)
  next
    case (find rid hit sv)
    show ?thesis using quiet [OF calls(5) [OF find(2) [unfolded env]]] by (simp add: find)
  next
    case (find_state st hit sv)
    show ?thesis using quiet [OF calls(6) [OF find_state(2)]] by (simp add: find_state)
  next
    case (list off lim f ord page sv)
    show ?thesis using quiet [OF calls(7) [OF list(2) [unfolded env]]] by (simp add: list)
  next
    case (look_up rid known sv)
    show ?thesis using quiet [OF calls(2) [OF look_up(2) [unfolded env]]] by (simp add: look_up)
  next
    case (update rid st)
    show ?thesis using quiet [OF calls(8) [of rid st]] by (simp add: update env)
  next
    case (update_state rid st)
    show ?thesis using quiet [OF calls(9) [of rid st]] by (simp add: update_state env)
  qed
qed

text \<open>Every state a run reaches satisfies the invariant.\<close>

lemma status_run_inv:
  assumes "status_run E B x y" and "x = idle_system sv" and "\<And>s. B s \<Longrightarrow> room s \<and> fits (ent s)"
    and env: "se_records E = R" "se_status E = S" "iterates (se_entry_order E)" "zlib_ok (se_zlib E)"
    and inv: "sound (sv_store sv)" "sane (sv_store sv)"
  shows "sound (sv_store (sy_service y)) \<and> sane (sv_store (sy_service y)) \<and>
    status_inv E (ent (sv_store (sy_service y))) y"
  using assms(1,2)
proof (induction rule: status_run.induct)
  case (start y)
  then show ?case using inv by (simp add: status_inv_def idle_system_def tells_revoked_def)
next
  case (more x y z)
  then show ?case using status_step_inv [OF more.hyps(3) env] assms(3) by blast
qed

lemma revoked_stay_published:
  assumes "status_run E (\<lambda>s. room s \<and> fits (ent s)) (idle_system sv) y"
    and "se_records E = R" "se_status E = S" "iterates (se_entry_order E)" "zlib_ok (se_zlib E)"
    and "sound (sv_store sv)" "sane (sv_store sv)"
    and "(tok, rs) \<in> set (sy_answers y)" and "r \<in> rs"
  shows "\<exists>i. ent (sv_store (sy_service y)) r = Some (i, StatusInvalid) \<and>
    published (se_out E) (se_zlib E) (se_issuerKey E) (status_uri E) tok i StatusInvalid"
  using status_run_inv [OF assms(1) refl _ assms(2-7)] assms(8,9)
  by (fastforce simp: status_inv_def tells_revoked_def)

end
section \<open>The property of the interleaved system\<close>

text \<open>C2 (safety): revocation takes effect at once. However status list requests, revocations and all
  other requests interleave, on either store, every status list token handed out (cached or newly
  signed) shows INVALID at the index of every credential whose revocation had returned by then, and
  the index is the record's to this day. Assumed of the run is only that the list has fewer than
  \<open>2 ^ 61\<close> entries.\<close>

theorem revocations_are_published:
  assumes "store_params_ok sp" and "se_records E = any_records sp" and "se_status E = any_status sp"
    and "iterates (se_entry_order E)" and "zlib_ok (se_zlib E)"
    and "any_sound (sv_store sv)" and "any_sane (sv_store sv)"
    and "status_run E (\<lambda>s. any_room s \<and> fits (any_entries s)) (idle_system sv) y"
    and "(tok, rs) \<in> set (sy_answers y)" and "r \<in> rs"
  shows "\<exists>i. any_entries (sv_store (sy_service y)) r = Some (i, StatusInvalid) \<and>
    published (se_out E) (se_zlib E) (se_issuerKey E) (status_uri E) tok i StatusInvalid"
  by (rule issuance_store.revoked_stay_published [OF any_issuance_store [OF assms(1)] assms(8,2-7,9,10)])

text \<open>A run for the witness: the credential \<open>r\<close> is revoked and the list is fetched afterwards.\<close>

lemma demo_any_ops:
  "se_records demo_env = any_records plain_store_params" "se_status demo_env = any_status plain_store_params"
  "se_zlib demo_env = \<lparr>deflate_best = (\<lambda>b. b), inflate = Some\<rparr>" "se_entry_order demo_env = (\<lambda>xs. xs)"
  "se_out demo_env = plain_jose_out" "se_issuerKey demo_env = plain_key"
  by (simp_all add: demo_env_def demo_env_on_def)

lemma demo_run:
  "\<exists>y tok. status_run demo_env (\<lambda>s. any_room s \<and> fits (any_entries s)) (idle_system issued_service) y \<and>
     (tok, {''r''}) \<in> set (sy_answers y)"
proof -
  let ?B = "\<lambda>s. any_room s \<and> fits (any_entries s)"
  let ?mem = "NewStore\<lparr>mem_records := [(''r'', demo_record\<lparr>rec_Status := ''credential_issued''\<rparr>)],
      statusNextIdx := 1, statusByIdx := [(0, StatusInvalid)], statusByRecID := [(''r'', 0)]\<rparr>"
  define sv1 where "sv1 = issued_service\<lparr>sv_store := Inl ?mem\<rparr>"
  have m: "mark_invalid demo_env ''r'' issued_service = (Ok (), sv1)"
    by (simp add: mark_invalid_def on_store_def demo_any_ops any_status_def either_status_def memory_status_def
        issued_service_def NewService_def mem_SetStatus_def sv1_def gm_put_def Let_def)
  have cache: "sv_cacheToken sv1 = []" by (simp add: sv1_def issued_service_def NewService_def)
  have B: "?B (sv_store issued_service)" "?B (sv_store sv1)"
    using issued_invariants
    by (auto simp: sv1_def any_room_def mem_room_def NewStore_def fits_def any_entries_def mem_entries_def split: if_splits)
  have l: "load_entries demo_env sv1 = (Ok [(0, StatusInvalid)], sv1)"
    by (simp add: load_entries_def on_store_def demo_any_ops any_status_def either_status_def memory_status_def
        sv1_def issued_service_def NewService_def mem_AllEntries_def gm_put_def)
  obtain tok sv2 where s: "sign_entries demo_env [(0, StatusInvalid)] sv1 = (Ok tok, sv2)" "sv_store sv2 = sv_store sv1"
  proof -
    have "\<exists>tok. fst (sign_entries demo_env [(0, StatusInvalid)] sv1) = Ok tok"
      by (simp add: sign_entries_def on_world_def demo_any_ops Build_status_list_def size_of_entries_def
          packBitstring_def set_slot_def Bits_def in_i64_def go_div_def go_mod_def jwt_headers_def plain_jose_out_def
          plain_key_def Let_def split_beta)
    then show thesis using that sign_entries_state(1) by (metis prod.collapse)
  qed
  let ?y0 = "idle_system issued_service"
  let ?y1 = "?y0\<lparr>sy_service := sv1, sy_marked := insert ''r'' (sy_marked ?y0)\<rparr>"
  let ?y2 = "?y1\<lparr>sy_service := drop_cache (sy_service ?y1), sy_revoked := insert ''r'' (sy_revoked ?y1)\<rparr>"
  let ?y3 = "?y2\<lparr>sy_service := sv1, sy_lock := Some [(0, StatusInvalid)]\<rparr>"
  let ?y4 = "answer tok (?y3\<lparr>sy_lock := None, sy_service := sv2\<rparr>)"
  have drop: "drop_cache sv1 = sv1" using cache by (simp add: drop_cache_def)
  have "status_step demo_env ?y0 ?y1" using m by (intro status_step.mark) (simp add: idle_system_def)
  then have r1: "status_run demo_env ?B ?y0 ?y1"
    using B by (intro status_run.more [OF status_run.start]) (simp_all add: idle_system_def)
  have "status_step demo_env ?y1 ?y2" by (intro status_step.clear) (simp_all add: idle_system_def)
  with r1 have r2: "status_run demo_env ?B ?y0 ?y2" using B by (intro status_run.more [OF r1]) simp_all
  have "status_step demo_env ?y2 ?y3"
    by (rule status_step.read [where ?sv1.0 = sv1]) (simp_all add: idle_system_def drop cached_token_def cache l)
  with r2 have r3: "status_run demo_env ?B ?y0 ?y3" using B by (intro status_run.more [OF r2]) (simp_all add: drop)
  have "status_step demo_env ?y3 ?y4" by (rule status_step.sign [where m = "[(0, StatusInvalid)]"]) (simp_all add: s)
  with r3 have "status_run demo_env ?B ?y0 ?y4" using B by (intro status_run.more [OF r3]) simp_all
  moreover have "(tok, {''r''}) \<in> set (sy_answers ?y4)" by (simp add: answer_def idle_system_def)
  ultimately show ?thesis by blast
qed

theorem revocations_are_published_witness:
  "\<exists>(y :: (any_store, string) system) tok i. (tok, {''r''}) \<in> set (sy_answers y) \<and>
     any_entries (sv_store (sy_service y)) ''r'' = Some (i, StatusInvalid) \<and>
     published (se_out demo_env) (se_zlib demo_env) (se_issuerKey demo_env) (status_uri demo_env) tok i StatusInvalid"
proof -
  obtain y tok where run: "status_run demo_env (\<lambda>s. any_room s \<and> fits (any_entries s)) (idle_system issued_service) y"
    and a: "(tok, {''r''}) \<in> set (sy_answers y)" using demo_run by blast
  have env: "iterates (se_entry_order demo_env)" "zlib_ok (se_zlib demo_env)"
    by (simp_all add: demo_any_ops zlib_ok_def)
  have "''r'' \<in> {''r''}" by simp
  from revocations_are_published [OF plain_store_params_ok demo_any_ops(1,2) env issued_invariants(1,2) run a this]
  a show ?thesis by blast
qed

section \<open>Failures of the handlers\<close>

lemma RevokeCredential_no_panic: "fst (RevokeCredential E rid sv) \<noteq> Panic p"
  unfolding RevokeCredential_def revocable_def mark_invalid_def Let_def split_beta
  by (intro st_then_no_panic) simp_all

context issuance_store
begin

lemma status_list_no_panic:
  assumes "se_status E = S" and "sane (sv_store sv)" and "fits (ent (sv_store sv))" and "iterates (se_entry_order E)"
  shows "fst (GetStatusListToken E lid sv) \<noteq> Panic p"
proof -
  have load: "fst (load_entries E t) \<noteq> Panic p" if "sv_store t = sv_store sv" for t
  proof -
    obtain all s' where a: "so_AllEntries S (sv_store sv) = (all, s')" by fastforce
    then show ?thesis
      using entries [OF assms(2) a]
      by (auto simp: load_entries_def on_store_def assms(1) that Let_def split_beta intro!: map_err_no_panic)
  qed
  have sign: "fst (sign_entries E m t) \<noteq> Panic p" if "small_list m" for m t
  proof -
    have "gm_wf m" using that by (simp add: small_list_def)
    note built = Build_status_list_no_panic [OF assms(4) this small_list_size(1,2) [OF that assms(4)]]
    show ?thesis
      unfolding sign_entries_def on_world_def Let_def split_beta
      by (intro st_then_no_panic, simp_all only: fst_conv outcome.distinct not_False_eq_True)
        (rule map_err_no_panic, rule built)
  qed
  obtain hit t where c: "cached_token sv = (hit, t)" by fastforce
  then have t: "sv_store t = sv_store sv" using cached_token_state(1) [of sv] by simp
  have list: "small_list m" if "load_entries E t = (Ok m, u)" for m u
    using load_entries_Ok(1) [OF assms(1) that] assms(2,3) t by simp
  have "fst (st_then (load_entries E t) (sign_entries E)) \<noteq> Panic p"
    by (intro st_then_no_panic load [OF t] sign) (erule list)
  then show ?thesis
    unfolding GetStatusListToken_def by (intro st_then_no_panic) (auto simp: c fail_if_Ok_iff split: option.split)
qed

end

text \<open>\<open>refuses_with S r\<close>: the outcome is a value or an OAuth error with a status in \<open>S\<close>, and not a panic.\<close>

definition refuses_with :: "int set \<Rightarrow> 'a result \<Rightarrow> bool" where
  "refuses_with X r = (case r of Ok _ \<Rightarrow> True | Err e \<Rightarrow> has_status X e | Panic _ \<Rightarrow> False)"

lemma refuses_withI: "fails_with X r \<Longrightarrow> (\<And>p. r \<noteq> Panic p) \<Longrightarrow> refuses_with X r"
  by (cases r) (auto simp: refuses_with_def)

text \<open>C17 (error): on either store, whatever the database, the libraries, the authorization server and the
  caller do, each of the five handlers of the service returns a value or fails with an OAuth error
  object: triggering, revoking and the status list with 400, the nonce and credential endpoints with
  400, 401 or 503. No handler panics or hands a bare error to the HTTP layer, which would answer 500.
  This rests on the signer's integers fitting 32 bytes (otherwise an mdoc issuance panics, see
  \<open>oversized_signature_panics\<close> in \<open>Mdoc\<close>) and on the list having fewer than \<open>2 ^ 61\<close> entries.\<close>

theorem service_errors:
  assumes "store_params_ok sp" and "se_records E = any_records sp" and "se_status E = any_status sp"
    and "iterates (se_entry_order E)" and "signer_fits E" and "fits (any_entries (sv_store sv))"
    and "any_sound (sv_store sv)" and "any_sane (sv_store sv)" and "any_room (sv_store sv)"
  shows "refuses_with {400} (fst (TriggerIssuance E req sv)) \<and>
   refuses_with {400, 401, 503} (fst (service_GenerateNonce E A tok dp sv)) \<and>
   refuses_with {400, 401, 503} (fst (IssueCredential E A tok dp body sv)) \<and>
   refuses_with {400} (fst (GetStatusListToken E lid sv)) \<and>
   refuses_with {400} (fst (RevokeCredential E rid sv))"
proof (intro conjI refuses_withI)
  note store = any_issuance_store [OF assms(1)]
  show "fst (IssueCredential E A tok dp body sv) \<noteq> Panic p" for p
    by (rule issuance_store.issue_no_panic [OF store assms(2,3,7-9,5)])
  show "fst (GetStatusListToken E lid sv) \<noteq> Panic p" for p
    by (rule issuance_store.status_list_no_panic [OF store assms(3,8,6,4)])
qed (simp_all add: TriggerIssuance_total service_GenerateNonce_total IssueCredential_fails_with
      GetStatusListToken_fails_with RevokeCredential_fails_with RevokeCredential_no_panic)

theorem service_errors_witness:
  "refuses_with {400, 401, 503} (fst (IssueCredential demo_env sample_world ''t'' ''d'' demo_body issued_service)) \<and>
   refuses_with {400} (fst (GetStatusListToken demo_env ''pid'' issued_service)) \<and>
   refuses_with {400} (fst (RevokeCredential demo_env ''r'' issued_service))"
proof -
  have "parseECDSADER E [0x30, 6, 2, 1, 1, 2, 1, 2] = Ok (1, 2)" for E
    using parse_der_sig [of 1 2 E] unfolding der_sig_1_2 by simp
  then have "signer_fits demo_env"
    by (auto simp: signer_fits_def fits_p256_def demo_any_ops plain_jose_out_def)
  moreover have "iterates (se_entry_order demo_env)" by (simp add: demo_any_ops)
  ultimately show ?thesis
    using service_errors [OF plain_store_params_ok demo_any_ops(1,2) _ _ issued_invariants(4,1-3)] by blast
qed

end
