(* ===== verification/Issue_Threads.thy ===== *)
theory Issue_Threads
  imports Service_Status
begin

text \<open>
  The credential endpoint as concurrent requests run it. \<open>Service\<close> has \<open>IssueCredential\<close> as one step;
  here a request stops after every access to shared state, and any number of requests, with the nonce
  endpoint, the handlers around the status list and whatever else the process does in between,
  interleave at these points. A request that runs alone is \<open>IssueCredential\<close>.
\<close>

section \<open>The stages of one request\<close>

text \<open>A stage holds the local variables of \<open>IssueCredential\<close> that are in scope there.\<close>

datatype 'k stage =
    Arrived
  | Verified token_claims
  | Bound token_claims
  | Proved token_claims credential_request 'k
  | Fresh token_claims credential_request 'k
  | Found token_claims credential_request 'k issuance_record
  | Indexed token_claims credential_request 'k issuance_record int
  | Built token_claims credential_request 'k issuance_record int string
  | Marked token_claims credential_request 'k issuance_record int string
  | Returned "credential_response result"

record call =
  cl_token :: string
  cl_dpop :: string
  cl_body :: string

text \<open>Going on to the next stage, or returning the error.\<close>

fun advance :: "'a result \<times> 's \<Rightarrow> ('a \<Rightarrow> 'k stage) \<Rightarrow> 'k stage \<times> 's" where
  "advance (Ok x, s) f = (f x, s)"
| "advance (Err e, s) f = (Returned (Err e), s)"
| "advance (Panic p, s) f = (Returned (Panic p), s)"

definition verify_token ::
  "('k, 'ks, 'sg, 's) service_env \<Rightarrow> as_world \<Rightarrow> string \<Rightarrow> ('s, 'ks) service \<Rightarrow> token_claims result \<times> ('s, 'ks) service" where
  "verify_token E A tok sv =
     (let (verdict, v) = Verify (se_float E) (se_jose E) A tok (sv_tokens sv) in (verdict, sv\<lparr>sv_tokens := v\<rparr>))"

definition check_dpop ::
  "('k, 'ks, 'sg, 's) service_env \<Rightarrow> string \<Rightarrow> string \<Rightarrow> string \<Rightarrow> string \<Rightarrow> token_claims \<Rightarrow> ('s, 'ks) service \<Rightarrow>
   unit result \<times> ('s, 'ks) service" where
  "check_dpop E tok dp endpoint mismatch claims sv =
     (let (now, sv) = on_world time_Now sv;
          (key, jtis) = ValidateDPoPProof (se_url E) (se_jose E) (se_jti_order E) now dp ''POST''
            (se_baseURL E @ endpoint) (ComputeATH tok) (sv_jtis sv)
      in st_then (key, sv\<lparr>sv_jtis := jtis\<rparr>) (\<lambda>dpopKey sv.
         (requireBoundThumbprint (se_jose E) (c_JKT claims) dpopKey mismatch, sv)))"

definition check_proof ::
  "('k, 'ks, 'sg, 's) service_env \<Rightarrow> string \<Rightarrow> ('s, 'ks) service \<Rightarrow>
   (credential_request \<times> 'k) result \<times> ('s, 'ks) service" where
  "check_proof E body sv =
     st_then (read_request E body, sv) (\<lambda>req sv.
     let proofJWT = ExtractProofJWT req in
     st_then (fail_if (proofJWT = []) (BadRequest InvalidProof ''proof_type must be jwt''), sv) (\<lambda>_ sv.
     let (now, sv) = on_world time_Now sv in
     st_then (ValidateProofJWT (se_jose E) now proofJWT (se_baseURL E), sv) (\<lambda>walletKey sv.
     (Ok (req, walletKey), sv))))"

definition find_data ::
  "('k, 'ks, 'sg, 's) service_env \<Rightarrow> string \<Rightarrow> ('s, 'ks) service \<Rightarrow> issuance_record result \<times> ('s, 'ks) service" where
  "find_data E rid sv =
     st_then (fail_if (rid = []) (BadRequest InvalidRequest no_record_message), sv) (\<lambda>_ sv.
     let (found, sv) = on_store (ro_FindByID (se_records E) rid) sv in
     st_then (of_option (BadRequest InvalidRequest no_data_message) found, sv) (\<lambda>rc sv.
     st_then (fail_if (CredentialData rc = [] \<or> CredentialData rc = ''{}'')
       (BadRequest InvalidRequest no_data_message), sv) (\<lambda>_ sv. (Ok rc, sv))))"

definition take_index ::
  "('k, 'ks, 'sg, 's) service_env \<Rightarrow> string \<Rightarrow> ('s, 'ks) service \<Rightarrow> int result \<times> ('s, 'ks) service" where
  "take_index E rid sv =
     (let (allocated, sv) = on_store (so_AllocateIdx (se_status E) rid) sv
      in (map_err (\<lambda>e. BadRequest InvalidRequest (''Failed to allocate status list index: '' @ error_text e)) allocated, sv))"

fun next_stage ::
  "('k, 'ks, 'sg, 's) service_env \<Rightarrow> as_world \<Rightarrow> call \<Rightarrow> 'k stage \<Rightarrow> ('s, 'ks) service \<Rightarrow>
   'k stage \<times> ('s, 'ks) service" where
  "next_stage E A q Arrived sv = advance (verify_token E A (cl_token q) sv) Verified"
| "next_stage E A q (Verified c) sv =
     advance (check_dpop E (cl_token q) (cl_dpop q) ''/oid4vci/v1/credential'' ''DPoP key mismatch'' c sv) (\<lambda>_. Bound c)"
| "next_stage E A q (Bound c) sv = advance (check_proof E (cl_body q) sv) (\<lambda>p. Proved c (fst p) (snd p))"
| "next_stage E A q (Proved c req k) sv =
     advance (validateProofNonce E (ExtractProofJWT req) (c_CNonce c) sv) (\<lambda>_. Fresh c req k)"
| "next_stage E A q (Fresh c req k) sv = advance (find_data E (c_IssuanceRecordID c) sv) (Found c req k)"
| "next_stage E A q (Found c req k rc) sv = advance (take_index E (c_IssuanceRecordID c) sv) (Indexed c req k rc)"
| "next_stage E A q (Indexed c req k rc i) sv =
     advance (on_world (build_credential E (rq_configuration_id req) k rc i) sv) (Built c req k rc i)"
| "next_stage E A q (Built c req k rc i cred) sv =
     (Marked c req k rc i cred,
      on_store_world (ro_UpdateStatus (se_records E) (c_IssuanceRecordID c) ''credential_issued'') sv)"
| "next_stage E A q (Marked c req k rc i cred) sv =
     (Returned (Ok (SuccessResponse cred)), sv\<lparr>sv_sessions := InvalidateNonce (c_CNonce c) (sv_sessions sv)\<rparr>)"
| "next_stage E A q (Returned r) sv = (Returned r, sv)"

fun run_alone ::
  "('k, 'ks, 'sg, 's) service_env \<Rightarrow> as_world \<Rightarrow> call \<Rightarrow> nat \<Rightarrow> 'k stage \<times> ('s, 'ks) service \<Rightarrow>
   'k stage \<times> ('s, 'ks) service" where
  "run_alone E A q 0 s = s"
| "run_alone E A q (Suc n) (st, sv) = run_alone E A q n (next_stage E A q st sv)"

section \<open>Alone\<close>

lemma run_returned [simp]: "run_alone E A q n (Returned r, sv) = (Returned r, sv)"
  by (induction n) simp_all

definition returns :: "'k stage \<times> 's \<Rightarrow> credential_response result \<times> 's \<Rightarrow> bool" where
  "returns s m \<longleftrightarrow> s = (Returned (fst m), snd m)"

lemma returns_step:
  assumes "next_stage E A q st sv = advance m f"
    and "\<And>x s. returns (run_alone E A q n (f x, s)) (g x s)"
  shows "returns (run_alone E A q (Suc n) (st, sv)) (st_then m g)"
  using assms by (cases m; cases "fst m") (auto simp: returns_def)

lemma st_then_assoc: "st_then (st_then m f) g = st_then m (\<lambda>x s. st_then (f x s) g)"
  by (cases m; cases "fst m") auto

lemma authorize_staged:
  "authorize E A tok dp ep msg sv =
   st_then (verify_token E A tok sv) (\<lambda>c sv. st_then (check_dpop E tok dp ep msg c sv) (\<lambda>_ sv. (Ok c, sv)))"
  by (simp add: authorize_def verify_token_def check_dpop_def Let_def split_beta st_then_assoc)

lemma issue_staged:
  "IssueCredential E A tok dp body sv0 =
     st_then (verify_token E A tok sv0) (\<lambda>c sv.
     st_then (check_dpop E tok dp ''/oid4vci/v1/credential'' ''DPoP key mismatch'' c sv) (\<lambda>_ sv.
     st_then (check_proof E body sv) (\<lambda>p sv.
     st_then (validateProofNonce E (ExtractProofJWT (fst p)) (c_CNonce c) sv) (\<lambda>_ sv.
     st_then (find_data E (c_IssuanceRecordID c) sv) (\<lambda>rc sv.
     st_then (take_index E (c_IssuanceRecordID c) sv) (\<lambda>i sv.
     st_then (on_world (build_credential E (rq_configuration_id (fst p)) (snd p) rc i) sv) (\<lambda>cred sv.
     let sv = on_store_world (ro_UpdateStatus (se_records E) (c_IssuanceRecordID c) ''credential_issued'') sv
     in (Ok (SuccessResponse cred), sv\<lparr>sv_sessions := InvalidateNonce (c_CNonce c) (sv_sessions sv)\<rparr>))))))))"
  by (simp add: IssueCredential_def authorize_staged check_proof_def find_data_def take_index_def st_then_assoc Let_def split_beta)

text \<open>A request that nobody interrupts runs through its nine stages to a response, and
  response and state are those of \<open>IssueCredential\<close>, whatever the request, the store and the libraries.\<close>

theorem alone_is_IssueCredential:
  "run_alone E A q 9 (Arrived, sv) =
   (Returned (fst (IssueCredential E A (cl_token q) (cl_dpop q) (cl_body q) sv)),
    snd (IssueCredential E A (cl_token q) (cl_dpop q) (cl_body q) sv))"
proof -
  have "returns (run_alone E A q (Suc (Suc (Suc (Suc (Suc (Suc (Suc (Suc (Suc 0))))))))) (Arrived, sv))
      (IssueCredential E A (cl_token q) (cl_dpop q) (cl_body q) sv)"
    unfolding issue_staged
    by (rule returns_step, rule next_stage.simps)+ (simp add: returns_def Let_def)
  then show ?thesis by (simp add: returns_def eval_nat_numeral)
qed


section \<open>Many requests at once\<close>

text \<open>
  The ledger records what happened and is never read: a nonce registered by the Nonce Endpoint, a
  registered nonce used up by a request, a credential returned by one.
\<close>

datatype 'k entry =
    Registered string
  | Spent nat string
  | Issued nat token_claims credential_request 'k issuance_record int string

fun remarks :: "('k, 'ks, 'sg, 's) service_env \<Rightarrow> nat \<Rightarrow> 'k stage \<Rightarrow> ('s, 'ks) service \<Rightarrow> 'k entry list" where
  "remarks E i (Proved c req k) sv =
     (case ProofNonce (se_jose E) (ExtractProofJWT req) of
        Ok n \<Rightarrow> if n \<noteq> [] \<and> has_nonce (sv_sessions sv) n then [Spent i n] else []
      | _ \<Rightarrow> [])"
| "remarks E i (Marked c req k rc x cred) sv = [Issued i c req k rc x cred]"
| "remarks E i _ sv = []"

record ('k, 's, 'ks) desk =
  dk_service :: "('s, 'ks) service"
  dk_stage :: "nat \<Rightarrow> 'k stage"
  dk_ledger :: "'k entry list"

text \<open>
  \<open>move\<close> takes request \<open>i\<close> one stage further. The rest is what others do in between: the nonce endpoint
  hands out a nonce (\<open>hand_out\<close>) and checks DPoP proofs (\<open>elsewhere\<close>), an issuance is triggered
  (\<open>offer\<close>, and the store calls of \<open>status_step\<close>), the handlers around the status list move, time passes,
  entropy is drawn and the caches of the token verifier change (\<open>outside\<close>).
\<close>

inductive desk_step ::
  "('k, 'ks, 'sg, 's) service_env \<Rightarrow> (nat \<Rightarrow> call) \<Rightarrow> ('k, 's, 'ks) desk \<Rightarrow> ('k, 's, 'ks) desk \<Rightarrow> bool" for E Q where
  move: "next_stage E A (Q i) (dk_stage y i) (dk_service y) = (st, sv) \<Longrightarrow>
    desk_step E Q y (y\<lparr>dk_service := sv, dk_stage := (dk_stage y)(i := st),
      dk_ledger := remarks E i (dk_stage y i) (dk_service y) @ dk_ledger y\<rparr>)"
| hand_out: "desk_step E Q y (y\<lparr>dk_service := dk_service y\<lparr>sv_sessions := RegisterNonce n (sv_sessions (dk_service y))\<rparr>,
    dk_ledger := Registered n # dk_ledger y\<rparr>)"
| elsewhere: "check_dpop E tok dp ep msg c (dk_service y) = (res, sv) \<Longrightarrow> desk_step E Q y (y\<lparr>dk_service := sv\<rparr>)"
| offer: "desk_step E Q y (y\<lparr>dk_service := dk_service y
    \<lparr>sv_sessions := snd (snd (StoreCredentialOffer j r (sv_sessions (dk_service y))))\<rparr>\<rparr>)"
| status: "status_step E x z \<Longrightarrow> sy_service x = dk_service y \<Longrightarrow> desk_step E Q y (y\<lparr>dk_service := sy_service z\<rparr>)"
| outside: "desk_step E Q y (y\<lparr>dk_service := dk_service y\<lparr>sv_tokens := v, sv_world := w\<rparr>\<rparr>)"

inductive desk_run ::
  "('k, 'ks, 'sg, 's) service_env \<Rightarrow> (nat \<Rightarrow> call) \<Rightarrow> (('s, 'ks) service \<Rightarrow> bool) \<Rightarrow>
   ('k, 's, 'ks) desk \<Rightarrow> ('k, 's, 'ks) desk \<Rightarrow> bool" for E Q B where
  opened: "desk_run E Q B y y"
| onward: "desk_run E Q B x y \<Longrightarrow> B (dk_service y) \<Longrightarrow> desk_step E Q y z \<Longrightarrow> desk_run E Q B x z"

definition open_desk :: "('s, 'ks) service \<Rightarrow> ('k, 's, 'ks) desk" where
  "open_desk sv = \<lparr>dk_service = sv, dk_stage = (\<lambda>_. Arrived), dk_ledger = []\<rparr>"

section \<open>What holds at each stage\<close>

lemma advance_eq:
  assumes "advance m f = (st, s)"
  shows "s = snd m" "(\<exists>x. fst m = Ok x \<and> st = f x) \<or> (\<exists>e. st = Returned (Err e)) \<or> (\<exists>p. st = Returned (Panic p))"
  using assms by (cases m; cases "fst m"; auto)+

text \<open>The nonce of the key proof: the token's, or one taken from the store by this very request.\<close>

definition nonce_paid :: "('k, 'ks) jose \<Rightarrow> 'k entry list \<Rightarrow> nat \<Rightarrow> token_claims \<Rightarrow> credential_request \<Rightarrow> bool" where
  "nonce_paid J L i c req \<longleftrightarrow>
     (\<exists>n. ProofNonce J (ExtractProofJWT req) = Ok n \<and> (n = c_CNonce c \<or> Spent i n \<in> set L))"

definition index_held :: "(string \<Rightarrow> (int \<times> byte) option) \<Rightarrow> token_claims \<Rightarrow> int \<Rightarrow> bool" where
  "index_held en c x \<longleftrightarrow> (\<exists>v. en (c_IssuanceRecordID c) = Some (x, v))"

definition made_of ::
  "('k, 'ks, 'sg, 's) service_env \<Rightarrow> credential_request \<Rightarrow> 'k \<Rightarrow> issuance_record \<Rightarrow> int \<Rightarrow> string \<Rightarrow> bool" where
  "made_of E req k rc x cred \<longleftrightarrow> (\<exists>w. fst (build_credential E (rq_configuration_id req) k rc x w) = Ok cred)"

fun stage_ok ::
  "('k, 'ks, 'sg, 's) service_env \<Rightarrow> (string \<Rightarrow> (int \<times> byte) option) \<Rightarrow> 'k entry list \<Rightarrow> nat \<Rightarrow> 'k stage \<Rightarrow> bool" where
  "stage_ok E en L i (Fresh c req k) \<longleftrightarrow> nonce_paid (se_jose E) L i c req"
| "stage_ok E en L i (Found c req k rc) \<longleftrightarrow> nonce_paid (se_jose E) L i c req"
| "stage_ok E en L i (Indexed c req k rc x) \<longleftrightarrow> nonce_paid (se_jose E) L i c req \<and> index_held en c x"
| "stage_ok E en L i (Built c req k rc x cred) \<longleftrightarrow>
     nonce_paid (se_jose E) L i c req \<and> index_held en c x \<and> made_of E req k rc x cred"
| "stage_ok E en L i (Marked c req k rc x cred) \<longleftrightarrow>
     nonce_paid (se_jose E) L i c req \<and> index_held en c x \<and> made_of E req k rc x cred"
| "stage_ok E en L i _ \<longleftrightarrow> True"

definition issued_ok ::
  "('k, 'ks, 'sg, 's) service_env \<Rightarrow> (string \<Rightarrow> (int \<times> byte) option) \<Rightarrow> ('k, 's, 'ks) desk \<Rightarrow> bool" where
  "issued_ok E en y \<longleftrightarrow>
     (\<forall>i. stage_ok E en (dk_ledger y) i (dk_stage y i)) \<and>
     (\<forall>i c req k rc x cred. Issued i c req k rc x cred \<in> set (dk_ledger y) \<longrightarrow>
        dk_stage y i = Returned (Ok (SuccessResponse cred)) \<and> nonce_paid (se_jose E) (dk_ledger y) i c req \<and>
        index_held en c x \<and> made_of E req k rc x cred)"

lemma nonce_paid_mono: "nonce_paid J L i c req \<Longrightarrow> set L \<subseteq> set L' \<Longrightarrow> nonce_paid J L' i c req"
  by (auto simp: nonce_paid_def)

lemma index_held_mono: "index_held en c x \<Longrightarrow> stays_placed en en' \<Longrightarrow> index_held en' c x"
  by (fastforce simp: index_held_def stays_placed_def)

lemma stage_ok_mono: "stage_ok E en L i st \<Longrightarrow> set L \<subseteq> set L' \<Longrightarrow> stays_placed en en' \<Longrightarrow> stage_ok E en' L' i st"
  by (cases st) (auto intro: nonce_paid_mono index_held_mono)

text \<open>Other requests are not disturbed, whatever a request does that keeps the indices.\<close>

lemma issued_ok_move:
  assumes "issued_ok E en y" and "stays_placed en en'" and "stage_ok E en' (ns @ dk_ledger y) i st"
    and "\<And>r. dk_stage y i = Returned r \<Longrightarrow> st = Returned r \<and> ns = []"
    and "\<And>j c req k rc x cred. Issued j c req k rc x cred \<in> set ns \<Longrightarrow> j = i \<and>
      st = Returned (Ok (SuccessResponse cred)) \<and> stage_ok E en' (dk_ledger y) i (Marked c req k rc x cred)"
  shows "issued_ok E en' (y\<lparr>dk_service := sv, dk_stage := (dk_stage y)(i := st), dk_ledger := ns @ dk_ledger y\<rparr>)"
proof -
  let ?L = "ns @ dk_ledger y"
  have "stage_ok E en' ?L j (((dk_stage y)(i := st)) j)" for j
    using assms(1,2,3) stage_ok_mono [of E en "dk_ledger y" j "dk_stage y j" ?L en'] by (simp add: issued_ok_def)
  moreover have "((dk_stage y)(i := st)) j = Returned (Ok (SuccessResponse cred)) \<and> nonce_paid (se_jose E) ?L j c req \<and>
      index_held en' c x \<and> made_of E req k rc x cred" if "Issued j c req k rc x cred \<in> set ?L" for j c req k rc x cred
  proof (cases "Issued j c req k rc x cred \<in> set ns")
    case True
    then show ?thesis using assms(5) [OF True] nonce_paid_mono [of "se_jose E" "dk_ledger y" j c req ?L] by simp
  next
    case False
    with that have "dk_stage y j = Returned (Ok (SuccessResponse cred)) \<and> nonce_paid (se_jose E) (dk_ledger y) j c req \<and>
        index_held en c x \<and> made_of E req k rc x cred"
      using assms(1) unfolding issued_ok_def by auto
    then show ?thesis
      using assms(4) index_held_mono [OF _ assms(2)] nonce_paid_mono [of "se_jose E" "dk_ledger y" j c req ?L] by auto
  qed
  ultimately show ?thesis by (simp add: issued_ok_def)
qed

lemma issued_ok_rest:
  assumes "issued_ok E en y" and "stays_placed en en'" and "L = dk_ledger y \<or> L = Registered n # dk_ledger y"
  shows "issued_ok E en' (y\<lparr>dk_service := sv, dk_ledger := L\<rparr>)"
proof -
  have L: "set (dk_ledger y) \<subseteq> set L" "Issued i c req k rc x cred \<in> set L \<longleftrightarrow> Issued i c req k rc x cred \<in> set (dk_ledger y)"
    for i c req k rc x cred using assms(3) by auto
  show ?thesis
    using assms(1) stage_ok_mono [OF _ L(1) assms(2)] nonce_paid_mono [OF _ L(1)] index_held_mono [OF _ assms(2)]
    unfolding issued_ok_def by (simp add: L(2)) blast
qed


section \<open>What each stage touches\<close>

lemma st_then_same:
  "g (snd m) = z \<Longrightarrow> (\<And>x s. g s = z \<Longrightarrow> g (snd (f x s)) = z) \<Longrightarrow> g (snd (st_then m f)) = z"
  by (cases m; cases "fst m") auto

lemma verify_token_state [simp]:
  "sv_store (snd (verify_token E A tok sv)) = sv_store sv" "sv_sessions (snd (verify_token E A tok sv)) = sv_sessions sv"
  "sv_jtis (snd (verify_token E A tok sv)) = sv_jtis sv"
  by (simp_all add: verify_token_def Let_def split_beta)

lemma check_dpop_state [simp]:
  "sv_store (snd (check_dpop E tok dp ep msg c sv)) = sv_store sv"
  "sv_sessions (snd (check_dpop E tok dp ep msg c sv)) = sv_sessions sv"
  by (simp_all add: check_dpop_def on_world_def Let_def split_beta st_then_same [where g = sv_store]
      st_then_same [where g = sv_sessions])

lemma check_proof_state [simp]:
  "sv_store (snd (check_proof E body sv)) = sv_store sv" "sv_sessions (snd (check_proof E body sv)) = sv_sessions sv"
  "sv_jtis (snd (check_proof E body sv)) = sv_jtis sv"
  unfolding check_proof_def on_world_def Let_def split_beta
  by (simp_all add: st_then_same [where g = sv_store] st_then_same [where g = sv_sessions]
      st_then_same [where g = sv_jtis])

lemma validateProofNonce_state [simp]:
  "sv_store (snd (validateProofNonce E pf n sv)) = sv_store sv" "sv_jtis (snd (validateProofNonce E pf n sv)) = sv_jtis sv"
  by (auto simp: validateProofNonce_def Let_def split_beta split: outcome.split)

lemma find_data_calls:
  assumes "find_data E rid sv = (res, sv')"
  shows "sv' = sv \<or> (\<exists>found. on_store (ro_FindByID (se_records E) rid) sv = (found, sv'))"
  using assms
  by (cases "on_store (ro_FindByID (se_records E) rid) sv"; cases "fst (on_store (ro_FindByID (se_records E) rid) sv)")
    (auto simp: find_data_def fail_if_def Let_def split: if_splits)

lemma take_index_calls:
  "take_index E rid sv = (res, sv') \<Longrightarrow> \<exists>idx. on_store (so_AllocateIdx (se_status E) rid) sv = (idx, sv') \<and>
     (\<forall>x. res = Ok x \<longrightarrow> idx = Ok x)"
  by (cases "on_store (so_AllocateIdx (se_status E) rid) sv"; cases "fst (on_store (so_AllocateIdx (se_status E) rid) sv)")
    (auto simp: take_index_def)

lemma find_data_state [simp]:
  "sv_sessions (snd (find_data E rid sv)) = sv_sessions sv" "sv_jtis (snd (find_data E rid sv)) = sv_jtis sv"
  unfolding find_data_def on_store_def Let_def split_beta
  by (simp_all add: st_then_same [where g = sv_sessions] st_then_same [where g = sv_jtis])

lemma take_index_state [simp]:
  "sv_sessions (snd (take_index E rid sv)) = sv_sessions sv" "sv_jtis (snd (take_index E rid sv)) = sv_jtis sv"
  by (simp_all add: take_index_def on_store_def Let_def split_beta)

lemma next_sessions:
  assumes "next_stage E A q st sv = (st', sv')"
  shows "(\<forall>c req k. st \<noteq> Proved c req k) \<Longrightarrow> has_nonce (sv_sessions sv') n \<Longrightarrow> has_nonce (sv_sessions sv) n"
  using assms
  by (cases st) (auto dest!: advance_eq(1) simp: on_world_def on_store_world_def split_beta Let_def)

lemma next_jtis:
  assumes "next_stage E A q st sv = (st', sv')" and "\<forall>c. st \<noteq> Verified c"
  shows "sv_jtis sv' = sv_jtis sv"
  using assms
  by (cases st) (auto dest!: advance_eq(1) simp: on_world_def on_store_world_def split_beta Let_def)

context issuance_store
begin

lemma take_index_held:
  assumes "sane (sv_store sv)" and "room (sv_store sv)" and "on_store (so_AllocateIdx S rid) sv = (Ok x, sv')"
  shows "\<exists>v. ent (sv_store sv') rid = Some (x, v)"
proof -
  obtain res t where a: "so_AllocateIdx S rid (sv_store sv) = (res, t)" by fastforce
  with assms(3) have r: "res = Ok x" "sv_store sv' = t" by (auto simp: on_store_def)
  show ?thesis
  proof (cases "ent (sv_store sv) rid")
    case None
    from alloc_new [OF assms(1,2) None a] r show ?thesis by auto
  next
    case (Some y)
    then show ?thesis using alloc_old [OF assms(1) _ a] r by (cases y) auto
  qed
qed

definition steady :: "('s, 'ks) service \<Rightarrow> ('s, 'ks) service \<Rightarrow> bool" where
  "steady sv sv' \<longleftrightarrow> sound (sv_store sv') \<and> sane (sv_store sv') \<and> stays_placed (ent (sv_store sv)) (ent (sv_store sv'))"

lemma quiet_steady: "quiet sv sv' \<Longrightarrow> steady sv sv'"
  by (simp add: quiet_def steady_def)

lemma same_steady: "sound (sv_store sv) \<Longrightarrow> sane (sv_store sv) \<Longrightarrow> sv_store sv' = sv_store sv \<Longrightarrow> steady sv sv'"
  by (simp add: steady_def)

lemma advance_steady:
  assumes "advance m f = (st, sv')" and "steady sv (snd m)"
    and "\<And>x. fst m = Ok x \<Longrightarrow> stage_ok E (ent (sv_store (snd m))) L i (f x)"
  shows "steady sv sv' \<and> stage_ok E (ent (sv_store sv')) L i st"
  using advance_eq [OF assms(1)] assms(2,3) by auto

lemma next_steady:
  assumes "next_stage E A q st sv = (st', sv')" and env: "se_records E = R" "se_status E = S"
    and inv: "sound (sv_store sv)" "sane (sv_store sv)" "room (sv_store sv)"
    and ok: "stage_ok E (ent (sv_store sv)) L i st"
  shows "steady sv sv' \<and> stage_ok E (ent (sv_store sv')) (remarks E i st sv @ L) i st'"
proof -
  note same = same_steady [OF inv(1,2)] and calls = quiet_record_calls [OF inv(1,2) env(1)]
  show ?thesis
  proof (cases st)
    case Arrived
    show ?thesis by (rule advance_steady [OF assms(1) [unfolded Arrived next_stage.simps]]) (simp_all add: same)
  next
    case (Verified c)
    show ?thesis by (rule advance_steady [OF assms(1) [unfolded Verified next_stage.simps]]) (simp_all add: same)
  next
    case (Bound c)
    show ?thesis by (rule advance_steady [OF assms(1) [unfolded Bound next_stage.simps]]) (simp_all add: same)
  next
    case (Proved c req k)
    have "nonce_paid (se_jose E) (remarks E i st sv @ L) i c req"
      if "fst (validateProofNonce E (ExtractProofJWT req) (c_CNonce c) sv) = Ok u" for u
    proof -
      from that obtain n where "fresh_nonce E (ExtractProofJWT req) (c_CNonce c) (sv_sessions sv) n"
        using validateProofNonce_Ok by (metis prod.collapse)
      then show ?thesis using Proved by (auto simp: fresh_nonce_def nonce_paid_def)
    qed
    then show ?thesis by (intro advance_steady [OF assms(1) [unfolded Proved next_stage.simps]]) (simp_all add: same)
  next
    case (Fresh c req k)
    have "steady sv (snd (find_data E (c_IssuanceRecordID c) sv))"
      using find_data_calls [of E "c_IssuanceRecordID c" sv "fst (find_data E (c_IssuanceRecordID c) sv)"
          "snd (find_data E (c_IssuanceRecordID c) sv)"] calls(2) env(1)
      by (auto intro: same quiet_steady)
    then show ?thesis
      using ok by (intro advance_steady [OF assms(1) [unfolded Fresh next_stage.simps]]) (simp_all add: Fresh)
  next
    case (Found c req k rc)
    let ?m = "take_index E (c_IssuanceRecordID c) sv"
    obtain idx where idx: "on_store (so_AllocateIdx S (c_IssuanceRecordID c)) sv = (idx, snd ?m)"
      "\<And>x. fst ?m = Ok x \<Longrightarrow> idx = Ok x"
      using take_index_calls [of E "c_IssuanceRecordID c" sv "fst ?m" "snd ?m"] env(2) by auto
    have "steady sv (snd ?m)" by (rule quiet_steady [OF quiet_status_calls(1) [OF inv idx(1)]])
    moreover have "index_held (ent (sv_store (snd ?m))) c x" if "fst ?m = Ok x" for x
      using take_index_held [OF inv(2,3)] idx(1) idx(2) [OF that] by (simp add: index_held_def)
    ultimately show ?thesis
      using ok by (intro advance_steady [OF assms(1) [unfolded Found next_stage.simps]]) (simp_all add: Found)
  next
    case (Indexed c req k rc x)
    show ?thesis
      by (rule advance_steady [OF assms(1) [unfolded Indexed next_stage.simps]])
        (use ok in \<open>auto simp: Indexed on_world_def made_of_def split_beta Let_def intro: same\<close>)
  next
    case (Built c req k rc x cred)
    with assms(1) env have st: "st' = Marked c req k rc x cred"
      "sv' = on_store_world (ro_UpdateStatus R (c_IssuanceRecordID c) ''credential_issued'') sv" by auto
    have "steady sv sv'" unfolding st by (rule quiet_steady [OF calls(5)])
    moreover from this have "stays_placed (ent (sv_store sv)) (ent (sv_store sv'))" by (simp add: steady_def)
    ultimately show ?thesis using ok index_held_mono by (auto simp: Built st(1))
  next
    case (Marked c req k rc x cred)
    with assms(1) show ?thesis by (auto intro: same)
  next
    case (Returned r)
    with assms(1) show ?thesis using same [of sv] by auto
  qed
qed

lemma mark_invalid_state: "snd (mark_invalid E rid sv) = snd (on_store (so_SetStatus (se_status E) rid StatusInvalid) sv)"
  by (cases "fst (on_store (so_SetStatus (se_status E) rid StatusInvalid) sv)") (simp_all add: mark_invalid_def split_beta Let_def)

lemma steady_trans: "steady a b \<Longrightarrow> steady b c \<Longrightarrow> steady a c"
  by (auto simp: steady_def elim: stays_placed_trans)

lemma status_step_steady:
  assumes "status_step E x z" and env: "se_records E = R" "se_status E = S"
    and inv: "sound (sv_store (sy_service x))" "sane (sv_store (sy_service x))" "room (sv_store (sy_service x))"
  shows "steady (sy_service x) (sy_service z) \<and> sv_sessions (sy_service z) = sv_sessions (sy_service x) \<and>
    sv_jtis (sy_service z) = sv_jtis (sy_service x)"
proof -
  have quiet: "steady (sy_service x) sv \<and> sv_sessions sv = sv_sessions (sy_service x) \<and> sv_jtis sv = sv_jtis (sy_service x)"
    if "quiet (sy_service x) sv" for sv
    using that quiet_steady by (simp add: quiet_def)
  note calls = quiet_status_calls [OF inv(1,2)] quiet_record_calls [OF inv(1,2) env(1)]
  have hit_ok: "quiet (sy_service x) sv" if "cached_token (sy_service x) = (r, sv)" for r sv
    using cached_token_state [of "sy_service x"] sessions_untouched(1,2) [of "sy_service x"] that inv by (simp add: quiet_def)
  have load_ok: "quiet (sy_service x) sv" if "cached_token (sy_service x) = (None, sv1)" "load_entries E sv1 = (r, sv)" for r sv sv1
    using hit_ok [OF that(1)] load_entries_state [OF env(2), of sv1] sessions_untouched(3,4) [of E sv1] that
    by (simp add: quiet_def)
  have sign_ok: "steady (sy_service x) sv \<and> sv_sessions sv = sv_sessions (sy_service x) \<and> sv_jtis sv = sv_jtis (sy_service x)"
    if "sign_entries E m (sy_service x) = (r, sv)" for m r sv
    using sign_entries_state(1) [of E m "sy_service x"] sessions_untouched(5,6) [of E m "sy_service x"] that inv
    by (simp add: steady_def)
  have mark_ok: "quiet (sy_service x) sv" if "mark_invalid E rid (sy_service x) = (r, sv)" for rid r sv
    using calls(3) [of rid "fst (on_store (so_SetStatus S rid StatusInvalid) (sy_service x))"
        "snd (on_store (so_SetStatus S rid StatusInvalid) (sy_service x))"] mark_invalid_state [of E rid "sy_service x"] that env(2)
    by simp
  from assms(1) show ?thesis
  proof cases
    case (clear rid)
    then show ?thesis using inv by (simp add: steady_def drop_cache_def)
  next
    case (check rid res sv)
    show ?thesis using quiet [OF quiet_revocable [OF inv(1,2) env check(2)]] by (simp add: check)
  next
    case (allocate rid idx sv)
    show ?thesis using quiet [OF calls(1) [OF inv(3) allocate(2) [unfolded env]]] by (simp add: allocate)
  next
    case (create ct cd st sr rc sv)
    show ?thesis using quiet [OF calls(4) [OF create(2)]] by (simp add: create)
  next
    case (find rid hit sv)
    show ?thesis using quiet [OF calls(5) [OF find(2) [unfolded env]]] by (simp add: find)
  next
    case (find_state st hit sv)
    show ?thesis using quiet [OF calls(6) [OF find_state(2)]] by (simp add: find_state)
  next
    case (list off lim f ord page sv)
    show ?thesis using quiet [OF calls(7) [OF list(2) [unfolded env]]] by (simp add: list)
  next
    case (look_up rid known sv)
    show ?thesis using quiet [OF calls(2) [OF look_up(2) [unfolded env]]] by (simp add: look_up)
  next
    case (update rid st)
    show ?thesis using quiet [OF calls(8) [of rid st]] by (simp add: update env)
  next
    case (update_state rid st)
    show ?thesis using quiet [OF calls(9) [of rid st]] by (simp add: update_state env)
  next
    case (hit tok sv)
    show ?thesis using quiet [OF hit_ok [OF hit(3)]] by (simp add: hit answer_def)
  next
    case (read sv1 m sv)
    show ?thesis using quiet [OF load_ok [OF read(3,4)]] by (simp add: read)
  next
    case (refuse sv1 e sv)
    show ?thesis using quiet [OF load_ok [OF refuse(3,4)]] by (simp add: refuse)
  next
    case (sign m tok sv)
    show ?thesis using sign_ok [OF sign(3)] by (simp add: sign answer_def)
  next
    case (abort m e sv)
    show ?thesis using sign_ok [OF abort(3)] by (simp add: abort)
  next
    case (mark rid sv)
    show ?thesis using quiet [OF mark_ok [OF mark(2)]] by (simp add: mark)
  next
    case (mark_fail rid e sv)
    show ?thesis using quiet [OF mark_ok [OF mark_fail(2)]] by (simp add: mark_fail)
  qed
qed

end

section \<open>DPoP proofs of concurrent requests\<close>

text \<open>The identifier of a DPoP proof, as the code reads it.\<close>

definition dpop_id :: "('k, 'ks) jose \<Rightarrow> string \<Rightarrow> string" where
  "dpop_id J dp =
     (case jws_parse J dp of
        Inr [h] \<Rightarrow> (case h_jwk h of
            Some k \<Rightarrow> (case jwt_verify_key J k dp of Some tok \<Rightarrow> get_or_empty tok ''jti'' | None \<Rightarrow> [])
          | None \<Rightarrow> [])
      | _ \<Rightarrow> [])"

lemma dpop_id_ok: "dpop_proof_ok ext J now dp htm htu ath seen k jti \<Longrightarrow> dpop_id J dp = jti \<and> \<not> jti_seen seen jti"
  by (auto simp: dpop_proof_ok_def dpop_id_def)

lemma check_dpop_jtis:
  assumes "length (sv_jtis sv) < 10000"
  shows "jti_seen (sv_jtis sv) j \<Longrightarrow> jti_seen (sv_jtis (snd (check_dpop E tok dp ep msg c sv))) j"
    and "fst (check_dpop E tok dp ep msg c sv) = Ok u \<Longrightarrow> \<not> jti_seen (sv_jtis sv) (dpop_id (se_jose E) dp) \<and>
      jti_seen (sv_jtis (snd (check_dpop E tok dp ep msg c sv))) (dpop_id (se_jose E) dp)"
proof -
  let ?V = "ValidateDPoPProof (se_url E) (se_jose E) (se_jti_order E) (w_clock (sv_world sv) 0) dp ''POST''
      (se_baseURL E @ ep) (ComputeATH tok) (sv_jtis sv)"
  have s: "sv_jtis (snd (check_dpop E tok dp ep msg c sv)) = snd ?V"
    by (simp add: check_dpop_def on_world_def Let_def split_beta time_Now_def st_then_same [where g = sv_jtis])
  have keeps: "jti_seen (snd (jti_Accept (se_jti_order E) i (sv_jtis sv))) j" if "jti_seen (sv_jtis sv) j" for i j
    using jti.acc_keeps [of "sv_jtis sv" j "se_jti_order E" i] that assms by (simp add: jtiStoreMaxSize_def)
  show "jti_seen (sv_jtis sv) j \<Longrightarrow> jti_seen (sv_jtis (snd (check_dpop E tok dp ep msg c sv))) j"
    using ValidateDPoPProof_state [of "se_url E" "se_jose E" "se_jti_order E" "w_clock (sv_world sv) 0" dp "''POST''"
        "se_baseURL E @ ep" "ComputeATH tok" "sv_jtis sv"] keeps
    unfolding s by metis
  assume "fst (check_dpop E tok dp ep msg c sv) = Ok u"
  then obtain k where k: "fst ?V = Ok k"
    by (cases "fst ?V") (auto simp: check_dpop_def on_world_def Let_def split_beta time_Now_def)
  have "?V = (Ok k, snd ?V)" by (simp add: prod_eq_iff k)
  then obtain jti where "dpop_proof_ok (se_url E) (se_jose E) (w_clock (sv_world sv) 0) dp ''POST''
      (se_baseURL E @ ep) (ComputeATH tok) (sv_jtis sv) k jti" "snd ?V = snd (jti_Accept (se_jti_order E) jti (sv_jtis sv))"
    unfolding ValidateDPoPProof_Ok_iff by blast
  then show "\<not> jti_seen (sv_jtis sv) (dpop_id (se_jose E) dp) \<and>
      jti_seen (sv_jtis (snd (check_dpop E tok dp ep msg c sv))) (dpop_id (se_jose E) dp)"
    unfolding s using dpop_id_ok jti.acc_seen by metis
qed

fun past_dpop :: "'k stage \<Rightarrow> bool" where
  "past_dpop Arrived = False"
| "past_dpop (Verified c) = False"
| "past_dpop (Returned r) = is_ok r"
| "past_dpop _ = True"

definition dpop_apart ::
  "('k, 'ks, 'sg, 's) service_env \<Rightarrow> (nat \<Rightarrow> call) \<Rightarrow> ('k, 's, 'ks) desk \<Rightarrow> bool" where
  "dpop_apart E Q y \<longleftrightarrow>
     (\<forall>i. past_dpop (dk_stage y i) \<longrightarrow> jti_seen (sv_jtis (dk_service y)) (dpop_id (se_jose E) (cl_dpop (Q i)))) \<and>
     (\<forall>i j. past_dpop (dk_stage y i) \<longrightarrow> past_dpop (dk_stage y j) \<longrightarrow>
        dpop_id (se_jose E) (cl_dpop (Q i)) = dpop_id (se_jose E) (cl_dpop (Q j)) \<longrightarrow> i = j)"

lemma next_past_dpop:
  assumes "next_stage E A q st sv = (st', sv')" and "\<forall>c. st \<noteq> Verified c" and "past_dpop st'"
  shows "past_dpop st"
  using assms by (cases st) (auto dest!: advance_eq(2))

lemma dpop_apart_step:
  assumes "desk_step E Q y z" and "dpop_apart E Q y" and "length (sv_jtis (dk_service y)) < 10000"
    and "\<And>x z. status_step E x z \<Longrightarrow> sy_service x = dk_service y \<Longrightarrow> sv_jtis (sy_service z) = sv_jtis (sy_service x)"
  shows "dpop_apart E Q z"
  using assms(1)
proof cases
  case (move A i st sv)
  show ?thesis
  proof (cases "\<exists>c. dk_stage y i = Verified c")
    case True
    then obtain c where c: "dk_stage y i = Verified c" by blast
    let ?m = "check_dpop E (cl_token (Q i)) (cl_dpop (Q i)) ''/oid4vci/v1/credential'' ''DPoP key mismatch'' c (dk_service y)"
    note a = move(2) [unfolded c next_stage.simps]
    have "past_dpop st \<Longrightarrow> fst ?m = Ok ()" using advance_eq(2) [OF a] by auto
    then have "past_dpop st \<Longrightarrow> \<not> jti_seen (sv_jtis (dk_service y)) (dpop_id (se_jose E) (cl_dpop (Q i))) \<and>
        jti_seen (sv_jtis sv) (dpop_id (se_jose E) (cl_dpop (Q i)))"
      using check_dpop_jtis(2) [OF assms(3)] advance_eq(1) [OF a] by simp
    moreover have "jti_seen (sv_jtis (dk_service y)) j \<Longrightarrow> jti_seen (sv_jtis sv) j" for j
      using check_dpop_jtis(1) [OF assms(3)] advance_eq(1) [OF a] by simp
    ultimately show ?thesis using assms(2) by (simp add: dpop_apart_def move) metis
  next
    case False
    then have "past_dpop st \<Longrightarrow> past_dpop (dk_stage y i)" "sv_jtis sv = sv_jtis (dk_service y)"
      using next_past_dpop [OF move(2)] next_jtis [OF move(2)] by auto
    then show ?thesis using assms(2) by (simp add: dpop_apart_def move) metis
  qed
next
  case (elsewhere tok dp ep msg c res sv)
  then have "jti_seen (sv_jtis (dk_service y)) j \<Longrightarrow> jti_seen (sv_jtis sv) j" for j
    using check_dpop_jtis(1) [OF assms(3)] by (metis snd_conv)
  then show ?thesis using assms(2) by (simp add: dpop_apart_def elsewhere)
next
  case (status x z)
  then show ?thesis using assms(2) assms(4) [OF status(2,3)] by (simp add: dpop_apart_def)
qed (use assms(2) in \<open>simp_all add: dpop_apart_def\<close>)

section \<open>Nonces of concurrent requests\<close>

fun spents :: "'k entry list \<Rightarrow> (nat \<times> string) list" where
  "spents [] = []"
| "spents (Spent i n # L) = (i, n) # spents L"
| "spents (_ # L) = spents L"

lemma spents_append [simp]: "spents (L @ M) = spents L @ spents M"
  by (induction L rule: spents.induct) simp_all

lemma set_spents [simp]: "(i, n) \<in> set (spents L) \<longleftrightarrow> Spent i n \<in> set L"
  by (induction L rule: spents.induct) auto

lemma count_snd: "count_list (map snd ps) n = length (filter (\<lambda>p. snd p = n) ps)"
  by (induction ps) auto

fun past_nonce :: "'k stage \<Rightarrow> bool" where
  "past_nonce Arrived = False"
| "past_nonce (Verified c) = False"
| "past_nonce (Bound c) = False"
| "past_nonce (Proved c req k) = False"
| "past_nonce _ = True"

definition tally :: "'k entry list \<Rightarrow> session_store \<Rightarrow> string \<Rightarrow> nat" where
  "tally L ss n = count_list (map snd (spents L)) n + (if has_nonce ss n then 1 else 0)"

definition nonces_ok :: "session_store \<Rightarrow> ('k, 's, 'ks) desk \<Rightarrow> bool" where
  "nonces_ok ss0 y \<longleftrightarrow>
     (\<forall>i \<in> fst ` set (spents (dk_ledger y)). past_nonce (dk_stage y i)) \<and> distinct (map fst (spents (dk_ledger y))) \<and>
     (\<forall>n. tally (dk_ledger y) (sv_sessions (dk_service y)) n \<le>
        count_list (dk_ledger y) (Registered n) + (if has_nonce ss0 n then 1 else 0))"

lemma next_past_nonce: "next_stage E A q st sv = (st', sv') \<Longrightarrow> past_nonce st \<or> (\<exists>c req k. st = Proved c req k) \<Longrightarrow> past_nonce st'"
  by (cases st) (auto dest!: advance_eq(2))

lemma remarks_count [simp]: "count_list (remarks E i st sv) (Registered n) = 0"
  by (cases st) (auto split: outcome.split)

text \<open>Using up a nonce moves it from the store to the ledger; nothing else adds to either.\<close>

lemma next_tally:
  assumes "next_stage E A q st sv = (st', sv')"
  shows "tally (remarks E i st sv @ L) (sv_sessions sv') n \<le> tally L (sv_sessions sv) n"
proof (cases "\<exists>c req k. st = Proved c req k")
  case True
  then obtain c req k where st: "st = Proved c req k" by blast
  have "sv_sessions sv' = sv_sessions (snd (validateProofNonce E (ExtractProofJWT req) (c_CNonce c) sv))"
    using advance_eq(1) [OF assms [unfolded st next_stage.simps]] by simp
  then show ?thesis
    by (auto simp: st tally_def validateProofNonce_def Let_def split_beta split: outcome.split)
next
  case False
  then have "spents (remarks E i st sv) = []" by (cases st) auto
  then show ?thesis using next_sessions [OF assms, of n] False by (auto simp: tally_def)
qed

lemma remarks_spent: "set (spents (remarks E i st sv)) = {} \<or> (\<exists>c req k n. st = Proved c req k \<and> spents (remarks E i st sv) = [(i, n)])"
  by (cases st) (auto split: outcome.split)

lemma nonces_ok_move:
  assumes "next_stage E A q (dk_stage y i) (dk_service y) = (st, sv)" and "nonces_ok ss0 y"
  shows "nonces_ok ss0 (y\<lparr>dk_service := sv, dk_stage := (dk_stage y)(i := st),
    dk_ledger := remarks E i (dk_stage y i) (dk_service y) @ dk_ledger y\<rparr>)"
proof -
  let ?R = "remarks E i (dk_stage y i) (dk_service y)"
  have past: "\<forall>j \<in> fst ` set (spents (dk_ledger y)). past_nonce (dk_stage y j)" and d: "distinct (map fst (spents (dk_ledger y)))"
    using assms(2) by (auto simp: nonces_ok_def)
  have new: "fst ` set (spents ?R) \<subseteq> {i}" "distinct (map fst (spents ?R))" using remarks_spent [of E i "dk_stage y i" "dk_service y"]
    by auto
  have fresh: "i \<notin> fst ` set (spents (dk_ledger y))" "past_nonce st" if "spents ?R \<noteq> []"
  proof -
    from that obtain c req k where st: "dk_stage y i = Proved c req k" using remarks_spent [of E i "dk_stage y i" "dk_service y"]
      by auto
    then have "\<not> past_nonce (dk_stage y i)" by simp
    with past show "i \<notin> fst ` set (spents (dk_ledger y))" by blast
    show "past_nonce st" using next_past_nonce [OF assms(1)] st by blast
  qed
  have "past_nonce (((dk_stage y)(i := st)) j)" if "j \<in> fst ` set (spents (?R @ dk_ledger y))" for j
  proof (cases "j \<in> fst ` set (spents (dk_ledger y))")
    case True
    then show ?thesis using past next_past_nonce [OF assms(1)] by auto
  next
    case False
    with that have j: "j \<in> fst ` set (spents ?R)" by auto
    then have "spents ?R \<noteq> []" by fastforce
    with j show ?thesis using fresh(2) new(1) by auto
  qed
  moreover have "distinct (map fst (spents (?R @ dk_ledger y)))"
    using d new fresh(1) by (cases "spents ?R = []") auto
  moreover have "tally (?R @ dk_ledger y) (sv_sessions sv) n \<le> count_list (?R @ dk_ledger y) (Registered n) + (if has_nonce ss0 n then 1 else 0)"
    for n
  proof -
    have "tally (dk_ledger y) (sv_sessions (dk_service y)) n \<le> count_list (dk_ledger y) (Registered n) + (if has_nonce ss0 n then 1 else 0)"
      using assms(2) by (simp add: nonces_ok_def)
    from le_trans [OF next_tally [OF assms(1), of i "dk_ledger y" n] this] show ?thesis by simp
  qed
  ultimately show ?thesis by (simp add: nonces_ok_def)
qed

lemma nonces_ok_rest:
  assumes "nonces_ok ss0 y" and "\<And>n. has_nonce (sv_sessions sv) n \<Longrightarrow> has_nonce (sv_sessions (dk_service y)) n"
  shows "nonces_ok ss0 (y\<lparr>dk_service := sv\<rparr>)"
proof -
  have "tally (dk_ledger y) (sv_sessions sv) n \<le> tally (dk_ledger y) (sv_sessions (dk_service y)) n" for n
    using assms(2) by (simp add: tally_def)
  then show ?thesis using assms(1) by (fastforce simp: nonces_ok_def intro: le_trans)
qed

lemma nonces_ok_hand_out:
  assumes "nonces_ok ss0 y"
  shows "nonces_ok ss0 (y\<lparr>dk_service := dk_service y\<lparr>sv_sessions := RegisterNonce n (sv_sessions (dk_service y))\<rparr>,
    dk_ledger := Registered n # dk_ledger y\<rparr>)"
proof -
  have "tally (Registered n # dk_ledger y) (RegisterNonce n (sv_sessions (dk_service y))) m \<le>
      count_list (Registered n # dk_ledger y) (Registered m) + (if has_nonce ss0 m then 1 else 0)" for m
  proof -
    have "tally (Registered n # dk_ledger y) (RegisterNonce n (sv_sessions (dk_service y))) m \<le>
        tally (dk_ledger y) (sv_sessions (dk_service y)) m + (if m = n then 1 else 0)" by (simp add: tally_def)
    moreover have "tally (dk_ledger y) (sv_sessions (dk_service y)) m \<le> count_list (dk_ledger y) (Registered m) +
        (if has_nonce ss0 m then 1 else 0)" using assms by (simp add: nonces_ok_def)
    ultimately show ?thesis by (cases "m = n") simp_all
  qed
  with assms show ?thesis by (simp add: nonces_ok_def)
qed

section \<open>What was checked for a request\<close>

text \<open>
  At some moment the token verified, at some moment its DPoP proof passed with the key the token is
  bound to, and at some moment the key proof passed.
\<close>

definition token_checked :: "('k, 'ks, 'sg, 's) service_env \<Rightarrow> call \<Rightarrow> token_claims \<Rightarrow> bool" where
  "token_checked E q c \<longleftrightarrow> (\<exists>A v. token_ok (se_float E) (se_jose E) A v (cl_token q) c)"

definition dpop_checked :: "('k, 'ks, 'sg, 's) service_env \<Rightarrow> call \<Rightarrow> token_claims \<Rightarrow> bool" where
  "dpop_checked E q c \<longleftrightarrow>
     (\<exists>now seen k jti tp. dpop_proof_ok (se_url E) (se_jose E) now (cl_dpop q) ''POST''
        (se_baseURL E @ ''/oid4vci/v1/credential'') (ComputeATH (cl_token q)) seen k jti \<and>
      jwk_thumbprint (se_jose E) k = Inr tp \<and> c_JKT c = b64url tp)"

definition proof_checked :: "('k, 'ks, 'sg, 's) service_env \<Rightarrow> call \<Rightarrow> credential_request \<Rightarrow> 'k \<Rightarrow> bool" where
  "proof_checked E q req k \<longleftrightarrow> request_ok E (cl_body q) req \<and>
     (\<exists>now. proof_ok (se_jose E) now (ExtractProofJWT req) (se_baseURL E) k)"

definition vetted ::
  "('k, 'ks, 'sg, 's) service_env \<Rightarrow> call \<Rightarrow> token_claims \<Rightarrow> credential_request \<Rightarrow> 'k \<Rightarrow> bool" where
  "vetted E q c req k \<longleftrightarrow> token_checked E q c \<and> dpop_checked E q c \<and> proof_checked E q req k"

fun stage_vetted :: "('k, 'ks, 'sg, 's) service_env \<Rightarrow> call \<Rightarrow> 'k stage \<Rightarrow> bool" where
  "stage_vetted E q Arrived = True"
| "stage_vetted E q (Verified c) = token_checked E q c"
| "stage_vetted E q (Bound c) = (token_checked E q c \<and> dpop_checked E q c)"
| "stage_vetted E q (Proved c req k) = vetted E q c req k"
| "stage_vetted E q (Fresh c req k) = vetted E q c req k"
| "stage_vetted E q (Found c req k rc) = vetted E q c req k"
| "stage_vetted E q (Indexed c req k rc x) = vetted E q c req k"
| "stage_vetted E q (Built c req k rc x cred) = vetted E q c req k"
| "stage_vetted E q (Marked c req k rc x cred) = vetted E q c req k"
| "stage_vetted E q (Returned r) = True"

lemma verify_token_checks: "fst (verify_token E A (cl_token q) sv) = Ok c \<Longrightarrow> token_checked E q c"
  using Verify_Ok_iff by (fastforce simp: verify_token_def token_checked_def split_beta Let_def)

lemma check_dpop_checks:
  assumes "fst (check_dpop E (cl_token q) (cl_dpop q) ''/oid4vci/v1/credential'' msg c sv) = Ok u"
  shows "dpop_checked E q c"
proof -
  let ?V = "ValidateDPoPProof (se_url E) (se_jose E) (se_jti_order E) (w_clock (sv_world sv) 0) (cl_dpop q) ''POST''
      (se_baseURL E @ ''/oid4vci/v1/credential'') (ComputeATH (cl_token q)) (sv_jtis sv)"
  obtain k where k: "fst ?V = Ok k" "requireBoundThumbprint (se_jose E) (c_JKT c) k msg = Ok u"
    using assms by (cases "fst ?V") (auto simp: check_dpop_def on_world_def Let_def split_beta time_Now_def)
  have "?V = (Ok k, snd ?V)" by (simp add: prod_eq_iff k)
  then obtain jti where "dpop_proof_ok (se_url E) (se_jose E) (w_clock (sv_world sv) 0) (cl_dpop q) ''POST''
      (se_baseURL E @ ''/oid4vci/v1/credential'') (ComputeATH (cl_token q)) (sv_jtis sv) k jti"
    unfolding ValidateDPoPProof_Ok_iff by blast
  with k(2) show ?thesis unfolding dpop_checked_def requireBoundThumbprint_Ok by blast
qed

lemma check_proof_checks: "fst (check_proof E (cl_body q) sv) = Ok p \<Longrightarrow> proof_checked E q (fst p) (snd p)"
proof -
  assume "fst (check_proof E (cl_body q) sv) = Ok p"
  then have "check_proof E (cl_body q) sv = (Ok p, snd (check_proof E (cl_body q) sv))" by (simp add: prod_eq_iff)
  then show ?thesis
    unfolding check_proof_def Let_def split_beta st_then_Ok_iff read_request_Ok ValidateProofJWT_Ok_iff prod.inject
    by (auto simp: proof_checked_def)
qed

lemma next_vetted:
  assumes "next_stage E A q st sv = (st', sv')" and "stage_vetted E q st"
  shows "stage_vetted E q st'"
proof (cases st)
  case Arrived
  then show ?thesis using advance_eq(2) [OF assms(1) [unfolded Arrived next_stage.simps]] verify_token_checks by auto
next
  case (Verified c)
  then show ?thesis
    using advance_eq(2) [OF assms(1) [unfolded Verified next_stage.simps]] check_dpop_checks assms(2) by auto
next
  case (Bound c)
  then show ?thesis
    using advance_eq(2) [OF assms(1) [unfolded Bound next_stage.simps]] check_proof_checks assms(2) by (auto simp: vetted_def)
next
  case (Built c req k rc x cred)
  then show ?thesis using assms by auto
next
  case (Marked c req k rc x cred)
  then show ?thesis using assms by auto
next
  case (Returned r)
  then show ?thesis using assms by auto
qed (use assms in \<open>auto dest!: advance_eq(2)\<close>)

definition all_vetted :: "('k, 'ks, 'sg, 's) service_env \<Rightarrow> (nat \<Rightarrow> call) \<Rightarrow> ('k, 's, 'ks) desk \<Rightarrow> bool" where
  "all_vetted E Q y \<longleftrightarrow> (\<forall>i. stage_vetted E (Q i) (dk_stage y i)) \<and>
     (\<forall>i c req k rc x cred. Issued i c req k rc x cred \<in> set (dk_ledger y) \<longrightarrow> vetted E (Q i) c req k)"

lemma remarks_issued:
  "Issued j c req k rc x cred \<in> set (remarks E i st sv) \<Longrightarrow> j = i \<and> st = Marked c req k rc x cred"
  by (cases st) (auto split: outcome.splits if_splits)

lemma all_vetted_step:
  assumes "desk_step E Q y z" and "all_vetted E Q y"
  shows "all_vetted E Q z"
  using assms(1)
proof cases
  case (move A i st sv)
  have v: "stage_vetted E (Q i) (dk_stage y i)" using assms(2) by (simp add: all_vetted_def)
  have "vetted E (Q j) c req k" if "Issued j c req k rc x cred \<in> set (remarks E i (dk_stage y i) (dk_service y))"
    for j c req k rc x cred using remarks_issued [OF that] v by auto
  then show ?thesis using assms(2) next_vetted [OF move(2) v] by (fastforce simp: all_vetted_def move)
qed (use assms(2) in \<open>auto simp: all_vetted_def\<close>)

section \<open>Runs\<close>

context issuance_store
begin

definition desk_inv ::
  "('k, 'ks, 'sg, 's) service_env \<Rightarrow> (nat \<Rightarrow> call) \<Rightarrow> session_store \<Rightarrow> ('k, 's, 'ks) desk \<Rightarrow> bool" where
  "desk_inv E Q ss0 y \<longleftrightarrow> sound (sv_store (dk_service y)) \<and> sane (sv_store (dk_service y)) \<and>
     issued_ok E (ent (sv_store (dk_service y))) y \<and> dpop_apart E Q y \<and> nonces_ok ss0 y \<and> all_vetted E Q y"

lemma desk_step_steady:
  assumes "desk_step E Q y z" and env: "se_records E = R" "se_status E = S" and "desk_inv E Q ss0 y" and "room (sv_store (dk_service y))"
  shows "steady (dk_service y) (dk_service z) \<and> issued_ok E (ent (sv_store (dk_service z))) z"
proof -
  have inv: "sound (sv_store (dk_service y))" "sane (sv_store (dk_service y))"
    "issued_ok E (ent (sv_store (dk_service y))) y" using assms(4) by (simp_all add: desk_inv_def)
  note same = same_steady [OF inv(1,2)]
  have rest: "issued_ok E (ent (sv_store sv)) (y\<lparr>dk_service := sv, dk_ledger := L\<rparr>)"
    if "steady (dk_service y) sv" "L = dk_ledger y \<or> L = Registered n # dk_ledger y" for sv L n
    using issued_ok_rest [OF inv(3) _ that(2)] that(1) by (simp add: steady_def)
  have keep: "issued_ok E (ent (sv_store sv)) (y\<lparr>dk_service := sv\<rparr>)" if "steady (dk_service y) sv" for sv
    using rest [OF that, of "dk_ledger y"] by simp
  from assms(1) show ?thesis
  proof cases
    case (move A i st sv)
    have "stage_ok E (ent (sv_store (dk_service y))) (dk_ledger y) i (dk_stage y i)" using inv(3) by (simp add: issued_ok_def)
    note n = next_steady [OF move(2) env inv(1,2) assms(5) this]
    then have p: "stays_placed (ent (sv_store (dk_service y))) (ent (sv_store sv))" by (simp add: steady_def)
    have "issued_ok E (ent (sv_store sv)) z"
      unfolding move(1)
    proof (rule issued_ok_move [OF inv(3) p], goal_cases)
      case 1
      then show ?case using n by simp
    next
      case (2 r)
      have "remarks E i (dk_stage y i) (dk_service y) = []" unfolding 2 by simp
      moreover have "st = Returned r" using move(2) unfolding 2 by simp
      ultimately show ?case by blast
    next
      case (3 j c req k rc x cred)
      from remarks_issued [OF 3] have st: "j = i" "dk_stage y i = Marked c req k rc x cred" by auto
      with move(2) n show ?case
        using stage_ok_mono [of E "ent (sv_store (dk_service y))" "dk_ledger y" i "dk_stage y i" "dk_ledger y"]
          \<open>stage_ok E (ent (sv_store (dk_service y))) (dk_ledger y) i (dk_stage y i)\<close> p by auto
    qed
    with n show ?thesis by (simp add: move)
  next
    case (hand_out n)
    have "steady (dk_service y) (dk_service z)" by (rule same) (simp add: hand_out)
    then show ?thesis using rest [of "dk_service z" "Registered n # dk_ledger y" n] by (simp add: hand_out)
  next
    case (elsewhere tok dp ep msg c res sv)
    then have "sv_store sv = sv_store (dk_service y)" using check_dpop_state(1) by (metis snd_conv)
    then show ?thesis using keep [OF same] same by (simp add: elsewhere)
  next
    case (offer j r)
    have "steady (dk_service y) (dk_service z)" by (rule same) (simp add: offer)
    then show ?thesis using keep [of "dk_service z"] by (simp add: offer)
  next
    case (status x w)
    then show ?thesis using status_step_steady [OF status(2) env] inv assms(5) keep by simp
  next
    case (outside v w)
    have "steady (dk_service y) (dk_service z)" by (rule same) (simp add: outside)
    then show ?thesis using keep [of "dk_service z"] by (simp add: outside)
  qed
qed

lemma desk_step_inv:
  assumes "desk_step E Q y z" and env: "se_records E = R" "se_status E = S" and inv: "desk_inv E Q ss0 y"
    and b: "room (sv_store (dk_service y))" "length (sv_jtis (dk_service y)) < 10000"
  shows "desk_inv E Q ss0 z"
proof -
  note st = status_step_steady [OF _ env]
  have y: "sound (sv_store (dk_service y))" "sane (sv_store (dk_service y))" "nonces_ok ss0 y" "dpop_apart E Q y" "all_vetted E Q y"
    using inv by (simp_all add: desk_inv_def)
  have "dpop_apart E Q z" using st y(1,2) b(1) by (intro dpop_apart_step [OF assms(1) y(4) b(2)]) simp
  moreover have "nonces_ok ss0 z"
    using assms(1)
  proof cases
    case (move A i st sv)
    then show ?thesis using nonces_ok_move [OF move(2) y(3)] by simp
  next
    case (hand_out n)
    then show ?thesis using nonces_ok_hand_out [OF y(3)] by simp
  next
    case (elsewhere tok dp ep msg c res sv)
    then have "sv_sessions sv = sv_sessions (dk_service y)" using check_dpop_state(2) by (metis snd_conv)
    then show ?thesis using nonces_ok_rest [OF y(3), of sv] by (simp add: elsewhere)
  next
    case (status x w)
    then show ?thesis using st [OF status(2)] y(1,2) b(1) nonces_ok_rest [OF y(3), of "sy_service w"] by simp
  next
    case (offer j r)
    show ?thesis unfolding offer by (rule nonces_ok_rest [OF y(3)]) (simp add: has_nonce_def)
  next
    case (outside v w)
    show ?thesis unfolding outside by (rule nonces_ok_rest [OF y(3)]) simp
  qed
  ultimately show ?thesis
    using desk_step_steady [OF assms(1) env inv b(1)] all_vetted_step [OF assms(1) y(5)] by (simp add: desk_inv_def steady_def)
qed

lemma desk_run_inv:
  assumes "desk_run E Q B x y" and "\<And>sv. B sv \<Longrightarrow> room (sv_store sv) \<and> length (sv_jtis sv) < 10000"
    and "x = open_desk sv" and env: "se_records E = R" "se_status E = S" and "sound (sv_store sv)" "sane (sv_store sv)"
  shows "desk_inv E Q (sv_sessions sv) y"
  using assms(1,3)
proof (induction rule: desk_run.induct)
  case (opened y)
  then show ?case
    using assms(6,7) by (simp add: desk_inv_def open_desk_def issued_ok_def dpop_apart_def nonces_ok_def tally_def all_vetted_def)
next
  case (onward x y z)
  then show ?case using desk_step_inv [OF onward.hyps(3) env] assms(2) by blast
qed

end

section \<open>Properties\<close>

definition desk_bounds :: "(any_store, 'ks) service \<Rightarrow> bool" where
  "desk_bounds sv \<longleftrightarrow> any_room (sv_store sv) \<and> length (sv_jtis sv) < 10000"

lemma any_desk_run_inv:
  assumes "store_params_ok sp" and "se_records E = any_records sp" and "se_status E = any_status sp"
    and "any_sound (sv_store sv)" and "any_sane (sv_store sv)" and "desk_run E Q desk_bounds (open_desk sv) y"
  shows "any_sane (sv_store (dk_service y))" "issued_ok E (any_entries (sv_store (dk_service y))) y" "dpop_apart E Q y"
    "nonces_ok (sv_sessions sv) y" "all_vetted E Q y"
  using issuance_store.desk_run_inv [OF any_issuance_store [OF assms(1)] assms(6) _ refl assms(2-5)]
  by (simp_all add: desk_bounds_def issuance_store.desk_inv_def [OF any_issuance_store [OF assms(1)]])

text \<open>C3 (safety): credentials issued concurrently. In every run in which the replay store holds fewer than ten
  thousand DPoP identifiers and the status list has room before each step, however credential requests
  interleave with each other and with everything else the issuer does, on either store, a credential
  returned was issued for a
  token that verified, a DPoP proof by its key and a valid key proof, and it carries the index its
  record has in the status list to this day. Two requests that both get a credential had different
  DPoP identifiers, and carry the same index exactly when they are for the same record. (What a
  full replay store does is \<open>full_store_forgets\<close> in \<open>Dpop\<close>.)\<close>

theorem concurrent_credentials:
  assumes "store_params_ok sp" and "se_records E = any_records sp" and "se_status E = any_status sp"
    and "any_sound (sv_store sv)" and "any_sane (sv_store sv)" and "desk_run E Q desk_bounds (open_desk sv) y"
    and "Issued i c req k rc x cred \<in> set (dk_ledger y)"
  shows "dk_stage y i = Returned (Ok (SuccessResponse cred)) \<and>
    vetted E (Q i) c req k \<and> (\<exists>w. fst (build_credential E (rq_configuration_id req) k rc x w) = Ok cred) \<and>
    (\<exists>v. any_entries (sv_store (dk_service y)) (c_IssuanceRecordID c) = Some (x, v)) \<and>
    (\<forall>j c' req' k' rc' x' cred'. Issued j c' req' k' rc' x' cred' \<in> set (dk_ledger y) \<and> j \<noteq> i \<longrightarrow>
       dpop_id (se_jose E) (cl_dpop (Q j)) \<noteq> dpop_id (se_jose E) (cl_dpop (Q i)) \<and>
       (x' = x \<longleftrightarrow> c_IssuanceRecordID c' = c_IssuanceRecordID c))"
proof -
  let ?en = "any_entries (sv_store (dk_service y))"
  note inv = any_desk_run_inv [OF assms(1-6)]
  have v: "vetted E (Q i) c req k" using inv(5) assms(7) unfolding all_vetted_def by blast
  have each: "dk_stage y j = Returned (Ok (SuccessResponse cr)) \<and> made_of E rq kk r i' cr \<and> index_held ?en cl i'"
    if "Issued j cl rq kk r i' cr \<in> set (dk_ledger y)" for j cl rq kk r i' cr
    using inv(2) that unfolding issued_ok_def by blast
  have "dpop_id (se_jose E) (cl_dpop (Q j)) \<noteq> dpop_id (se_jose E) (cl_dpop (Q i)) \<and>
       (x' = x \<longleftrightarrow> c_IssuanceRecordID c' = c_IssuanceRecordID c)"
    if "Issued j c' req' k' rc' x' cred' \<in> set (dk_ledger y)" "j \<noteq> i" for j c' req' k' rc' x' cred'
  proof -
    note both = each [OF that(1)] each [OF assms(7)]
    then have "past_dpop (dk_stage y j)" "past_dpop (dk_stage y i)" by simp_all
    then have "dpop_id (se_jose E) (cl_dpop (Q j)) \<noteq> dpop_id (se_jose E) (cl_dpop (Q i))"
      using inv(3) that(2) unfolding dpop_apart_def by metis
    moreover obtain v v' where e: "?en (c_IssuanceRecordID c') = Some (x', v')" "?en (c_IssuanceRecordID c) = Some (x, v)"
      using both by (auto simp: index_held_def)
    moreover have "x' = x \<Longrightarrow> c_IssuanceRecordID c' = c_IssuanceRecordID c"
      using status_store.idx_inj [OF issuance_store.axioms(2) [OF any_issuance_store [OF assms(1)]] inv(1)] e by metis
    ultimately show ?thesis by auto
  qed
  then show ?thesis using each [OF assms(7)] v unfolding made_of_def index_held_def by blast
qed

text \<open>C4 (safety): nonces of the Nonce Endpoint are single-use under concurrency. In every run in which the
  replay store holds fewer than ten thousand DPoP identifiers and the status list has room before each
  step, however requests interleave, the number of requests that get a credential for a key proof with the nonce \<open>n\<close>, other than by a token
  that carries \<open>n\<close>, is at most the number of times \<open>n\<close> was handed out (and once more if it was
  registered before the run).\<close>

theorem one_credential_per_nonce:
  assumes "store_params_ok sp" and "se_records E = any_records sp" and "se_status E = any_status sp"
    and "any_sound (sv_store sv)" and "any_sane (sv_store sv)" and "desk_run E Q desk_bounds (open_desk sv) y"
  shows "card {i. \<exists>c req k rc x cred. Issued i c req k rc x cred \<in> set (dk_ledger y) \<and>
      ProofNonce (se_jose E) (ExtractProofJWT req) = Ok n \<and> c_CNonce c \<noteq> n} \<le>
    count_list (dk_ledger y) (Registered n) + (if has_nonce (sv_sessions sv) n then 1 else 0)" (is "card ?I \<le> _")
proof -
  note inv = any_desk_run_inv [OF assms]
  let ?S = "filter (\<lambda>p. snd p = n) (spents (dk_ledger y))"
  have "Spent i n \<in> set (dk_ledger y)" if "i \<in> ?I" for i
    using that inv(2) unfolding issued_ok_def nonce_paid_def by fastforce
  then have "?I \<subseteq> fst ` set ?S" by (force simp: image_iff)
  then have "card ?I \<le> card (fst ` set ?S)" by (rule card_mono [rotated]) simp
  also have "\<dots> \<le> length ?S" using card_image_le [of "set ?S" fst] card_length [of ?S] by simp
  also have "\<dots> = count_list (map snd (spents (dk_ledger y))) n"
    by (rule count_snd [symmetric])
  also have "\<dots> \<le> tally (dk_ledger y) (sv_sessions (dk_service y)) n" by (simp add: tally_def)
  also have "\<dots> \<le> count_list (dk_ledger y) (Registered n) + (if has_nonce (sv_sessions sv) n then 1 else 0)"
    using inv(4) by (simp add: nonces_ok_def)
  finally show ?thesis .
qed

text \<open>A run with one request, served from its arrival to its response.\<close>

definition demo_call :: call where
  "demo_call = \<lparr>cl_token = ''t'', cl_dpop = ''d'', cl_body = demo_body\<rparr>"

definition demo_read :: credential_request where
  "demo_read = zero_request\<lparr>rq_configuration_id := PIDConfigID, rq_proof := Some \<lparr>pf_type = ''jwt'', pf_jwt = ''p''\<rparr>\<rparr>"

lemma demo_stages:
  fixes sv1
  defines "sv1 \<equiv> demo_service\<lparr>sv_jtis := [(''d1'', ())]\<rparr>"
  shows "next_stage demo_env sample_world demo_call Arrived demo_service = (Verified demo_claims, demo_service)"
    "next_stage demo_env sample_world demo_call (Verified demo_claims) demo_service = (Bound demo_claims, sv1)"
    "next_stage demo_env sample_world demo_call (Bound demo_claims) sv1 = (Proved demo_claims demo_read ''w'', sv1)"
    "next_stage demo_env sample_world demo_call (Proved demo_claims demo_read ''w'') sv1 = (Fresh demo_claims demo_read ''w'', sv1)"
    "next_stage demo_env sample_world demo_call (Fresh demo_claims demo_read ''w'') sv1 =
      (Found demo_claims demo_read ''w'' demo_record, sv1)"
    "\<exists>sv2. next_stage demo_env sample_world demo_call (Found demo_claims demo_read ''w'' demo_record) sv1 =
      (Indexed demo_claims demo_read ''w'' demo_record 0, sv2) \<and> desk_bounds sv2 \<and> sv_world sv2 = zero_world"
    "desk_bounds demo_service" "desk_bounds sv1"
proof -
  have w: "time_Now zero_world = (0, zero_world)" by (simp add: time_Now_def zero_world_def)
  have q: "cl_token demo_call = ''t''" "cl_dpop demo_call = ''d''" "cl_body demo_call = demo_body" by (simp_all add: demo_call_def)
  have e: "se_jose demo_env = issue_jose" "se_baseURL demo_env = demo_base" "se_float demo_env = demo_fo"
    "se_url demo_env = (\<lambda>_. None)" "se_jti_order demo_env = (\<lambda>xs. xs)"
    "se_records demo_env = any_records plain_store_params" "se_status demo_env = any_status plain_store_params"
    by (simp_all add: demo_env_def demo_env_on_def)
  have f: "sv_world demo_service = zero_world" "sv_sessions demo_service = new_session_store"
    "sv_tokens demo_service = sample_verifier" "sv_jtis demo_service = NewJTIStore"
    "sv_store demo_service = Inl (NewStore\<lparr>mem_records := [(''r'', demo_record)]\<rparr>)"
    "demo_service\<lparr>sv_tokens := sample_verifier\<rparr> = demo_service" "demo_service\<lparr>sv_world := zero_world\<rparr> = demo_service"
    by (simp_all add: demo_service_def NewService_def)
  have g: "sv1\<lparr>sv_world := zero_world\<rparr> = sv1" "sv1\<lparr>sv_sessions := new_session_store\<rparr> = sv1"
    "sv1\<lparr>sv_store := Inl (NewStore\<lparr>mem_records := [(''r'', demo_record)]\<rparr>)\<rparr> = sv1" "sv_world sv1 = zero_world"
    "sv_sessions sv1 = new_session_store" "sv_store sv1 = Inl (NewStore\<lparr>mem_records := [(''r'', demo_record)]\<rparr>)"
    "sv_jtis sv1 = [(''d1'', ())]"
    by (simp_all add: sv1_def demo_service_def NewService_def)
  have rd: "read_request demo_env demo_body = Ok demo_read"
    by (simp add: read_request_Ok request_ok_def demo_request demo_read_def PIDConfigID_def zero_request_def)
  have pf: "ExtractProofJWT demo_read = ''p''" by (simp add: ExtractProofJWT_def demo_read_def zero_request_def)
  have c: "c_IssuanceRecordID demo_claims = ''r''" "c_CNonce demo_claims = ''n''" by (simp_all add: demo_claims_def)
  show "next_stage demo_env sample_world demo_call Arrived demo_service = (Verified demo_claims, demo_service)"
    by (simp add: verify_token_def q e f demo_verify)
  have b: "requireBoundThumbprint issue_jose (c_JKT demo_claims) ''k'' msg = Ok ()" for msg
    by (simp add: requireBoundThumbprint_Ok issue_jose_def table_jose_def demo_claims_def)
  show "next_stage demo_env sample_world demo_call (Verified demo_claims) demo_service = (Bound demo_claims, sv1)"
    using demo_dpop b by (simp add: check_dpop_def on_world_def w q e f Let_def sv1_def)
  show "next_stage demo_env sample_world demo_call (Bound demo_claims) sv1 = (Proved demo_claims demo_read ''w'', sv1)"
    by (simp add: check_proof_def on_world_def q rd pf w e g demo_proof Let_def)
  show "next_stage demo_env sample_world demo_call (Proved demo_claims demo_read ''w'') sv1 = (Fresh demo_claims demo_read ''w'', sv1)"
    by (simp add: validateProofNonce_def pf e g c demo_proof ValidateNonce_def Let_def)
      (simp add: new_session_store_def g(2) [unfolded new_session_store_def])
  show "next_stage demo_env sample_world demo_call (Fresh demo_claims demo_read ''w'') sv1 =
      (Found demo_claims demo_read ''w'' demo_record, sv1)"
    by (simp add: find_data_def on_store_def e g c any_records_def either_records_def memory_records_def mem_FindByID_def)
      (simp add: demo_record_def)
  show "desk_bounds demo_service" "desk_bounds sv1"
    by (simp_all add: desk_bounds_def f g any_room_def mem_room_def NewStore_def NewJTIStore_def)
  show "\<exists>sv2. next_stage demo_env sample_world demo_call (Found demo_claims demo_read ''w'' demo_record) sv1 =
      (Indexed demo_claims demo_read ''w'' demo_record 0, sv2) \<and> desk_bounds sv2 \<and> sv_world sv2 = zero_world"
    by (simp add: take_index_def on_store_def e g c any_status_def either_status_def memory_status_def mem_AllocateIdx_def
        NewStore_def desk_bounds_def any_room_def mem_room_def gm_put_def i64_def Let_def)
qed

lemma desk_move:
  assumes "desk_run E Q B x \<lparr>dk_service = sv, dk_stage = g(i := st), dk_ledger = L\<rparr>" and "B sv"
    and "next_stage E A (Q i) st sv = (st', sv')"
  shows "desk_run E Q B x \<lparr>dk_service = sv', dk_stage = g(i := st'), dk_ledger = remarks E i st sv @ L\<rparr>"
proof -
  let ?y = "\<lparr>dk_service = sv, dk_stage = g(i := st), dk_ledger = L\<rparr>"
  have "next_stage E A (Q i) (dk_stage ?y i) (dk_service ?y) = (st', sv')" using assms(3) by simp
  from desk_run.onward [OF assms(1) _ desk_step.move [where y = ?y and i = i and Q = Q, OF this]] assms(2) show ?thesis by simp
qed

lemma demo_desk:
  "\<exists>y cred. desk_run demo_env (\<lambda>_. demo_call) desk_bounds (open_desk demo_service) y \<and>
     Issued 0 demo_claims demo_read ''w'' demo_record 0 cred \<in> set (dk_ledger y)"
proof -
  let ?run = "\<lambda>sv st L. desk_run demo_env (\<lambda>_. demo_call) desk_bounds (open_desk demo_service)
      \<lparr>dk_service = sv, dk_stage = (\<lambda>_. Arrived)(0 := st), dk_ledger = L\<rparr>"
  let ?sv1 = "demo_service\<lparr>sv_jtis := [(''d1'', ())]\<rparr>"
  note go = desk_move [where A = sample_world and i = 0 and g = "\<lambda>_. Arrived"]
  obtain sv2 where s2: "next_stage demo_env sample_world demo_call (Found demo_claims demo_read ''w'' demo_record) ?sv1 =
      (Indexed demo_claims demo_read ''w'' demo_record 0, sv2)" "desk_bounds sv2" "sv_world sv2 = zero_world"
    using demo_stages(6) by blast
  obtain cred w' where b: "build_credential demo_env PIDConfigID ''w'' demo_record 0 zero_world = (Ok cred, w')"
    using demo_build by blast
  then have s3: "next_stage demo_env sample_world demo_call (Indexed demo_claims demo_read ''w'' demo_record 0) sv2 =
      (Built demo_claims demo_read ''w'' demo_record 0 cred, sv2\<lparr>sv_world := w'\<rparr>)"
    using s2(3) by (simp add: on_world_def demo_read_def)
  have b3: "desk_bounds (sv2\<lparr>sv_world := w'\<rparr>)" using s2(2) by (simp add: desk_bounds_def)
  let ?sv4 = "on_store_world (ro_UpdateStatus (se_records demo_env) (c_IssuanceRecordID demo_claims) ''credential_issued'')
      (sv2\<lparr>sv_world := w'\<rparr>)"
  have "any_room (fst (ro_UpdateStatus (any_records plain_store_params) i x s w)) = any_room s" for i x s w
    using issuance_store.update_status_frame [OF any_issuance_store [OF plain_store_params_ok]] by (metis prod.collapse)
  then have b4: "desk_bounds ?sv4"
    using s2(2) by (simp add: desk_bounds_def on_store_world_def demo_env_def demo_env_on_def split_beta Let_def)
  have "(\<lambda>_. Arrived)(0 := Arrived) = (\<lambda>_ :: nat. Arrived :: string stage)" by (simp add: fun_upd_idem)
  then have "?run demo_service Arrived []"
    using desk_run.opened [of demo_env "\<lambda>_. demo_call" desk_bounds "open_desk demo_service"] by (simp add: open_desk_def)
  from go [OF go [OF go [OF go [OF go [OF go [OF go [OF this demo_stages(7,1)] demo_stages(7,2)] demo_stages(8,3)]
        demo_stages(8,4)] demo_stages(8,5)] demo_stages(8) s2(1)] s2(2) s3]
  obtain L where "?run (sv2\<lparr>sv_world := w'\<rparr>) (Built demo_claims demo_read ''w'' demo_record 0 cred) L" by blast
  from go [OF go [OF this b3 next_stage.simps(8)] b4 next_stage.simps(9)]
  obtain sv5 where "?run sv5 (Returned (Ok (SuccessResponse cred))) (Issued 0 demo_claims demo_read ''w'' demo_record 0 cred # L)"
    by auto
  then show ?thesis by fastforce
qed

theorem concurrent_credentials_witness:
  "\<exists>(y :: (string, any_store, string) desk) cred. Issued 0 demo_claims demo_read ''w'' demo_record 0 cred \<in> set (dk_ledger y) \<and>
     vetted demo_env demo_call demo_claims demo_read ''w'' \<and> (\<exists>v. any_entries (sv_store (dk_service y)) ''r'' = Some (0, v))"
proof -
  obtain y cred where run: "desk_run demo_env (\<lambda>_. demo_call) desk_bounds (open_desk demo_service) y"
    "Issued 0 demo_claims demo_read ''w'' demo_record 0 cred \<in> set (dk_ledger y)" using demo_desk by blast
  have "c_IssuanceRecordID demo_claims = ''r''" by (simp add: demo_claims_def)
  with concurrent_credentials [OF plain_store_params_ok demo_any_ops(1,2) demo_invariants(1,2) run] run(2) show ?thesis by auto
qed

theorem one_credential_per_nonce_witness:
  "\<exists>y :: (string, any_store, string) desk. (\<exists>e. e \<in> set (dk_ledger y)) \<and>
     card {i. \<exists>c req k rc x cred. Issued i c req k rc x cred \<in> set (dk_ledger y) \<and>
       ProofNonce (se_jose demo_env) (ExtractProofJWT req) = Ok ''n'' \<and> c_CNonce c \<noteq> ''n''} \<le>
     count_list (dk_ledger y) (Registered ''n'')"
proof -
  obtain y cred where run: "desk_run demo_env (\<lambda>_. demo_call) desk_bounds (open_desk demo_service) y"
    "Issued 0 demo_claims demo_read ''w'' demo_record 0 cred \<in> set (dk_ledger y)" using demo_desk by blast
  have "\<not> has_nonce (sv_sessions demo_service) ''n''"
    by (simp add: demo_service_def NewService_def new_session_store_def has_nonce_def)
  with one_credential_per_nonce [OF plain_store_params_ok demo_any_ops(1,2) demo_invariants(1,2) run(1), of "''n''"] run(2) show ?thesis by auto
qed

end
