(* ===== verification/Service_Live.thy ===== *)
theory Service_Live
  imports Service_Status
begin

text \<open>
  What the service answers when nothing stands in its way: the converse of the safety facts of
  \<open>Service_Issue\<close> and \<open>Service_Status\<close> for the in-memory store. Nothing but the checks refuses a
  credential, a revocation or a status list, as long as the libraries build, encode and sign.
\<close>

section \<open>Libraries that do their work\<close>

text \<open>Claims are built, headers set and signatures made without an error.\<close>

definition signs :: "('k, 'sg) jose_out \<Rightarrow> ('k, 'sg) signing_key \<Rightarrow> bool" where
  "signs L key \<longleftrightarrow> jose_accepts L \<and> (\<forall>c. \<exists>c'. jo_build L c = Inr c') \<and>
     (\<forall>h c r. \<exists>t r'. jo_jwt_sign L (sk_signer key) h c r = (Inr t, r'))"

text \<open>The wallet's key has a public part whose JSON form can be read back.\<close>

definition key_readable :: "float_ops \<Rightarrow> ('k, 'sg) jose_out \<Rightarrow> 'k \<Rightarrow> bool" where
  "key_readable fo L k \<longleftrightarrow>
     (\<exists>pub buf m. jo_public_key L k = Inr pub \<and> jo_key_json L pub = Inr buf \<and> unmarshal_map fo buf = Some m)"

lemma jwt_sign_Ok: "signs L key \<Longrightarrow> \<exists>t r'. jo_jwt_sign L (sk_signer key) h c r = (Inr t, r')"
  by (simp add: signs_def)

lemma holder_claim_total: "key_readable fo L k \<Longrightarrow> \<exists>m. holder_claim fo L (Some k) = Ok [(''cnf'', CAny (VMap [(''jwk'', m)]))]"
  by (auto simp: key_readable_def holder_claim_def jwkToMap_def)

lemma NewDisclosure_string: "\<exists>d w'. NewDisclosure fo n (VStr v) w = (Ok d, w')"
  by (simp add: NewDisclosure_def Let_def split_beta)

lemma sd_disclose_strings:
  "\<forall>c \<in> set cs. \<exists>v. ce_value c = VStr v \<Longrightarrow> \<exists>ds w'. sd_disclose fo cs w = (Ok ds, w')"
proof (induction cs arbitrary: w)
  case (Cons c cs)
  then obtain v where v: "ce_value c = VStr v" by auto
  obtain d w1 where 1: "NewDisclosure fo (ce_name c) (VStr v) w = (Ok d, w1)"
    using NewDisclosure_string by blast
  from Cons obtain ds w2 where "sd_disclose fo cs w1 = (Ok ds, w2)" by fastforce
  with 1 v show ?case by simp
qed simp

lemma sd_Build_total:
  assumes "signs L (sb_issuerKey b)" and "sb_vct b \<noteq> []" and "\<forall>c \<in> set (sb_selectiveClaims b). \<exists>v. ce_value c = VStr v"
    and "sb_holderKey b = Some k" and "key_readable fo L k"
  shows "\<exists>out w'. sd_Build fo L b w = (Ok out, w')"
proof -
  obtain ds w1 where ds: "sd_disclose fo (sb_selectiveClaims b) w = (Ok ds, w1)"
    using sd_disclose_strings [OF assms(3)] by blast
  obtain m where m: "holder_claim fo L (Some k) = Ok [(''cnf'', CAny (VMap [(''jwk'', m)]))]"
    using holder_claim_total [OF assms(5)] by blast
  have "jose_accepts L" using assms(1) by (simp add: signs_def)
  note h = jwt_headers_accepts [OF this]
  let ?cs = "sd_claims b (fst (time_Now w1)) (map Digest ds) [(''cnf'', CAny (VMap [(''jwk'', m)]))]"
  have "\<exists>c. jo_build L ?cs = Inr c" using assms(1) unfolding signs_def by blast
  then obtain c where c: "jo_build L ?cs = Inr c" by blast
  show ?thesis
    using assms(2,4) jwt_sign_Ok [OF assms(1)]
    by (simp add: sd_Build_def ds m h c Let_def split_beta) (metis fst_conv of_sum.simps(2) st_then.simps(1))
qed

lemma selective_fold:
  "sb_selectiveClaims (foldl (\<lambda>b (name, value). SelectiveClaim name (VStr (f value)) b) b cs) =
     sb_selectiveClaims b @ map (\<lambda>(n, v). \<lparr>ce_name = n, ce_value = VStr (f v)\<rparr>) cs"
  "sb_vct (foldl (\<lambda>b (name, value). SelectiveClaim name (VStr (f value)) b) b cs) = sb_vct b"
  "sb_holderKey (foldl (\<lambda>b (name, value). SelectiveClaim name (VStr (f value)) b) b cs) = sb_holderKey b"
  "sb_issuerKey (foldl (\<lambda>b (name, value). SelectiveClaim name (VStr (f value)) b) b cs) = sb_issuerKey b"
  by (induction cs arbitrary: b) (auto simp: SelectiveClaim_def)

lemma pid_sd_builder_shape:
  "sb_vct (pid_sd_builder E wk claims sub i uri) = ''urn:eudi:pid:1''"
  "sb_holderKey (pid_sd_builder E wk claims sub i uri) = Some wk"
  "sb_issuerKey (pid_sd_builder E wk claims sub i uri) = se_issuerKey E"
  "sb_selectiveClaims (pid_sd_builder E wk claims sub i uri) =
     map (\<lambda>(n, v). \<lparr>ce_name = n, ce_value = VStr (Sprintf_v (se_float E) v)\<rparr>) (se_claim_order E claims)"
  by (simp_all add: pid_sd_builder_def Let_def PlainClaim_def selective_fold sd_X5CChain_def sd_HolderKey_def
      sd_Subject_def sd_Issuer_def sd_VCT_def sd_NewBuilder_def pidVCT_def)

lemma build_credential_sd_total:
  assumes "signs (se_out E) (se_issuerKey E)" and "key_readable (se_float E) (se_out E) wk"
    and "unmarshal_map (se_float E) (CredentialData rc) = Some m"
  shows "\<exists>cred w'. build_credential E PIDConfigID wk rc i w = (Ok cred, w')"
proof -
  have "\<exists>out w'. sd_Build (se_float E) (se_out E) (pid_sd_builder E wk claims sub i uri) v = (Ok out, w')" for claims sub uri v
    using assms(1,2) by (intro sd_Build_total [where k = wk]) (auto simp: pid_sd_builder_shape)
  then have "\<exists>out w'. buildSDJWTCredential E wk rc i (status_uri E) w = (Ok out, w')"
    by (simp add: buildSDJWTCredential_def parse_credential_data_def assms(3) split_beta Let_def)
  then show ?thesis
    by (auto simp: build_credential_def PIDConfigID_def PIDMdocConfigID_def)
qed

text \<open>For an mdoc: an encoder without failures, a signer that answers with the DER form of two numbers of
  256 bits, and a wallet key that is a point.\<close>

definition signs_digests :: "('k, 'sg) jose_out \<Rightarrow> ('k, 'sg) signing_key \<Rightarrow> bool" where
  "signs_digests L key \<longleftrightarrow> (\<forall>d rnd. \<exists>r s rnd'. r < 2 ^ 256 \<and> s < 2 ^ 256 \<and>
     jo_sign_digest L (sk_signer key) d rnd = (Inr (der_sig r s), rnd'))"

definition encodes :: "cbor_lib \<Rightarrow> bool" where
  "encodes C \<longleftrightarrow> (\<forall>v. \<exists>b. C v = Inr b)"

lemma st_then_total:
  "\<exists>x s. m = (Ok x, s) \<Longrightarrow> (\<And>x s. \<exists>y t. f x s = (Ok y, t)) \<Longrightarrow> \<exists>y t. st_then m f = (Ok y, t)"
  by auto

lemma cbor_total_pair: "encodes C \<Longrightarrow> \<exists>b t. (cbor_Marshal C v, w) = (Ok b, t)"
  by (metis encodes_def cbor_Marshal_def of_sum.simps(2))

lemma cbor_total: "encodes C \<Longrightarrow> \<exists>b. cbor_Marshal C v = Ok b"
  by (metis encodes_def cbor_Marshal_def of_sum.simps(2))

lemma raw_signature_total:
  assumes "signs_digests L key"
  shows "\<exists>b w'. signRawP1363 L X (sk_signer key) data w = (Ok b, w')"
proof -
  obtain r s rnd' where d: "r < 256 ^ 32" "s < 256 ^ 32"
    "jo_sign_digest L (sk_signer key) (sha256 data) (w_rand w) = (Inr (der_sig r s), rnd')"
    using assms unfolding signs_digests_def by fastforce
  show ?thesis
    using d(1,2) by (simp add: signRawP1363_def d(3) parse_der_sig FillBytes_def del: power_numeral)
qed

lemma cose_total:
  assumes "signs_digests L key" and "encodes C"
  shows "\<exists>b w'. signCoseSign1 L C X payload (sk_signer key) x5c w = (Ok b, w')"
  unfolding signCoseSign1_def
  by (intro st_then_total cbor_total_pair [OF assms(2)] raw_signature_total [OF assms(1)])

lemma build_items_total: "encodes C \<Longrightarrow> \<exists>nd' w'. build_items C i es nd w = (Ok nd', w')"
proof (induction es arbitrary: i nd w)
  case (Cons e es)
  obtain it w1 where 1: "buildIssuerSignedItem C i e w = (Ok it, w1)"
    using cbor_total [OF Cons.prems] by (auto simp: buildIssuerSignedItem_def Let_def split_beta)
  obtain t where 2: "cbor_Marshal C (BTag 24 (BBytes it)) = Ok t" using cbor_total [OF Cons.prems] by blast
  show ?case using Cons.IH [OF Cons.prems] by (simp add: 1 2)
qed simp

lemma mdoc_Build_total:
  assumes "signs_digests L (mb_issuerKey b)" and "encodes C" and "mb_deviceKey b = Some k"
    and "jo_ec_point L k = Some (Some x, Some y)"
  shows "\<exists>out w'. mdoc_Build L C X b w = (Ok out, w')"
proof -
  obtain nd w1 where nd: "buildNamespaceItems C (mb_elements b) w = (Ok nd, w1)"
    using build_items_total [OF assms(2)] unfolding buildNamespaceItems_def by blast
  have dk: "\<exists>dk. device_key L (mb_deviceKey b) = Ok dk"
    by (simp add: assms(3,4) device_key_def deviceKeyFromJWK_def)
  show ?thesis
    unfolding mdoc_Build_def nd st_then.simps Let_def split_beta
    by (intro st_then_total cbor_total_pair [OF assms(2)] cose_total [OF assms(1,2)]) (use dk in auto)
qed

lemma build_credential_mdoc_total:
  assumes "signs_digests (se_out E) (se_issuerKey E)" and "encodes (se_cbor E)"
    and "jo_ec_point (se_out E) wk = Some (Some x, Some y)" and "unmarshal_map (se_float E) (CredentialData rc) = Some m"
  shows "\<exists>cred w'. build_credential E PIDMdocConfigID wk rc i w = (Ok cred, w')"
proof -
  let ?b = "\<lambda>claims. pid_mdoc_builder E wk claims i (status_uri E)"
  have "\<exists>out w'. mdoc_Build (se_out E) (se_cbor E) (se_asn1_error E) (?b claims) v = (Ok out, w')" for claims v
    using assms(1-3) by (intro mdoc_Build_total [where k = wk]) (simp_all add: pid_mdoc_builder_keys)
  then have "\<exists>out w'. buildMdocCredential E wk rc i (status_uri E) w = (Ok out, w')"
    unfolding buildMdocCredential_def parse_credential_data_def assms(4) of_option.simps then_ok.simps st_then.simps
      BuildBase64URL_def by (intro st_then_total) auto
  then show ?thesis by (auto simp: build_credential_def)
qed

text \<open>What the chosen format needs of the libraries.\<close>

definition can_build :: "('k, 'ks, 'sg, 's) service_env \<Rightarrow> string \<Rightarrow> 'k \<Rightarrow> bool" where
  "can_build E cfg wk \<longleftrightarrow>
     (if cfg = PIDMdocConfigID
      then signs_digests (se_out E) (se_issuerKey E) \<and> encodes (se_cbor E) \<and>
        (\<exists>x y. jo_ec_point (se_out E) wk = Some (Some x, Some y))
      else signs (se_out E) (se_issuerKey E) \<and> key_readable (se_float E) (se_out E) wk)"

lemma build_credential_complete:
  assumes "can_build E cfg wk" and "cfg \<in> {PIDConfigID, PIDMdocConfigID}"
    and "unmarshal_map (se_float E) (CredentialData rc) = Some m"
  shows "\<exists>cred w'. build_credential E cfg wk rc i w = (Ok cred, w')"
proof (cases "cfg = PIDMdocConfigID")
  case True
  with assms(1) show ?thesis using build_credential_mdoc_total [OF _ _ _ assms(3)] by (auto simp: can_build_def)
next
  case False
  with assms(1,2) show ?thesis using build_credential_sd_total [OF _ _ assms(3)] by (simp add: can_build_def)
qed

section \<open>Authorization\<close>

lemma authorize_complete:
  assumes "authorized E A (w_clock (sv_world sv) 0) tok dp ep sv claims jti"
  shows "\<exists>v. authorize E A tok dp ep msg sv = (Ok claims, sv\<lparr>sv_tokens := v,
    sv_jtis := snd (jti_Accept (se_jti_order E) jti (sv_jtis sv)), sv_world := snd (time_Now (sv_world sv))\<rparr>)"
proof -
  from assms obtain k tp where t: "token_ok (se_float E) (se_jose E) A (sv_tokens sv) tok claims"
    and d: "dpop_proof_ok (se_url E) (se_jose E) (w_clock (sv_world sv) 0) dp ''POST'' (se_baseURL E @ ep)
      (ComputeATH tok) (sv_jtis sv) k jti" and b: "jwk_thumbprint (se_jose E) k = Inr tp" "c_JKT claims = b64url tp"
    by (auto simp: authorized_def)
  obtain v where "Verify (se_float E) (se_jose E) A tok (sv_tokens sv) = (Ok claims, v)"
    using t Verify_Ok_iff by (metis prod.collapse)
  moreover have "ValidateDPoPProof (se_url E) (se_jose E) (se_jti_order E) (w_clock (sv_world sv) 0) dp ''POST''
      (se_baseURL E @ ep) (ComputeATH tok) (sv_jtis sv) = (Ok k, snd (jti_Accept (se_jti_order E) jti (sv_jtis sv)))"
    using d unfolding ValidateDPoPProof_Ok_iff by blast
  moreover have "requireBoundThumbprint (se_jose E) (c_JKT claims) k msg = Ok ()"
    using b unfolding requireBoundThumbprint_Ok by blast
  ultimately show ?thesis
    by (intro exI [of _ v]) (simp add: authorize_def on_world_def Let_def time_Now_def)
qed

section \<open>Issuing\<close>

text \<open>The store of a service that runs without a database, with an identified record in it.\<close>

definition on_memory :: "store_params \<Rightarrow> ('k, 'ks, 'sg, any_store) service_env \<Rightarrow> bool" where
  "on_memory sp E \<longleftrightarrow> se_records E = any_records sp \<and> se_status E = any_status sp"

lemma memory_calls:
  assumes "on_memory sp E"
  shows "ro_FindByID (se_records E) i (Inl ms) = (gm_get (mem_records ms) i, Inl ms)"
    "so_AllocateIdx (se_status E) i (Inl ms) = (fst (mem_AllocateIdx i ms), Inl (snd (mem_AllocateIdx i ms)))"
    "ro_UpdateStatus (se_records E) i x (Inl ms) w = (Inl (fst (mem_UpdateStatus i x ms w)), snd (mem_UpdateStatus i x ms w))"
    "so_FindByRecordID (se_status E) i (Inl ms) = (fst (mem_FindByRecordID i ms), Inl ms)"
    "so_SetStatus (se_status E) i v (Inl ms) = (fst (mem_SetStatus i v ms), Inl (snd (mem_SetStatus i v ms)))"
    "so_AllEntries (se_status E) (Inl ms) = (fst (mem_AllEntries ms), Inl ms)"
  using assms
  by (simp_all add: on_memory_def any_records_def any_status_def either_records_def either_status_def memory_records_def
      memory_status_def mem_FindByID_def mem_FindByRecordID_def mem_AllEntries_def split_beta Let_def split: option.split)

lemma mem_allocates: "\<exists>i. fst (mem_AllocateIdx r ms) = Ok i \<and> gm_get (statusByRecID (snd (mem_AllocateIdx r ms))) r = Some i"
  by (cases "gm_get (statusByRecID ms) r") (simp_all add: mem_alloc_cases)

lemma mem_update_status_hit:
  assumes "gm_get (mem_records ms) i = Some rc"
  shows "\<exists>now. gm_get (mem_records (fst (mem_UpdateStatus i x ms w))) i = Some (rc\<lparr>rec_Status := x, UpdatedAt := now\<rparr>)"
  using assms by (auto simp: mem_UpdateStatus_def mem_mutate_def set_status_def split_beta Let_def)

lemma mem_alloc_records: "mem_records (snd (mem_AllocateIdx r ms)) = mem_records ms"
  by (simp add: mem_AllocateIdx_def Let_def split: option.split)

lemma mem_update_list: "statusByRecID (fst (mem_UpdateStatus i x ms w)) = statusByRecID ms"
  by (simp add: mem_UpdateStatus_def mem_mutate_def split_beta Let_def split: option.split)

lemma issue_complete:
  assumes env: "on_memory sp E" and store: "sv_store sv = Inl ms"
    and au: "authorized E A (w_clock (sv_world sv) 0) tok dp ''/oid4vci/v1/credential'' sv claims jti"
    and req: "request_ok E body req"
    and pf: "ExtractProofJWT req \<noteq> []" "proof_ok (se_jose E) (w_clock (sv_world sv) 1) (ExtractProofJWT req) (se_baseURL E) wk"
    and n: "fresh_nonce E (ExtractProofJWT req) (c_CNonce claims) (sv_sessions sv) n"
    and rid: "c_IssuanceRecordID claims = rid" "rid \<noteq> []"
    and rc: "gm_get (mem_records ms) rid = Some rc" "CredentialData rc \<notin> {[], ''{}''}"
      "unmarshal_map (se_float E) (CredentialData rc) = Some m"
    and libs: "can_build E (rq_configuration_id req) wk"
  shows "\<exists>cred sv' ms' i rc'. IssueCredential E A tok dp body sv = (Ok (SuccessResponse cred), sv') \<and> sv_store sv' = Inl ms' \<and>
    gm_get (mem_records ms') rid = Some rc' \<and> rec_Status rc' = ''credential_issued'' \<and> CredentialData rc' = CredentialData rc \<and>
    gm_get (statusByRecID ms') rid = Some i"
proof -
  let ?pf = "ExtractProofJWT req"
  obtain v where a: "authorize E A tok dp ''/oid4vci/v1/credential'' ''DPoP key mismatch'' sv =
      (Ok claims, sv\<lparr>sv_tokens := v, sv_jtis := snd (jti_Accept (se_jti_order E) jti (sv_jtis sv)),
         sv_world := snd (time_Now (sv_world sv))\<rparr>)" (is "_ = (_, ?sva)")
    using authorize_complete [OF au] by blast
  have r: "read_request E body = Ok req" using req by (simp add: read_request_Ok)
  let ?now = "fst (time_Now (sv_world ?sva))" and ?svb = "?sva\<lparr>sv_world := snd (time_Now (sv_world ?sva))\<rparr>"
  have p: "ValidateProofJWT (se_jose E) ?now ?pf (se_baseURL E) = Ok wk"
    using pf(2) by (simp add: ValidateProofJWT_Ok_iff time_Now_def)
  have "\<exists>svc. validateProofNonce E ?pf (c_CNonce claims) ?svb = (Ok (), svc) \<and> sv_store svc = Inl ms"
    using n store unfolding validateProofNonce_Ok by auto
  then obtain svc where c: "validateProofNonce E ?pf (c_CNonce claims) ?svb = (Ok (), svc)" "sv_store svc = Inl ms"
    by blast
  obtain i where i: "fst (mem_AllocateIdx rid ms) = Ok i" "gm_get (statusByRecID (snd (mem_AllocateIdx rid ms))) rid = Some i"
    using mem_allocates by blast
  let ?ms1 = "snd (mem_AllocateIdx rid ms)"
  have "rq_configuration_id req \<in> {PIDConfigID, PIDMdocConfigID}"
    using req by (simp add: request_ok_def PIDConfigID_def PIDMdocConfigID_def)
  then obtain cred w' where b: "build_credential E (rq_configuration_id req) wk rc i (sv_world svc) = (Ok cred, w')"
    using build_credential_complete [OF libs _ rc(3)] by blast
  have "gm_get (mem_records ?ms1) rid = Some rc" using rc(1) by (simp add: mem_alloc_records)
  from mem_update_status_hit [OF this] obtain now where
    u: "gm_get (mem_records (fst (mem_UpdateStatus rid ''credential_issued'' ?ms1 w'))) rid =
      Some (rc\<lparr>rec_Status := ''credential_issued'', UpdatedAt := now\<rparr>)" by blast
  have "\<exists>sv'. IssueCredential E A tok dp body sv = (Ok (SuccessResponse cred), sv') \<and>
      sv_store sv' = Inl (fst (mem_UpdateStatus rid ''credential_issued'' ?ms1 w'))"
    using pf(1) rid(2) rc(2) p c
    by (simp add: IssueCredential_def a r rid(1) on_world_def on_store_def on_store_world_def memory_calls [OF env]
        rc(1) i(1) b split_beta Let_def)
  with u i(2) show ?thesis by (auto simp: mem_update_list)
qed


section \<open>Revoking and publishing\<close>

lemma revoke_complete:
  assumes env: "on_memory sp E" and store: "sv_store sv = Inl ms"
    and rc: "gm_get (mem_records ms) rid = Some rc" "rec_Status rc = ''credential_issued''"
    and i: "gm_get (statusByRecID ms) rid = Some i"
  shows "RevokeCredential E rid sv =
    (Ok (), sv\<lparr>sv_store := Inl (snd (mem_SetStatus rid StatusInvalid ms)), sv_cacheToken := []\<rparr>)"
  by (simp add: RevokeCredential_def revocable_def mark_invalid_def drop_cache_def on_store_def memory_calls [OF env] store rc i
      mem_FindByRecordID_def mem_SetStatus_def Let_def)

lemma Build_status_list_total:
  assumes "iterates it" and "small_list m" and "signs L key"
  shows "\<exists>tok w'. Build_status_list L Z it m (size_of_entries (it m)) uri key w = (Ok tok, w')"
proof -
  note b = small_list_size [OF assms(2,1)]
  have "gm_wf m" using assms(2) by (simp add: small_list_def)
  then obtain raw where raw: "packBitstring it m (size_of_entries (it m)) = Ok raw"
    using packBitstring_Ok [OF assms(1) _ b(1,2)] by metis
  have "jose_accepts L" using assms(3) by (simp add: signs_def)
  note h = jwt_headers_accepts [OF this]
  have "\<exists>c'. jo_build L c = Inr c'" for c using assms(3) by (simp add: signs_def)
  then obtain c where c: "jo_build L (status_claims uri (fst (time_Now w)) (compressAndEncode Z raw)) = Inr c" by blast
  show ?thesis
    using jwt_sign_Ok [OF assms(3)]
    by (simp add: Build_status_list_def raw h c Let_def split_beta) (metis fst_conv of_sum.simps(2))
qed

lemma sign_entries_total:
  assumes "iterates (se_entry_order E)" and "small_list m" and "signs (se_out E) (se_issuerKey E)"
  shows "\<exists>tok sv'. sign_entries E m sv = (Ok tok, sv')"
  using Build_status_list_total [OF assms]
  by (auto simp: sign_entries_def on_world_def Let_def split_beta) (metis fst_conv map_err.simps(1) st_then.simps(1))

lemma status_list_complete:
  assumes env: "on_memory sp E" and store: "sv_store sv = Inl ms"
    and ok: "mem_sane ms" "fits (mem_entries ms)"
    and libs: "iterates (se_entry_order E)" "signs (se_out E) (se_issuerKey E)"
  shows "\<exists>tok sv'. GetStatusListToken E ''pid'' sv = (Ok tok, sv')"
proof (cases "cached_token sv")
  case (Pair hit sva)
  show ?thesis
  proof (cases hit)
    case (Some t)
    then show ?thesis by (simp add: GetStatusListToken_def statusListID_def Pair)
  next
    case None
    have st: "sv_store sva = Inl ms" using cached_token_state(1) [of sv] store by (simp add: Pair)
    obtain m where m: "mem_AllEntries ms = (Ok m, ms)" using mem_all_entries [OF ok(1)] by blast
    have "so_AllEntries memory_status ms = (Ok m, ms)" using m by (simp add: memory_status_def)
    from memory.entries_small(1) [OF ok this] have "small_list m" .
    then show ?thesis
      using sign_entries_total [OF libs(1) _ libs(2)]
      by (simp add: GetStatusListToken_def statusListID_def Pair None load_entries_def on_store_def memory_calls [OF env] st m)
  qed
qed


section \<open>The nonce of a token\<close>

text \<open>C9 (error): the nonce the authorization server put into an access token is never used up. After a
  credential was issued that nonce is registered nowhere, and still, later, in any state with the
  store and the sessions the first request left, the very same key proof is accepted again: with an
  access token that carries the nonce and another DPoP proof, a second credential is issued for as
  long as the key proof is recent.\<close>

theorem key_proof_reusable:
  assumes "on_memory sp E" and "IssueCredential E A tok dp body sv = (Ok resp, sv')"
    and "unmarshal_request (se_float E) body = Some req" and "ExtractProofJWT req \<noteq> []"
    and "ProofNonce (se_jose E) (ExtractProofJWT req) = Ok (c_CNonce claims)" and "c_CNonce claims \<noteq> []"
    and "sv_store sv2 = sv_store sv'" and "sv_sessions sv2 = sv_sessions sv'" and "sv_store sv' = Inl ms"
    and "authorized E A2 (w_clock (sv_world sv2) 0) tok2 dp2 ''/oid4vci/v1/credential'' sv2 claims jti"
    and "proof_ok (se_jose E) (w_clock (sv_world sv2) 1) (ExtractProofJWT req) (se_baseURL E) wk"
    and "c_IssuanceRecordID claims = rid" and "rid \<noteq> []" and "mem_table ms rid = Some rc"
    and "CredentialData rc \<notin> {[], ''{}''}" and "unmarshal_map (se_float E) (CredentialData rc) = Some m"
    and "can_build E (rq_configuration_id req) wk"
  shows "\<not> has_nonce (sv_sessions sv2) (c_CNonce claims) \<and>
    (\<exists>cred sv3. IssueCredential E A2 tok2 dp2 body sv2 = (Ok (SuccessResponse cred), sv3))"
proof (rule IssueCredential_Ok [OF assms(2)], goal_cases)
  case (1 claims1 jti1 req1 wk1 n)
  have "req1 = req" using 1(2) assms(3) by (simp add: request_ok_def)
  with 1(2,4) assms(5) have "request_ok E body req" and n: "n = c_CNonce claims" by (simp_all add: fresh_nonce_def)
  moreover have "fresh_nonce E (ExtractProofJWT req) (c_CNonce claims) (sv_sessions sv2) (c_CNonce claims)"
    using assms(5,6) by (simp add: fresh_nonce_def)
  moreover have "\<not> has_nonce (sv_sessions sv2) (c_CNonce claims)"
    using 1(12) by (simp add: assms(8) n ValidateNonce_def InvalidateNonce_def has_nonce_def split: option.splits)
  ultimately show ?thesis
    using issue_complete [OF assms(1) _ assms(10) _ assms(4,11) _ assms(12,13) _ assms(15-17), of ms body]
      assms(7,9,14) by (simp add: mem_table_def) blast
qed

text \<open>A wallet with one key proof and two DPoP proofs.\<close>

lemma demo_can_build: "can_build demo_env cfg wk"
proof -
  have d: "jo_sign_digest plain_jose_out sg d rnd = (Inr (der_sig 1 2), rnd)" for sg d rnd
    by (simp add: plain_jose_out_def der_sig_1_2 [unfolded One_nat_def])
  have lt: "(1 :: nat) < 2 ^ 256" "(2 :: nat) < 2 ^ 256" by simp_all
  have 1: "signs_digests plain_jose_out key" for key
    unfolding signs_digests_def d using lt by blast
  have 2: "signs plain_jose_out key" "key_readable demo_fo plain_jose_out wk" for key
    unfolding signs_def key_readable_def using plain_jose_out_accepts demo_empty by (auto simp: plain_jose_out_def)
  show ?thesis
    using 1 2 by (simp add: can_build_def encodes_def demo_env_def demo_env_on_def) (simp add: plain_jose_out_def)
qed

definition second_dpop :: jwt_token where
  "second_dpop = dpop_token\<lparr>tok_jti := Some ''d2'', tok_string := (tok_string dpop_token)(''jti'' \<mapsto> ''d2'')\<rparr>"

definition two_proofs_jose :: "(string, string) jose" where
  "two_proofs_jose = table_jose
     [(''t'', \<lparr>h_typ = Some ''at+jwt'', h_alg = None, h_jwk = None, h_x5c = False, h_kid = None\<rparr>),
      (''d'', demo_headers ''dpop+jwt'' ''k''), (''d2'', demo_headers ''dpop+jwt'' ''k''),
      (''p'', demo_headers ''openid4vci-proof+jwt'' ''w'')]
     [(''t'', access_token), (''d'', dpop_token), (''d2'', second_dpop), (''p'', proof_token)]"

abbreviation two_proofs_env :: "(string, string, string, any_store) service_env" where
  "two_proofs_env \<equiv> demo_env\<lparr>se_jose := two_proofs_jose\<rparr>"

lemma two_proofs_authorized:
  assumes "\<not> jti_seen (sv_jtis sv) jti" and "sv_tokens sv = sample_verifier"
    and "dp = ''d'' \<and> jti = ''d1'' \<or> dp = ''d2'' \<and> jti = ''d2''"
  shows "authorized two_proofs_env sample_world 0 ''t'' dp ''/oid4vci/v1/credential'' sv demo_claims jti"
proof -
  have ne: "bytes_of ''k'' \<noteq> []" by (simp add: bytes_of_def)
  have "token_ok demo_fo two_proofs_jose sample_world sample_verifier ''t'' demo_claims"
    by (auto simp: token_ok_def two_proofs_jose_def table_jose_def keySet_def denylist_used_def access_token_def demo_claims_def
        get_or_empty_def ne sample_verifier_def sample_world_def NewVerifier_def second_def)
  moreover have "dpop_proof_ok (\<lambda>_. None) two_proofs_jose 0 dp ''POST'' (demo_base @ ''/oid4vci/v1/credential'')
      (ComputeATH ''t'') (sv_jtis sv) ''k'' jti"
    using assms(1,3) by (auto simp: dpop_proof_ok_def two_proofs_jose_def table_jose_def demo_headers_def dpop_token_def
        second_dpop_def get_or_empty_def htuMatches_refl)
  ultimately show ?thesis
    using assms(2) by (auto simp: authorized_def demo_env_def demo_env_on_def two_proofs_jose_def table_jose_def demo_claims_def)
qed

lemma two_proofs_libs:
  "can_build two_proofs_env ''urn:eudi:pid:1'' wk" "proof_ok two_proofs_jose 0 ''p'' demo_base ''w''"
  "ProofNonce two_proofs_jose ''p'' = Ok (c_CNonce demo_claims)" "on_memory plain_store_params two_proofs_env"
  using demo_can_build [of "''urn:eudi:pid:1''" wk]
  by (auto simp: can_build_def proof_ok_def ProofNonce_def two_proofs_jose_def table_jose_def demo_headers_def proof_token_def
      demo_claims_def on_memory_def demo_env_def demo_env_on_def)

theorem key_proof_reusable_witness:
  "\<exists>r1 sv' r2 sv3. IssueCredential two_proofs_env sample_world ''t'' ''d'' demo_body demo_service = (Ok r1, sv') \<and>
     IssueCredential two_proofs_env sample_world ''t'' ''d2'' demo_body
       (demo_service\<lparr>sv_store := sv_store sv', sv_sessions := sv_sessions sv', sv_jtis := sv_jtis sv'\<rparr>) = (Ok r2, sv3)"
proof -
  let ?E = two_proofs_env and ?ms = "NewStore\<lparr>mem_records := [(''r'', demo_record)]\<rparr>"
  let ?req = "zero_request\<lparr>rq_configuration_id := ''urn:eudi:pid:1'', rq_proof := Some \<lparr>pf_type = ''jwt'', pf_jwt = ''p''\<rparr>\<rparr>"
  have j: "se_jose ?E = two_proofs_jose" "se_baseURL ?E = demo_base" "se_float ?E = demo_fo" "se_jti_order ?E = (\<lambda>xs. xs)"
    by (simp_all add: demo_env_def demo_env_on_def)
  have st: "sv_store demo_service = Inl ?ms" "w_clock (sv_world demo_service) k = 0" "sv_jtis demo_service = []"
    "sv_tokens demo_service = sample_verifier" for k
    by (simp_all add: demo_service_def NewService_def zero_world_def NewJTIStore_def)
  have pf: "ExtractProofJWT ?req = ''p''" by (simp add: ExtractProofJWT_def zero_request_def)
  have r: "request_ok ?E demo_body ?req" by (simp add: request_ok_def j demo_request zero_request_def)
  have u: "unmarshal_request (se_float ?E) demo_body = Some ?req" by (simp add: j demo_request)
  have cl: "c_IssuanceRecordID demo_claims = ''r''" "c_CNonce demo_claims \<noteq> []" "''r'' \<noteq> ([] :: string)"
    "CredentialData demo_record \<notin> {[], ''{}''}" "gm_get (mem_records ?ms) ''r'' = Some demo_record"
    "unmarshal_map demo_fo (CredentialData demo_record) = Some (Some [(''a'', JStr ''b'')])"
    using demo_data [of demo_fo] by (simp_all add: demo_claims_def demo_record_def)
  have b: "can_build ?E (rq_configuration_id ?req) wk" for wk using two_proofs_libs(1) by simp
  have a1: "authorized ?E sample_world 0 ''t'' ''d'' ''/oid4vci/v1/credential'' demo_service demo_claims ''d1''"
    by (rule two_proofs_authorized) (simp_all add: st jti_seen_def)
  have n1: "fresh_nonce ?E ''p'' (c_CNonce demo_claims) (sv_sessions demo_service) (c_CNonce demo_claims)"
    using cl(2) two_proofs_libs(3) by (simp add: fresh_nonce_def j)
  from issue_complete [OF two_proofs_libs(4) st(1), unfolded st j, OF a1 r, unfolded pf, OF _ two_proofs_libs(2) n1 cl(1,3,5,4,6) b]
  obtain cred sv' ms' rc' where run: "IssueCredential ?E sample_world ''t'' ''d'' demo_body demo_service =
      (Ok (SuccessResponse cred), sv')" "sv_store sv' = Inl ms'" "gm_get (mem_records ms') ''r'' = Some rc'"
    "CredentialData rc' = CredentialData demo_record" by auto
  have jt: "sv_jtis sv' = [(''d1'', ())]"
  proof (rule IssueCredential_Ok [OF run(1)], goal_cases)
    case (1 claims jti)
    then have "jti = ''d1''"
      by (auto simp: authorized_def j dpop_proof_ok_def two_proofs_jose_def table_jose_def dpop_token_def get_or_empty_def)
    with 1(13) show ?case by (simp add: st j jti_Accept_def jtiStoreMaxSize_def gm_put_def)
  qed
  let ?sv2 = "demo_service\<lparr>sv_store := sv_store sv', sv_sessions := sv_sessions sv', sv_jtis := sv_jtis sv'\<rparr>"
  have a2: "authorized ?E sample_world (w_clock (sv_world ?sv2) 0) ''t'' ''d2'' ''/oid4vci/v1/credential'' ?sv2 demo_claims ''d2''"
    using two_proofs_authorized [of ?sv2 "''d2''" "''d2''"] by (simp add: st jt jti_seen_def)
  have p2: "proof_ok (se_jose ?E) (w_clock (sv_world ?sv2) 1) (ExtractProofJWT ?req) (se_baseURL ?E) ''w''"
    using two_proofs_libs(2) by (simp add: st j pf)
  have t2: "mem_table ms' ''r'' = Some rc'" "CredentialData rc' \<notin> {[], ''{}''}"
    "unmarshal_map (se_float ?E) (CredentialData rc') = Some (Some [(''a'', JStr ''b'')])"
    using run(3,4) cl(4,6) by (simp_all add: mem_table_def j)
  have n2: "ProofNonce (se_jose ?E) (ExtractProofJWT ?req) = Ok (c_CNonce demo_claims)" "ExtractProofJWT ?req \<noteq> []"
    using two_proofs_libs(3) by (simp_all add: j pf)
  from key_proof_reusable [OF two_proofs_libs(4) run(1) u n2(2,1) cl(2) _ _ run(2) a2 p2 cl(1,3) t2 b] run(1)
  show ?thesis by auto
qed

end
