(* ===== verification/Listing.thy ===== *)
theory Listing
  imports Service_Props Go_Time
begin

text \<open>
  \<open>internal/issuance/list.go\<close>: the paginated listing of issuance records. Page arithmetic is 64-bit and
  wraps; the in-memory store slices with the offset it is given, so a page whose offset wraps to a
  negative number panics. The order of a page is proved for the sizes where \<open>sort.Slice\<close> is the
  insertion sort modelled in \<open>Memory_Store\<close>.
\<close>

section \<open>The handler\<close>

record record_view =
  vw_id :: string
  vw_credential_type :: string
  vw_status :: string
  vw_source_type :: string
  vw_source_ref :: string
  vw_created_at :: string
  vw_updated_at :: string
  vw_subject_name :: string
  vw_credential_data :: string
  vw_credential_status :: string

record list_result =
  lr_records :: "record_view list"
  lr_total :: int
  lr_page :: int
  lr_size :: int

definition string_member :: "(string, f64 json) gomap \<Rightarrow> string \<Rightarrow> string" where
  "string_member m k = (case gm_get m k of Some (JStr s) \<Rightarrow> s | _ \<Rightarrow> [])"

definition extractSubjectName :: "float_ops \<Rightarrow> string \<Rightarrow> string" where
  "extractSubjectName fo credentialDataJSON =
     (case unmarshal_map fo credentialDataJSON of
        None \<Rightarrow> []
      | Some m \<Rightarrow>
          let data = (case m of None \<Rightarrow> [] | Some ms \<Rightarrow> ms);
              given = string_member data ''given_name''; family = string_member data ''family_name''
          in if given \<noteq> [] \<and> family \<noteq> [] then given @ '' '' @ family
             else if given \<noteq> [] then given
             else if family \<noteq> [] then family
             else [])"

definition status_label :: "byte \<Rightarrow> string" where
  "status_label v =
     (if v = StatusValid then ''valid'' else if v = StatusInvalid then ''revoked''
      else if v = StatusSuspended then ''suspended'' else [])"

definition credentialStatusLabel ::
  "('k, 'ks, 'sg, 's) service_env \<Rightarrow> string \<Rightarrow> ('s, 'ks) service \<Rightarrow> string \<times> ('s, 'ks) service" where
  "credentialStatusLabel E recordID sv =
     (case on_store (so_FindByRecordID (se_status E) recordID) sv of
        (None, sv) \<Rightarrow> ([], sv)
      | (Some (_, v), sv) \<Rightarrow> (status_label v, sv))"

definition record_row :: "float_ops \<Rightarrow> issuance_record \<Rightarrow> string \<Rightarrow> record_view" where
  "record_row fo rc label =
     \<lparr>vw_id = rec_ID rc, vw_credential_type = CredentialType rc, vw_status = rec_Status rc,
      vw_source_type = SourceType rc, vw_source_ref = SourceRef rc,
      vw_created_at = format_millis (CreatedAt rc), vw_updated_at = format_millis (UpdatedAt rc),
      vw_subject_name = extractSubjectName fo (CredentialData rc),
      vw_credential_data = CredentialData rc, vw_credential_status = label\<rparr>"

fun build_views ::
  "('k, 'ks, 'sg, 's) service_env \<Rightarrow> issuance_record list \<Rightarrow> ('s, 'ks) service \<Rightarrow>
   record_view list \<times> ('s, 'ks) service" where
  "build_views E [] sv = ([], sv)"
| "build_views E (rc # rcs) sv =
     (let (label, sv) = credentialStatusLabel E (rec_ID rc) sv;
          (vs, sv) = build_views E rcs sv
      in (record_row (se_float E) rc label # vs, sv))"

definition ListIssuanceRecords ::
  "('k, 'ks, 'sg, 's) service_env \<Rightarrow> int \<Rightarrow> int \<Rightarrow> string \<Rightarrow> string \<Rightarrow> ('s, 'ks) service \<Rightarrow>
   list_result result \<times> ('s, 'ks) service" where
  "ListIssuanceRecords E page0 size0 srt ord sv0 =
     (let page = (if page0 < 1 then 1 else page0);
          sz = (if size0 < 1 then 20 else size0);
          offset = i64 (i64 (page - 1) * sz)
      in st_then (on_store (ro_FindAll (se_records E) offset sz srt ord) sv0) (\<lambda>(records, n) sv.
         let (views, sv) = build_views E records sv
         in (Ok \<lparr>lr_records = views, lr_total = n, lr_page = page, lr_size = sz\<rparr>, sv)))"

section \<open>Sorting\<close>

text \<open>What insertion needs of the comparison for the result to be ordered by \<open>R\<close>.\<close>

lemma insert_back_sorted:
  assumes "\<And>a b. \<not> lt a b \<Longrightarrow> R b a" and "\<And>a b. lt a b \<Longrightarrow> R a b" and "\<And>a b c. R a b \<Longrightarrow> R b c \<Longrightarrow> R a c"
    and "sorted_wrt (\<lambda>a b. R b a) ys"
  shows "sorted_wrt (\<lambda>a b. R b a) (insert_back lt x ys)"
  using assms(4)
proof (induction ys)
  case (Cons y ys)
  have mem: "set (insert_back lt x ys) = insert x (set ys)" for ys
    using insert_back_mset [of lt x ys] by (metis set_mset_add_mset_insert set_mset_mset)
  show ?case
  proof (cases "lt x y")
    case True
    then show ?thesis using Cons assms(2) by (auto simp: mem)
  next
    case False
    then have "R y x" by (rule assms(1))
    then show ?thesis using False Cons.prems assms(3) by auto
  qed
qed simp

lemma insertion_sort_sorted:
  assumes "\<And>a b. \<not> lt a b \<Longrightarrow> R b a" and "\<And>a b. lt a b \<Longrightarrow> R a b" and "\<And>a b c. R a b \<Longrightarrow> R b c \<Longrightarrow> R a c"
  shows "sorted_wrt R (insertion_sort lt xs)"
proof -
  have "sorted_wrt (\<lambda>a b. R b a) (foldl (\<lambda>acc x. insert_back lt x acc) acc xs)"
    if "sorted_wrt (\<lambda>a b. R b a) acc" for acc
    using that
  proof (induction xs arbitrary: acc)
    case (Cons x xs)
    then show ?case using insert_back_sorted [of lt R acc x, OF assms] by simp
  qed simp
  from this [of "[]"] show ?thesis by (simp add: insertion_sort_def sorted_wrt_rev)
qed

text \<open>\<open>in_order f ord a b\<close>: \<open>a\<close> may come before \<open>b\<close> when sorting by \<open>f\<close> in this direction.\<close>

definition in_order :: "string \<Rightarrow> string \<Rightarrow> issuance_record \<Rightarrow> issuance_record \<Rightarrow> bool" where
  "in_order f ord a b = (if ord = ''asc'' then \<not> sortLess b a f else \<not> sortLess a b f)"

lemma sortLess_total:
  "sortLess a b f \<Longrightarrow> \<not> sortLess b a f"
  "\<not> sortLess b a f \<Longrightarrow> \<not> sortLess c b f \<Longrightarrow> \<not> sortLess c a f"
  by (auto simp: sortLess_def split: if_splits)

lemma find_all_sorted: "ord \<in> {''asc'', ''desc''} \<Longrightarrow>
    sorted_wrt (in_order f ord) (insertion_sort (find_all_less f ord) xs)"
  by (rule insertion_sort_sorted)
    (auto simp: in_order_def find_all_less_def split: if_splits dest: sortLess_total(1) sortLess_total(2))

section \<open>Pages of the in-memory store\<close>

text \<open>The label shown for a record: the status of its list entry.\<close>

definition label_of :: "memory_store \<Rightarrow> string \<Rightarrow> string" where
  "label_of s i = (case mem_entries s i of None \<Rightarrow> [] | Some (_, v) \<Rightarrow> status_label v)"

definition memory_env ::
  "('k, 'ks, 'sg, memory_store) service_env \<Rightarrow> (string \<times> issuance_record) iteration \<Rightarrow> issuance_record big_sort \<Rightarrow>
   ('k, 'ks, 'sg, memory_store) service_env" where
  "memory_env E it big = E\<lparr>se_records := memory_records it big, se_status := memory_status\<rparr>"

lemma memory_env_simps [simp]:
  "se_records (memory_env E it big) = memory_records it big" "se_status (memory_env E it big) = memory_status"
  "se_float (memory_env E it big) = se_float E"
  by (simp_all add: memory_env_def)

lemma memory_label:
  "credentialStatusLabel (memory_env E it big) i sv = (label_of (sv_store sv) i, sv)"
  by (simp add: credentialStatusLabel_def on_store_def memory_status_def mem_FindByRecordID_def label_of_def
      mem_entries_def split: option.split)

lemma memory_views:
  "build_views (memory_env E it big) rcs sv =
   (map (\<lambda>rc. record_row (se_float E) rc (label_of (sv_store sv) (rec_ID rc))) rcs, sv)"
  by (induction rcs) (simp_all add: memory_label)

lemma length_listing:
  assumes "rearranges big" and "iterates it"
  shows "length (listing it big f ord s) = length (mem_records s)"
proof -
  have "mset (listing it big f ord s) = mset (map snd (it (mem_records s)))"
    using assms(1) by (simp add: listing_def Let_def sort_Slice_mset)
  then show ?thesis using assms(2) by (metis iterates_length length_map size_mset)
qed

lemma page_slice:
  assumes len: "length (listing it big f ord s) = length (mem_records s)"
    and "0 \<le> offset" and "0 < limit" and "offset + limit < 2 ^ 63"
  shows "mem_FindAll it big offset limit f ord s =
    (Ok (take (nat limit) (drop (nat offset) (listing it big f ord s)), int (length (mem_records s))), s)"
proof -
  let ?n = "int (length (mem_records s))" and ?xs = "listing it big f ord s"
  have e: "i64 (offset + limit) = offset + limit" using assms(2-4) by (simp add: in_i64_def)
  show ?thesis
  proof (cases "?n \<le> offset")
    case True
    then show ?thesis using len by (simp add: mem_FindAll_def Let_def)
  next
    case False
    then have "go_slice ?xs offset (if ?n < offset + limit then ?n else offset + limit) =
        (Ok (take (nat limit) (drop (nat offset) ?xs)) :: (go_error, _) outcome)"
      using assms(2,3) len by (auto simp: go_slice_def min_def nat_add_distrib)
    with False len show ?thesis by (simp add: mem_FindAll_def Let_def e split del: if_split cong: if_cong)
  qed
qed

lemma i64_sum:
  assumes "in_i64 a" and "0 < n" and "in_i64 n"
  shows "i64 (a + n) = (if 2 ^ 63 \<le> a + n then a + n - 2 ^ 64 else a + n)"
proof (cases "2 ^ 63 \<le> a + n")
  case True
  have "(a + n + 2 ^ 63) mod 2 ^ 64 = (a + n + 2 ^ 63 - 2 ^ 64) mod (2 ^ 64 :: int)" by (simp only: minus_mod_self2)
  also have "\<dots> = a + n + 2 ^ 63 - 2 ^ 64"
    using True assms by (intro mod_pos_pos_trivial) (simp_all add: in_i64_def)
  finally show ?thesis using True by (simp add: i64_def)
next
  case False
  then show ?thesis using assms by (simp add: in_i64_def)
qed

lemma find_all_panics:
  assumes "length (listing it big f ord s) = length (mem_records s)" and "in_i64 offset" and "0 < n" and "in_i64 n"
  shows "(\<exists>p. fst (mem_FindAll it big offset n f ord s) = Panic p) \<longleftrightarrow>
    offset < 0 \<or> offset < int (length (mem_records s)) \<and> 2 ^ 63 \<le> offset + n"
proof -
  let ?t = "int (length (mem_records s))" and ?e = "i64 (offset + n)" and ?xs = "listing it big f ord s"
  have "(\<exists>p. fst (mem_FindAll it big offset n f ord s) = Panic p) \<longleftrightarrow>
      offset < ?t \<and> (\<exists>p. go_slice ?xs offset (if ?t < ?e then ?t else ?e) = (Panic p :: (go_error, _) outcome))"
    unfolding mem_FindAll_def Let_def assms(1) by (auto simp: then_ok_Panic_iff)
  also have "\<dots> \<longleftrightarrow> offset < ?t \<and> \<not> (0 \<le> offset \<and> offset \<le> ?e)"
    by (auto simp: go_slice_def assms(1))
  also have "\<dots> \<longleftrightarrow> offset < 0 \<or> offset < ?t \<and> 2 ^ 63 \<le> offset + n"
    unfolding i64_sum [OF assms(2-4)] using assms(2-4) by (auto simp: in_i64_def)
  finally show ?thesis .
qed

text \<open>A store of one record, for the sample page.\<close>

definition list_env :: "(string, string, string, memory_store) service_env" where
  "list_env = memory_env (demo_env_on (memory_records (\<lambda>xs. xs) insertion_sort) memory_status) (\<lambda>xs. xs) insertion_sort"

definition list_service :: "(memory_store, string) service" where
  "list_service = NewService new_session_store (NewStore\<lparr>mem_records := [(''r'', demo_record)]\<rparr>)
     sample_verifier zero_world"

section \<open>Properties\<close>

text \<open>C33 (functional): page \<open>p\<close> of size \<open>n\<close> on the in-memory store, as long as \<open>p * n\<close> is below
  \<open>2 ^ 63\<close>, is the slice of the sorted listing that starts after \<open>(p - 1) * n\<close> records, so that for one
  order in which the map is visited the pages cut the listing into pieces without gaps or repetitions;
  each row shows its record and the current status of its list entry, the total is the number of
  records, and the state is unchanged. Page and size fall back to 1 and 20. Beyond that bound see
  \<open>page_overflow_panics\<close>.\<close>

theorem pages_partition_listing:
  assumes "rearranges big" and "iterates it" and "max 1 page * (if sz < 1 then 20 else sz) < 2 ^ 63"
  shows "ListIssuanceRecords (memory_env E it big) page sz f ord sv =
    (let p = max 1 page; n = (if sz < 1 then 20 else sz)
     in (Ok \<lparr>lr_records = map (\<lambda>rc. record_row (se_float E) rc (label_of (sv_store sv) (rec_ID rc)))
             (take (nat n) (drop (nat ((p - 1) * n)) (listing it big f ord (sv_store sv)))),
           lr_total = int (length (mem_records (sv_store sv))), lr_page = p, lr_size = n\<rparr>, sv))"
proof -
  let ?p = "max 1 page" and ?n = "if sz < 1 then 20 else sz :: int"
  have n: "0 < ?n" by simp
  have off: "(?p - 1) * ?n = ?p * ?n - ?n" by (simp add: left_diff_distrib)
  have nonneg: "0 \<le> (?p - 1) * ?n" using n by simp
  have "?p \<le> ?p * ?n" using n by (simp add: mult_le_cancel_left1)
  then have "in_i64 (?p - 1)" "in_i64 ((?p - 1) * ?n)"
    using assms(3) nonneg off n unfolding in_i64_def by linarith+
  then have e: "i64 (?p - 1) = ?p - 1" "i64 ((?p - 1) * ?n) = (?p - 1) * ?n"
    by (simp_all only: i64_id)
  have page: "(if page < 1 then 1 else page) = ?p" by simp
  have "ro_FindAll (memory_records it big) ((?p - 1) * ?n) ?n f ord (sv_store sv) =
      (Ok (take (nat ?n) (drop (nat ((?p - 1) * ?n)) (listing it big f ord (sv_store sv))),
           int (length (mem_records (sv_store sv)))), sv_store sv)"
    using page_slice [OF length_listing [OF assms(1,2)] nonneg n] assms(3) off by (simp add: memory_records_def)
  then show ?thesis
    unfolding ListIssuanceRecords_def page Let_def e on_store_def by (simp add: memory_views)
qed

theorem pages_partition_listing_witness:
  "(\<lambda>(r, sv). (case r of Ok l \<Rightarrow> (map vw_id (lr_records l), lr_total l, lr_page l, lr_size l) | _ \<Rightarrow> ([], 0, 0, 0)))
     (ListIssuanceRecords list_env 1 0 [] [] list_service) = ([''r''], 1, 1, 20)"
  unfolding list_env_def
  by (subst pages_partition_listing)
    (simp_all only: rearranges_def iterates_def insertion_sort_mset,
     simp_all add: Let_def list_service_def NewService_def
      listing_def sort_Slice_def insertion_sort_def record_row_def NewStore_def demo_record_def)

text \<open>A permutation in order, from \<open>sort.Slice\<close> on up to twelve records.\<close>

lemma listing_sorted:
  assumes "iterates it" and "length (mem_records s) \<le> 12"
  shows "mset (listing it big f ord s) = mset (map snd (mem_records s))"
    and "sorted_wrt (in_order (sort_field f) (sort_order ord)) (listing it big f ord s)"
proof -
  have len: "length (map snd (it (mem_records s))) \<le> 12" using assms by (simp add: iterates_length)
  have "sort_order ord \<in> {''asc'', ''desc''}" by (simp add: sort_order_def)
  with len find_all_sorted assms(1)
  show "mset (listing it big f ord s) = mset (map snd (mem_records s))"
    and "sorted_wrt (in_order (sort_field f) (sort_order ord)) (listing it big f ord s)"
    by (simp_all add: listing_def sort_Slice_def insertion_sort_mset iterates_def Let_def)
qed

lemma page_in_listing:
  "take k (drop m xs) = rows \<Longrightarrow> take m xs @ rows @ drop k (drop m xs) = xs"
  by (metis append_take_drop_id)

text \<open>C34 (functional): up to twelve records, what \<open>FindAll\<close> of the in-memory store returns for a page is the
  part of a list that holds every record once, ordered by the chosen field (creation time unless the
  field is one of the four allowed) in the chosen direction (descending unless \<open>asc\<close> is asked for):
  the part that has \<open>offset\<close> records before it, or all of them if there are fewer, and the next \<open>limit\<close>
  records in it, or the rest. So a page that covers everything is the sorted permutation itself. The
  descending comparison the code sorts by is the negation of the ascending one, hence not a strict
  order; the result is ordered nevertheless.\<close>

theorem listing_is_sorted:
  assumes "iterates it" and "length (mem_records s) \<le> 12"
    and "0 \<le> offset" and "0 < limit" and "offset + limit < 2 ^ 63"
  shows "\<exists>before rows after.
    mem_FindAll it big offset limit f ord s = (Ok (rows, int (length (mem_records s))), s) \<and>
    mset (before @ rows @ after) = mset (map snd (mem_records s)) \<and>
    sorted_wrt (in_order (sort_field f) (sort_order ord)) (before @ rows @ after) \<and>
    length before = min (nat offset) (length (mem_records s)) \<and>
    length rows = min (nat limit) (length (mem_records s) - nat offset)"
proof -
  let ?xs = "listing it big f ord s"
  note sorted = listing_sorted [OF assms(1,2), where big = big and f = f and ord = ord]
  then have len: "length ?xs = length (mem_records s)" by (metis length_map size_mset)
  have "mem_FindAll it big offset limit f ord s =
      (Ok (take (nat limit) (drop (nat offset) ?xs), int (length (mem_records s))), s)"
    by (rule page_slice [OF len assms(3-5)])
  with sorted len page_in_listing [OF refl, of "nat offset" ?xs "nat limit"] show ?thesis
    by (intro exI [of _ "take (nat offset) ?xs"] exI [of _ "take (nat limit) (drop (nat offset) ?xs)"]
        exI [of _ "drop (nat limit) (drop (nat offset) ?xs)"]) (simp add: min.commute)
qed

definition two_records :: memory_store where
  "two_records = NewStore\<lparr>mem_records := [(''p'', demo_record\<lparr>rec_ID := ''p'', rec_Status := ''pending''\<rparr>),
     (''c'', demo_record\<lparr>rec_ID := ''c'', rec_Status := ''credential_issued''\<rparr>)]\<rparr>"

theorem listing_is_sorted_witness:
  "\<exists>rows. mem_FindAll (\<lambda>xs. xs) insertion_sort 0 20 ''status'' ''asc'' two_records = (Ok (rows, 2), two_records) \<and>
     map rec_Status rows = [''credential_issued'', ''pending''] \<and> sorted_wrt (in_order ''status'' ''asc'') rows"
proof -
  have it: "iterates (\<lambda>xs. xs)" by simp
  have n: "length (mem_records two_records) = 2" by (simp add: two_records_def)
  obtain before rows after where
    f: "mem_FindAll (\<lambda>xs. xs) insertion_sort 0 20 ''status'' ''asc'' two_records = (Ok (rows, 2), two_records)"
    and m: "mset (before @ rows @ after) = mset (map snd (mem_records two_records))"
    and o: "sorted_wrt (in_order (sort_field ''status'') (sort_order ''asc'')) (before @ rows @ after)"
    and l: "length before = 0" "length rows = 2"
    using listing_is_sorted [of "\<lambda>xs. xs" two_records 0 20 insertion_sort "''status''" "''asc''", OF it] by (auto simp: n)
  have "size (mset (before @ rows @ after)) = 2" unfolding m by (simp add: two_records_def)
  with l have e: "before = []" "after = []" by auto
  have k: "sort_field ''status'' = ''status''" "sort_order ''asc'' = ''asc''"
    by (simp_all add: sort_field_def allowedSortFields_def sort_order_def)
  have "map rec_Status rows = [''credential_issued'', ''pending'']"
    using f by (auto simp: mem_FindAll_def listing_def k sort_Slice_def two_records_def insertion_sort_def
        find_all_less_def sortLess_def go_slice_def in_i64_def Let_def)
  with f o show ?thesis by (simp add: e k)
qed

text \<open>C35 (error): neither the offset nor the end of a page is checked for overflow. On the in-memory store
  a listing panics exactly when the 64-bit offset \<open>(page - 1) * size\<close> wraps to a negative number, or
  when it wraps to a number below the total whose sum with the size does not fit 64 bits; then the
  bounds of the slice are out of range. In every other case a page is returned.\<close>

theorem page_overflow_panics:
  assumes "rearranges big" and "iterates it" and "in_i64 page" and "in_i64 sz"
  shows "(\<exists>p. fst (ListIssuanceRecords (memory_env E it big) page sz f ord sv) = Panic p) \<longleftrightarrow>
    (let n = (if sz < 1 then 20 else sz); offset = i64 ((max 1 page - 1) * n)
     in offset < 0 \<or> offset < int (length (mem_records (sv_store sv))) \<and> 2 ^ 63 \<le> offset + n)"
proof -
  let ?n = "if sz < 1 then 20 else sz :: int" and ?o = "i64 ((max 1 page - 1) * (if sz < 1 then 20 else sz))"
  have page: "(if page < 1 then 1 else page) = max 1 page" by simp
  have e: "i64 (max 1 page - 1) = max 1 page - 1" using assms(3) by (intro i64_id) (auto simp: in_i64_def max_def)
  have n: "0 < ?n" "in_i64 ?n" using assms(4) by (simp_all add: in_i64_def)
  have "(\<exists>p. fst (ListIssuanceRecords (memory_env E it big) page sz f ord sv) = Panic p) \<longleftrightarrow>
      (\<exists>p. fst (mem_FindAll it big ?o ?n f ord (sv_store sv)) = Panic p)"
    unfolding ListIssuanceRecords_def page Let_def e on_store_def
    by (cases "fst (mem_FindAll it big ?o ?n f ord (sv_store sv))")
      (simp_all add: memory_views memory_records_def split_beta split del: if_split)
  with find_all_panics [OF length_listing [OF assms(1,2)] i64_range n] show ?thesis by (simp add: Let_def)
qed

theorem page_overflow_panics_witness:
  "(\<exists>p. fst (ListIssuanceRecords list_env (2 ^ 62 + 1) 2 [] [] list_service) = Panic p) \<and>
   \<not> (\<exists>p. fst (ListIssuanceRecords list_env (2 ^ 62 + 1) 4 [] [] list_service) = Panic p)"
proof -
  have "rearranges insertion_sort" "iterates (\<lambda>xs. xs)" by (simp_all add: rearranges_def iterates_def insertion_sort_mset)
  note over = page_overflow_panics [OF this, where E = "demo_env_on (memory_records (\<lambda>xs. xs) insertion_sort) memory_status",
      folded list_env_def]
  show ?thesis
    by (simp add: over in_i64_def i64_def Let_def)
qed

end
