(* ===== verification/Registry.thy ===== *)
theory Registry
  imports Go_Json Go_Url OAuth_Error
begin

text \<open>
  \<open>internal/registryclient\<close>: the catalogue of attestation schemes (\<open>types.go\<close>), the client that fetches
  it (\<open>client.go\<close>) and the cache in front of it (\<open>cache.go\<close>). The registry itself is a parameter: the
  reply to a GET of a URL. The background goroutine is a fold over the replies its ticks see.
\<close>

section \<open>Schemes\<close>

definition FormatSDJWTVC :: string where "FormatSDJWTVC = ''dc+sd-jwt''"
definition FormatMDoc :: string where "FormatMDoc = ''mso_mdoc''"
definition PresenceMandatory :: string where "PresenceMandatory = ''mandatory''"

record claim_definition =
  cd_DataIdentifier :: string
  cd_Path :: "string list"
  cd_DataType :: string
  cd_Presence :: string
  cd_Namespace :: string
  cd_Disclosability :: string
  cd_Enum :: "string list"

record format_schema =
  fs_Format :: string
  fs_TypeIdentifier :: string
  fs_Claims :: "claim_definition list"

record attestation_scheme =
  as_ID :: string
  as_CatalogueID :: string
  as_Version :: string
  as_SupportedFormats :: "string list"
  as_Schemas :: "format_schema list"

record attestation_definition =
  df_AttestationType :: string
  df_Scheme :: attestation_scheme

fun schema_loop :: "string \<Rightarrow> format_schema list \<Rightarrow> format_schema option" where
  "schema_loop f [] = None"
| "schema_loop f (s # ss) = (if fs_Format s = f then Some s else schema_loop f ss)"

definition SchemaFor :: "string \<Rightarrow> attestation_scheme \<Rightarrow> format_schema option" where
  "SchemaFor f s = schema_loop f (as_Schemas s)"

lemma schema_loop_Some: "schema_loop f ss = Some s \<Longrightarrow> s \<in> set ss \<and> fs_Format s = f"
  by (induction ss) (auto split: if_splits)

lemma schema_loop_None: "schema_loop f ss = None \<longleftrightarrow> f \<notin> fs_Format ` set ss"
  by (induction ss) auto

section \<open>Decoding\<close>

text \<open>
  A JSON array is decoded over the slice the field already holds: an element that has a predecessor
  at its index (from an earlier member of the same name) is merged with it, the others start from
  zero.
\<close>

fun decode_elems :: "('a \<Rightarrow> string json \<Rightarrow> 'a option) \<Rightarrow> 'a \<Rightarrow> 'a list \<Rightarrow> string json list \<Rightarrow> 'a list option" where
  "decode_elems dec z old [] = Some []"
| "decode_elems dec z old (v # vs) =
     (case (dec (case old of [] \<Rightarrow> z | x # _ \<Rightarrow> x) v, decode_elems dec z (tl old) vs) of
        (Some a, Some as) \<Rightarrow> Some (a # as)
      | _ \<Rightarrow> None)"

definition decode_list :: "('a \<Rightarrow> string json \<Rightarrow> 'a option) \<Rightarrow> 'a \<Rightarrow> 'a list \<Rightarrow> string json \<Rightarrow> 'a list option" where
  "decode_list dec z old v =
     (case v of JNull \<Rightarrow> Some [] | JArr vs \<Rightarrow> decode_elems dec z old vs | _ \<Rightarrow> None)"

definition zero_claim :: claim_definition where
  "zero_claim = \<lparr>cd_DataIdentifier = [], cd_Path = [], cd_DataType = [], cd_Presence = [],
     cd_Namespace = [], cd_Disclosability = [], cd_Enum = []\<rparr>"

definition zero_schema :: format_schema where
  "zero_schema = \<lparr>fs_Format = [], fs_TypeIdentifier = [], fs_Claims = []\<rparr>"

definition zero_scheme :: attestation_scheme where
  "zero_scheme = \<lparr>as_ID = [], as_CatalogueID = [], as_Version = [], as_SupportedFormats = [], as_Schemas = []\<rparr>"

definition zero_definition :: attestation_definition where
  "zero_definition = \<lparr>df_AttestationType = [], df_Scheme = zero_scheme\<rparr>"

definition assign_claim :: "string \<Rightarrow> string json \<Rightarrow> claim_definition \<Rightarrow> claim_definition option" where
  "assign_claim n v c =
     (if n = ''dataIdentifier'' then map_option (\<lambda>s. c\<lparr>cd_DataIdentifier := s\<rparr>) (decode_string (cd_DataIdentifier c) v)
      else if n = ''path'' then map_option (\<lambda>p. c\<lparr>cd_Path := p\<rparr>) (decode_list decode_string [] (cd_Path c) v)
      else if n = ''dataType'' then map_option (\<lambda>s. c\<lparr>cd_DataType := s\<rparr>) (decode_string (cd_DataType c) v)
      else if n = ''presence'' then map_option (\<lambda>s. c\<lparr>cd_Presence := s\<rparr>) (decode_string (cd_Presence c) v)
      else if n = ''namespace'' then map_option (\<lambda>s. c\<lparr>cd_Namespace := s\<rparr>) (decode_string (cd_Namespace c) v)
      else if n = ''disclosability'' then
        map_option (\<lambda>s. c\<lparr>cd_Disclosability := s\<rparr>) (decode_string (cd_Disclosability c) v)
      else map_option (\<lambda>e. c\<lparr>cd_Enum := e\<rparr>) (decode_list decode_string [] (cd_Enum c) v))"

definition decode_claim :: "claim_definition \<Rightarrow> string json \<Rightarrow> claim_definition option" where
  "decode_claim = decode_struct [''dataIdentifier'', ''path'', ''dataType'', ''presence'', ''namespace'',
     ''disclosability'', ''enum''] assign_claim"

definition assign_schema :: "string \<Rightarrow> string json \<Rightarrow> format_schema \<Rightarrow> format_schema option" where
  "assign_schema n v s =
     (if n = ''format'' then map_option (\<lambda>x. s\<lparr>fs_Format := x\<rparr>) (decode_string (fs_Format s) v)
      else if n = ''typeIdentifier'' then
        map_option (\<lambda>x. s\<lparr>fs_TypeIdentifier := x\<rparr>) (decode_string (fs_TypeIdentifier s) v)
      else map_option (\<lambda>x. s\<lparr>fs_Claims := x\<rparr>) (decode_list decode_claim zero_claim (fs_Claims s) v))"

definition decode_schema :: "format_schema \<Rightarrow> string json \<Rightarrow> format_schema option" where
  "decode_schema = decode_struct [''format'', ''typeIdentifier'', ''claims''] assign_schema"

definition assign_scheme :: "string \<Rightarrow> string json \<Rightarrow> attestation_scheme \<Rightarrow> attestation_scheme option" where
  "assign_scheme n v s =
     (if n = ''id'' then map_option (\<lambda>x. s\<lparr>as_ID := x\<rparr>) (decode_string (as_ID s) v)
      else if n = ''catalogueId'' then map_option (\<lambda>x. s\<lparr>as_CatalogueID := x\<rparr>) (decode_string (as_CatalogueID s) v)
      else if n = ''version'' then map_option (\<lambda>x. s\<lparr>as_Version := x\<rparr>) (decode_string (as_Version s) v)
      else if n = ''supportedFormats'' then
        map_option (\<lambda>x. s\<lparr>as_SupportedFormats := x\<rparr>) (decode_list decode_string [] (as_SupportedFormats s) v)
      else map_option (\<lambda>x. s\<lparr>as_Schemas := x\<rparr>) (decode_list decode_schema zero_schema (as_Schemas s) v))"

definition decode_scheme :: "attestation_scheme \<Rightarrow> string json \<Rightarrow> attestation_scheme option" where
  "decode_scheme = decode_struct [''id'', ''catalogueId'', ''version'', ''supportedFormats'', ''schemas''] assign_scheme"

text \<open>The rulebook has the one field \<open>attestationType\<close>.\<close>

definition decode_rulebook :: "string \<Rightarrow> string json \<Rightarrow> string option" where
  "decode_rulebook = decode_struct [''attestationType''] (\<lambda>n v s. decode_string s v)"

definition assign_definition ::
  "string \<Rightarrow> string json \<Rightarrow> attestation_definition \<Rightarrow> attestation_definition option" where
  "assign_definition n v d =
     (if n = ''rulebook'' then map_option (\<lambda>x. d\<lparr>df_AttestationType := x\<rparr>) (decode_rulebook (df_AttestationType d) v)
      else map_option (\<lambda>x. d\<lparr>df_Scheme := x\<rparr>) (decode_scheme (df_Scheme d) v))"

definition decode_definition :: "attestation_definition \<Rightarrow> string json \<Rightarrow> attestation_definition option" where
  "decode_definition = decode_struct [''rulebook'', ''scheme''] assign_definition"

section \<open>The client\<close>

text \<open>
  What a GET of a URL answers. A body that breaks off (\<open>Inl\<close>) is one whose JSON value was still open
  when reading failed; the decoder stops at the end of the first value and ignores what follows.
\<close>

type_synonym http_get = "string \<Rightarrow> http_reply"

definition client_get ::
  "float_ops \<Rightarrow> http_get \<Rightarrow> string \<Rightarrow> string \<Rightarrow> (string json \<Rightarrow> 'a option) \<Rightarrow> go_error + 'a" where
  "client_get fo http baseURL path dec =
     (let decoding = (\<lambda>e. Inl (Plain (''registryclient: GET '' @ path @ '': decoding response: '' @ e)))
      in case http (baseURL @ path) of
           ReqErr e \<Rightarrow> Inl (Plain e)
         | NetErr e \<Rightarrow> Inl (Plain (''registryclient: GET '' @ path @ '': '' @ e))
         | Reply st body \<Rightarrow>
             if st \<noteq> 200 then
               Inl (Plain (''registryclient: GET '' @ path @ '': unexpected status '' @ show_int st))
             else case body of
                    Inl e \<Rightarrow> decoding e
                  | Inr s \<Rightarrow> (case Option.bind (decode_first s) dec of
                                None \<Rightarrow> decoding (json_error fo s)
                              | Some x \<Rightarrow> Inr x))"

definition ListSchemes :: "float_ops \<Rightarrow> http_get \<Rightarrow> string \<Rightarrow> go_error + attestation_definition list" where
  "ListSchemes fo http baseURL =
     client_get fo http baseURL ''/api/v1/schemes'' (decode_list decode_definition zero_definition [])"

text \<open>\<open>url.PathEscape\<close> also escapes the separators of a path segment.\<close>

definition path_escape :: "string \<Rightarrow> string" where
  "path_escape = escape (\<lambda>c. \<not> (unreserved c \<or> c \<in> set ''$&+:=@''))"

definition GetScheme :: "float_ops \<Rightarrow> http_get \<Rightarrow> string \<Rightarrow> string \<Rightarrow> go_error + attestation_definition" where
  "GetScheme fo http baseURL i =
     client_get fo http baseURL (''/api/v1/schemes/'' @ path_escape i) (decode_definition zero_definition)"

section \<open>The cache\<close>

record scheme_cache =
  ca_defs :: "attestation_definition list"
  ca_byID :: "(string, attestation_definition) gomap"
  ca_stale :: bool

type_synonym listing_reply = "go_error + attestation_definition list"

definition NewCache :: scheme_cache where
  "NewCache = \<lparr>ca_defs = [], ca_byID = [], ca_stale = False\<rparr>"

definition index_by_id :: "attestation_definition list \<Rightarrow> (string, attestation_definition) gomap" where
  "index_by_id defs = foldl (\<lambda>m d. gm_put (as_ID (df_Scheme d)) d m) [] defs"

fun cache_refresh :: "listing_reply \<Rightarrow> scheme_cache \<Rightarrow> go_error option \<times> scheme_cache" where
  "cache_refresh (Inl e) c = (Some e, c)"
| "cache_refresh (Inr defs) c = (None, c\<lparr>ca_defs := defs, ca_byID := index_by_id defs, ca_stale := False\<rparr>)"

text \<open>One tick of the background loop, and the loop over the ticks that have fired.\<close>

definition cache_tick :: "listing_reply \<Rightarrow> scheme_cache \<Rightarrow> scheme_cache" where
  "cache_tick reply c =
     (case cache_refresh reply c of
        (Some e, c) \<Rightarrow> c\<lparr>ca_stale := True\<rparr>
      | (None, c) \<Rightarrow> c)"

definition background :: "listing_reply list \<Rightarrow> scheme_cache \<Rightarrow> scheme_cache" where
  "background ticks c = foldl (\<lambda>c r. cache_tick r c) c ticks"

definition cache_Start ::
  "listing_reply \<Rightarrow> listing_reply list \<Rightarrow> scheme_cache \<Rightarrow> go_error option \<times> scheme_cache" where
  "cache_Start first ticks c =
     (case cache_refresh first c of
        (Some e, c) \<Rightarrow> (Some e, c)
      | (None, c) \<Rightarrow> (None, background ticks c))"

definition Stale :: "scheme_cache \<Rightarrow> bool" where "Stale c = ca_stale c"
definition cache_All :: "scheme_cache \<Rightarrow> attestation_definition list" where "cache_All c = ca_defs c"

definition cache_Get :: "string \<Rightarrow> scheme_cache \<Rightarrow> attestation_definition option" where
  "cache_Get i c = gm_get (ca_byID c) i"

section \<open>What the cache serves\<close>

text \<open>The catalogues the registry has delivered, and the last definition of an id in one.\<close>

definition delivered :: "listing_reply list \<Rightarrow> attestation_definition list list" where
  "delivered rs = concat (map (\<lambda>r. case r of Inl e \<Rightarrow> [] | Inr defs \<Rightarrow> [defs]) rs)"

definition last_named :: "string \<Rightarrow> attestation_definition list \<Rightarrow> attestation_definition option" where
  "last_named i defs = List.find (\<lambda>d. as_ID (df_Scheme d) = i) (rev defs)"

lemma find_append:
  "List.find P (xs @ ys) = (case List.find P xs of None \<Rightarrow> List.find P ys | Some x \<Rightarrow> Some x)"
  by (induction xs) auto

lemma index_by_id_get: "gm_get (index_by_id defs) i = last_named i defs"
proof -
  have "gm_get (foldl (\<lambda>m d. gm_put (as_ID (df_Scheme d)) d m) m defs) i =
      (case last_named i defs of None \<Rightarrow> gm_get m i | Some d \<Rightarrow> Some d)" for m
    by (induction defs arbitrary: m) (auto simp: last_named_def find_append split: option.split)
  then show ?thesis by (simp add: index_by_id_def split: option.split)
qed

text \<open>\<open>served c defs\<close>: the cache serves the catalogue \<open>defs\<close>, in all its views.\<close>

definition served :: "scheme_cache \<Rightarrow> attestation_definition list \<Rightarrow> bool" where
  "served c defs \<longleftrightarrow> cache_All c = defs \<and> (\<forall>i. cache_Get i c = last_named i defs)"

lemma served_tick:
  "served c defs \<Longrightarrow> served (cache_tick r c) (case r of Inl e \<Rightarrow> defs | Inr new \<Rightarrow> new)"
  by (cases r) (simp_all add: served_def cache_tick_def cache_All_def cache_Get_def index_by_id_get)

lemma stale_tick: "Stale (cache_tick r c) \<longleftrightarrow> isl r"
  by (cases r) (simp_all add: cache_tick_def Stale_def)

lemma background_snoc: "background (rs @ [r]) c = cache_tick r (background rs c)"
  by (simp add: background_def)

lemma background_served:
  "served c defs \<Longrightarrow> served (background rs c) (last (defs # delivered rs))"
proof (induction rs rule: rev_induct)
  case (snoc r rs)
  then show ?case
    using served_tick [OF snoc.IH, of r]
    by (cases r) (simp_all add: background_snoc delivered_def split: if_splits)
qed (simp add: background_def delivered_def)

lemma background_stale:
  "Stale (background rs c) \<longleftrightarrow> (if rs = [] then Stale c else isl (last rs))"
  by (induction rs rule: rev_induct) (simp_all add: background_snoc stale_tick, simp add: background_def)

text \<open>C36 (invariant): after a successful start and any number of background refreshes, every read is
  answered from the last catalogue the registry delivered, whichever refreshes failed in between: \<open>All\<close>
  returns it, \<open>Get\<close> finds the last definition of an id in it, and \<open>Stale\<close> says exactly that the latest
  refresh failed, so a later success clears it. (The comment on the field in \<open>cache.go\<close> says \<open>once at
  least one background refresh has failed\<close>, which the code does not keep to.) A failed start is reported and leaves the cache empty.\<close>

theorem cache_serves_last_good:
  "(\<lambda>(err, c). err = None \<and> cache_All c = last (defs # delivered ticks) \<and>
      (\<forall>i. cache_Get i c = last_named i (last (defs # delivered ticks))) \<and>
      (Stale c \<longleftrightarrow> ticks \<noteq> [] \<and> isl (last ticks)))
     (cache_Start (Inr defs) ticks NewCache) \<and>
   cache_Start (Inl e) ticks NewCache = (Some e, NewCache)"
proof -
  let ?c = "snd (cache_refresh (Inr defs) NewCache)"
  have "served ?c defs"
    by (simp add: served_def cache_All_def cache_Get_def index_by_id_get)
  from background_served [OF this, of ticks] background_stale [of ticks ?c]
  show ?thesis
    by (simp add: cache_Start_def served_def Stale_def split del: if_split) (simp add: Stale_def NewCache_def)
qed

end
