(* ===== verification/Credential_Config.thy ===== *)
theory Credential_Config
  imports Registry
begin

text \<open>
  \<open>internal/credentialconfig\<close>: from a registry definition to the entries of
  \<open>credential_configurations_supported\<close> (\<open>builder.go\<close>), with the form labels (\<open>label.go\<close>) and the
  classification of free-form data types (\<open>scalar.go\<close>).
\<close>

section \<open>Labels and data types\<close>

definition label_word :: "string \<Rightarrow> string" where
  "label_word w = (case w of [] \<Rightarrow> [] | c # cs \<Rightarrow> upper_byte c @ cs)"

definition claimLabel :: "string \<Rightarrow> string" where
  "claimLabel dataIdentifier = join_with '' '' (map label_word (split_on (CHR ''_'') dataIdentifier))"

fun contains_marker :: "string \<Rightarrow> string list \<Rightarrow> bool" where
  "contains_marker s [] = False"
| "contains_marker s (m # ms) = (if contains_sub s m then True else contains_marker s ms)"

definition isScalarType :: "string \<Rightarrow> bool" where
  "isScalarType dataType =
     (\<not> contains_marker (to_lower dataType) [''array'', ''object'', ''map'', ''nationalities'', ''place_of_birth''])"

definition isDateType :: "string \<Rightarrow> bool" where
  "isDateType dataType = contains_marker (to_lower dataType) [''full-date'', ''tdate'', ''yyyy-mm-dd'']"

section \<open>Configurations\<close>

text \<open>The one \<open>[]any\<close> of a configuration mixes JOSE names and COSE numbers.\<close>

datatype alg_value = JoseAlg string | CoseAlg int

record cfg_claim =
  cl_Path :: "string list"
  cl_Display :: "(string \<times> string) list"
  cl_Mandatory :: bool
  cl_IsDate :: bool

record cfg_display =
  cd_Name :: string
  cd_Locale :: string
  cd_Description :: string

record config =
  cf_Format :: string
  cf_Scope :: string
  cf_BindingMethods :: "string list"
  cf_SigningAlgs :: "alg_value list"
  cf_ProofAlgs :: "string list"
  cf_VCT :: string
  cf_DocType :: string
  cf_Display :: "cfg_display list"
  cf_Claims :: "cfg_claim list"

fun buildClaims :: "claim_definition list \<Rightarrow> cfg_claim list" where
  "buildClaims [] = []"
| "buildClaims (c # cs) =
     (if length (cd_Path c) \<noteq> 1 \<or> \<not> isScalarType (cd_DataType c) then buildClaims cs
      else \<lparr>cl_Path = cd_Path c, cl_Display = [(claimLabel (cd_DataIdentifier c), ''en'')],
            cl_Mandatory = (cd_Presence c = PresenceMandatory), cl_IsDate = isDateType (cd_DataType c)\<rparr>
           # buildClaims cs)"

definition configurationID :: "string \<Rightarrow> string \<Rightarrow> string" where
  "configurationID schemeID format = (if format = FormatMDoc then schemeID @ ''.mdoc'' else schemeID)"

definition buildConfig :: "attestation_definition \<Rightarrow> string \<Rightarrow> format_schema \<Rightarrow> config" where
  "buildConfig def format schema =
     (let cfg = \<lparr>cf_Format = [], cf_Scope = as_ID (df_Scheme def), cf_BindingMethods = [], cf_SigningAlgs = [],
                 cf_ProofAlgs = [''ES256''], cf_VCT = [], cf_DocType = [],
                 cf_Display = [\<lparr>cd_Name = df_AttestationType def, cd_Locale = ''en'', cd_Description = []\<rparr>],
                 cf_Claims = buildClaims (fs_Claims schema)\<rparr>
      in if format = FormatSDJWTVC then
           cfg\<lparr>cf_Format := ''dc+sd-jwt'', cf_BindingMethods := [''jwk''], cf_SigningAlgs := [JoseAlg ''ES256''],
               cf_VCT := fs_TypeIdentifier schema\<rparr>
         else if format = FormatMDoc then
           cfg\<lparr>cf_Format := ''mso_mdoc'', cf_BindingMethods := [''cose_key''], cf_SigningAlgs := [CoseAlg (- 7)],
               cf_DocType := fs_TypeIdentifier schema\<rparr>
         else cfg)"

fun build_formats ::
  "attestation_definition \<Rightarrow> string list \<Rightarrow> (string, config) gomap \<Rightarrow> (string, config) gomap" where
  "build_formats def [] out = out"
| "build_formats def (f # fs) out =
     (case SchemaFor f (df_Scheme def) of
        None \<Rightarrow> build_formats def fs out
      | Some schema \<Rightarrow>
          build_formats def fs (gm_put (configurationID (as_ID (df_Scheme def)) f) (buildConfig def f schema) out))"

definition Build :: "attestation_definition \<Rightarrow> (string, config) gomap" where
  "Build def = build_formats def (as_SupportedFormats (df_Scheme def)) []"

section \<open>JSON\<close>

text \<open>
  Objects and arrays of parts that are printed already; a field tagged \<open>omitempty\<close> is left out when
  it is empty.
\<close>

definition json_object :: "(string \<times> string) list \<Rightarrow> string" where
  "json_object ms = CHR 0x7B # join_with '','' (map (\<lambda>(k, t). quote k @ '':'' @ t) ms) @ [CHR 0x7D]"

definition json_array :: "string list \<Rightarrow> string" where
  "json_array ts = ''['' @ join_with '','' ts @ '']''"

definition json_bool :: "bool \<Rightarrow> string" where
  "json_bool b = (if b then ''true'' else ''false'')"

text \<open>A nil slice prints as \<open>null\<close>; the slices of a configuration are nil exactly when they are empty.\<close>

definition json_strings :: "string list \<Rightarrow> string" where
  "json_strings xs = (if xs = [] then ''null'' else json_array (map quote xs))"

definition opt_member :: "string \<Rightarrow> string \<Rightarrow> (string \<times> string) list" where
  "opt_member k s = (if s = [] then [] else [(k, quote s)])"

fun alg_json :: "alg_value \<Rightarrow> string" where
  "alg_json (JoseAlg s) = quote s"
| "alg_json (CoseAlg n) = show_int n"

definition claim_json :: "cfg_claim \<Rightarrow> string" where
  "claim_json c = json_object
     ([(''path'', json_strings (cl_Path c))] @
      (if cl_Display c = [] then [] else
         [(''display'', json_array (map (\<lambda>(n, l). json_object [(''name'', quote n), (''locale'', quote l)]) (cl_Display c)))]) @
      [(''mandatory'', json_bool (cl_Mandatory c))] @
      (if cl_IsDate c then [(''is_date'', ''true'')] else []))"

definition display_json :: "cfg_display \<Rightarrow> string" where
  "display_json d = json_object
     ([(''name'', quote (cd_Name d)), (''locale'', quote (cd_Locale d))] @ opt_member ''description'' (cd_Description d))"

definition config_json :: "config \<Rightarrow> string" where
  "config_json c = json_object
     ([(''format'', quote (cf_Format c)), (''scope'', quote (cf_Scope c)),
       (''cryptographic_binding_methods_supported'', json_strings (cf_BindingMethods c)),
       (''credential_signing_alg_values_supported'',
          if cf_SigningAlgs c = [] then ''null'' else json_array (map alg_json (cf_SigningAlgs c))),
       (''proof_types_supported'', json_object [(''jwt'',
          json_object [(''proof_signing_alg_values_supported'', json_strings (cf_ProofAlgs c))])])] @
      opt_member ''vct'' (cf_VCT c) @ opt_member ''doctype'' (cf_DocType c) @
      [(''credential_metadata'', json_object
         [(''display'', json_array (map display_json (cf_Display c))),
          (''claims'', json_array (map claim_json (cf_Claims c)))])])"

section \<open>Facts\<close>

lemma contains_marker_iff: "contains_marker s ms \<longleftrightarrow> (\<exists>m \<in> set ms. contains_sub s m)"
  by (induction ms) auto

definition form_claim :: "claim_definition \<Rightarrow> bool" where
  "form_claim c \<longleftrightarrow> length (cd_Path c) = 1 \<and> isScalarType (cd_DataType c)"

lemma buildClaims_filter:
  "buildClaims cs =
   map (\<lambda>c. \<lparr>cl_Path = cd_Path c, cl_Display = [(claimLabel (cd_DataIdentifier c), ''en'')],
      cl_Mandatory = (cd_Presence c = PresenceMandatory), cl_IsDate = isDateType (cd_DataType c)\<rparr>)
     (filter form_claim cs)"
  by (induction cs) (auto simp: form_claim_def)

lemma configurationID_inject:
  "f \<in> {FormatSDJWTVC, FormatMDoc} \<Longrightarrow> g \<in> {FormatSDJWTVC, FormatMDoc} \<Longrightarrow>
   configurationID i f = configurationID i g \<longleftrightarrow> f = g"
  by (auto simp: configurationID_def FormatSDJWTVC_def FormatMDoc_def)

lemma build_formats_get:
  assumes "set fs \<subseteq> {FormatSDJWTVC, FormatMDoc}" and "f \<in> {FormatSDJWTVC, FormatMDoc}"
  shows "gm_get (build_formats def fs out) (configurationID (as_ID (df_Scheme def)) f) =
    (case (if f \<in> set fs then SchemaFor f (df_Scheme def) else None) of
       None \<Rightarrow> gm_get out (configurationID (as_ID (df_Scheme def)) f)
     | Some schema \<Rightarrow> Some (buildConfig def f schema))"
  using assms
proof (induction fs arbitrary: out)
  case (Cons g fs)
  then have g: "g \<in> {FormatSDJWTVC, FormatMDoc}" and IH: "\<And>out. gm_get (build_formats def fs out)
      (configurationID (as_ID (df_Scheme def)) f) =
      (case (if f \<in> set fs then SchemaFor f (df_Scheme def) else None) of
         None \<Rightarrow> gm_get out (configurationID (as_ID (df_Scheme def)) f)
       | Some schema \<Rightarrow> Some (buildConfig def f schema))"
    by auto
  show ?case
    using configurationID_inject [OF g assms(2), of "as_ID (df_Scheme def)"]
    by (auto simp: IH split: option.split)
qed simp

lemma build_formats_keys:
  "gm_get (build_formats def fs out) k = Some c \<Longrightarrow>
   gm_get out k = Some c \<or> (\<exists>f \<in> set fs. \<exists>s. SchemaFor f (df_Scheme def) = Some s \<and>
      k = configurationID (as_ID (df_Scheme def)) f \<and> c = buildConfig def f s)"
proof (induction fs arbitrary: out)
  case (Cons f fs)
  show ?case
  proof (cases "SchemaFor f (df_Scheme def)")
    case None
    with Cons show ?thesis by auto
  next
    case (Some s)
    with Cons.prems Cons.IH show ?thesis by (fastforce split: if_splits)
  qed
qed simp


section \<open>Properties\<close>

text \<open>C37 (functional): for a scheme in the two formats this issuer knows, the map has one entry per
  supported format the scheme defines, under the id that format derives from the scheme id, built from
  that format's schema; a format that is not supported, or supported without a schema, adds nothing,
  and there are no other entries.\<close>

theorem build_configurations:
  assumes "set (as_SupportedFormats (df_Scheme def)) \<subseteq> {FormatSDJWTVC, FormatMDoc}"
  shows "gm_get (Build def) k =
    (if k = configurationID (as_ID (df_Scheme def)) FormatSDJWTVC \<and> FormatSDJWTVC \<in> set (as_SupportedFormats (df_Scheme def))
     then map_option (buildConfig def FormatSDJWTVC) (SchemaFor FormatSDJWTVC (df_Scheme def))
     else if k = configurationID (as_ID (df_Scheme def)) FormatMDoc \<and> FormatMDoc \<in> set (as_SupportedFormats (df_Scheme def))
     then map_option (buildConfig def FormatMDoc) (SchemaFor FormatMDoc (df_Scheme def))
     else None)"
proof -
  let ?id = "configurationID (as_ID (df_Scheme def))"
  have get: "gm_get (Build def) (?id f) = (if f \<in> set (as_SupportedFormats (df_Scheme def))
      then map_option (buildConfig def f) (SchemaFor f (df_Scheme def)) else None)"
    if "f \<in> {FormatSDJWTVC, FormatMDoc}" for f
    using build_formats_get [OF assms that, where out = "[]" and def = def] by (simp add: Build_def split: option.split)
  have other: "gm_get (Build def) k = None" if "k \<noteq> ?id FormatSDJWTVC" and "k \<noteq> ?id FormatMDoc"
    using build_formats_keys [where def = def and fs = "as_SupportedFormats (df_Scheme def)" and out = "[]" and k = k]
      that assms
    by (cases "gm_get (Build def) k") (auto simp: Build_def)
  have ne: "?id FormatSDJWTVC \<noteq> ?id FormatMDoc"
    by (simp add: configurationID_inject FormatSDJWTVC_def FormatMDoc_def)
  consider "k = ?id FormatSDJWTVC" | "k = ?id FormatMDoc" | "k \<noteq> ?id FormatSDJWTVC" "k \<noteq> ?id FormatMDoc" by blast
  then show ?thesis using ne by cases (simp_all add: get other)
qed

definition pid_scheme :: attestation_definition where
  "pid_scheme = \<lparr>df_AttestationType = ''PID'', df_Scheme = \<lparr>as_ID = ''urn:eudi:pid:1'', as_CatalogueID = [],
     as_Version = ''1'', as_SupportedFormats = [FormatSDJWTVC, FormatMDoc],
     as_Schemas = [\<lparr>fs_Format = FormatSDJWTVC, fs_TypeIdentifier = ''urn:eudi:pid:1'', fs_Claims =
       [\<lparr>cd_DataIdentifier = ''birth_date'', cd_Path = [''birthdate''], cd_DataType = ''full-date'',
         cd_Presence = PresenceMandatory, cd_Namespace = [], cd_Disclosability = [], cd_Enum = []\<rparr>]\<rparr>]\<rparr>\<rparr>"

theorem build_configurations_witness:
  "map_option cf_VCT (gm_get (Build pid_scheme) ''urn:eudi:pid:1'') = Some ''urn:eudi:pid:1'' \<and>
   gm_get (Build pid_scheme) ''urn:eudi:pid:1.mdoc'' = None"
  using build_configurations [of pid_scheme "''urn:eudi:pid:1''"] build_configurations [of pid_scheme "''urn:eudi:pid:1.mdoc''"]
  by (simp add: pid_scheme_def FormatSDJWTVC_def FormatMDoc_def configurationID_def SchemaFor_def buildConfig_def)

section \<open>Labels are reversible\<close>

definition identifier_char :: "char \<Rightarrow> bool" where
  "identifier_char c \<longleftrightarrow> is_lower c \<or> is_digit c \<or> c = CHR ''_''"

definition unlabel_char :: "char \<Rightarrow> char" where
  "unlabel_char c = (if c = CHR '' '' then CHR ''_'' else lower_char c)"

lemma unlabel_all:
  "\<forall>c \<in> set (map (char_of :: nat \<Rightarrow> char) [0..<128]).
     identifier_char c \<longrightarrow> of_char c < (128 :: nat) \<and> unlabel_char c = c \<and>
     unlabel_char (upper_char c) = c"
  by code_simp

lemma unlabel_identifier:
  assumes "identifier_char c"
  shows "of_char c < (128 :: nat)" "unlabel_char c = c" "unlabel_char (upper_char c) = c"
proof -
  have "of_char c < (128 :: nat)"
    using assms by (auto simp: identifier_char_def is_lower_def is_digit_def)
  then have "c \<in> set (map (char_of :: nat \<Rightarrow> char) [0..<128])"
    by (auto intro!: image_eqI [of c char_of "of_char c"])
  with unlabel_all assms
  show "of_char c < (128 :: nat)" "unlabel_char c = c" "unlabel_char (upper_char c) = c" by blast+
qed

lemma unlabel_word: "list_all identifier_char w \<Longrightarrow> map unlabel_char (label_word w) = w"
  by (cases w) (simp_all add: label_word_def upper_byte_def unlabel_identifier list_all_iff map_idI)

lemma map_join: "map f (join_with sep ws) = join_with (map f sep) (map (map f) ws)"
  by (induction sep ws rule: join_with.induct) simp_all

text \<open>The label of an identifier in lower-case letters, digits and underscores, lowered
  and with its spaces turned back, is the identifier: distinct claims have distinct form labels.\<close>

lemma label_roundtrip:
  assumes "list_all identifier_char i"
  shows "map unlabel_char (claimLabel i) = i"
proof -
  have "list_all identifier_char w" if "w \<in> set (split_on (CHR ''_'') i)" for w
  proof -
    have "set w \<subseteq> set i" using that
      by (induction i arbitrary: w) (auto split: if_splits list.splits, blast)
    with assms show ?thesis by (auto simp: list_all_iff)
  qed
  then have "map (map unlabel_char) (map label_word (split_on (CHR ''_'') i)) = split_on (CHR ''_'') i"
    by (simp add: map_idI unlabel_word)
  moreover have "unlabel_char (CHR '' '') = CHR ''_''" by (simp add: unlabel_char_def)
  ultimately show ?thesis by (simp add: claimLabel_def map_join del: map_map)
qed

text \<open>A word that starts with a multi-byte rune is not capitalised but broken: its first byte alone is
  no rune, so it becomes U+FFFD and the continuation bytes are left behind.\<close>

lemma label_breaks_rune:
  assumes "128 \<le> (of_char c :: nat)" and "CHR ''_'' \<notin> set cs"
  shows "claimLabel (c # cs) = replacement @ cs"
proof -
  have "c \<noteq> CHR ''_''" using assms(1) by auto
  moreover have "split_on (CHR ''_'') cs = [cs]"
    using assms(2) by (induction cs) auto
  ultimately show ?thesis using assms(1)
    by (simp add: claimLabel_def label_word_def upper_byte_def replacement_def)
qed

end
