(* ===== verification/Http_Api.thy ===== *)
theory Http_Api
  imports Listing Credential_Config
begin

text \<open>
  \<open>internal/httpapi\<close>: requests and responses, the handlers of every endpoint, the CORS wrapper, and the
  routing table as \<open>http.ServeMux\<close> matches it. A handler is given the response headers set so far and
  returns the response with the changed state, or no response when it panics (\<open>net/http\<close> then drops the
  connection). \<open>hd_static\<close> is the web UI registered beside the API (\<open>Web_Ui\<close>), with no answer outside its path,
  and \<open>hd_ui_root\<close> tells its root without the slash, which \<open>ServeMux\<close> adds.
\<close>

section \<open>Requests and responses\<close>

text \<open>
  The path is the escaped path as sent; \<open>hr_rawquery\<close> is the query as sent and \<open>hr_query\<close> its values, which
  like the header values are listed in the order they were sent. The body may break off with an error.
\<close>

record http_request =
  hr_method :: string
  hr_path :: string
  hr_rawquery :: string
  hr_query :: "string \<Rightarrow> string list"
  hr_header :: "string \<Rightarrow> string list"
  hr_body :: "string + string"

type_synonym http_headers = "(string, string) gomap"

record http_response =
  rs_status :: int
  rs_headers :: http_headers
  rs_body :: string

definition first_value :: "string list \<Rightarrow> string" where
  "first_value vs = (case vs of [] \<Rightarrow> [] | v # _ \<Rightarrow> v)"

definition json_type :: string where "json_type = ''application/json''"

definition respond :: "http_headers \<Rightarrow> int \<Rightarrow> string \<Rightarrow> http_response" where
  "respond hs st body = \<lparr>rs_status = st, rs_headers = hs, rs_body = body\<rparr>"

text \<open>The encoder ends its document with a newline.\<close>

definition writeJSON :: "http_headers \<Rightarrow> int \<Rightarrow> string \<Rightarrow> http_response" where
  "writeJSON hs st body = respond (gm_put ''Content-Type'' json_type hs) st (body @ [CHR 0x0A])"

definition error_json :: "oauth_error \<Rightarrow> string" where
  "error_json e = json_object ([(''error'', quote (err_code e))] @ opt_member ''error_description'' (err_description e))"

fun writeOAuthError :: "http_headers \<Rightarrow> go_error \<Rightarrow> http_response" where
  "writeOAuthError hs (OAuth exc) = writeJSON hs (http_status exc) (error_json (exc_err exc))"
| "writeOAuthError hs (Plain s) =
     writeJSON hs 500 (error_json \<lparr>err_code = InvalidRequest, err_description = s\<rparr>)"

definition http_error :: "http_headers \<Rightarrow> string \<Rightarrow> int \<Rightarrow> http_response" where
  "http_error hs msg st =
     respond (gm_put ''X-Content-Type-Options'' ''nosniff'' (gm_put ''Content-Type'' ''text/plain; charset=utf-8'' hs))
       st (msg @ [CHR 0x0A])"

definition http_NotFound :: "http_headers \<Rightarrow> http_response" where
  "http_NotFound hs = http_error hs ''404 page not found'' 404"

text \<open>What a handler does with the outcome of a service call.\<close>

fun reply_with ::
  "http_headers \<Rightarrow> ('a \<Rightarrow> http_response) \<Rightarrow> 'a result \<times> 'p \<Rightarrow> http_response option \<times> 'p" where
  "reply_with hs ok (Ok x, p) = (Some (ok x), p)"
| "reply_with hs ok (Err e, p) = (Some (writeOAuthError hs e), p)"
| "reply_with hs ok (Panic msg, p) = (None, p)"

section \<open>Reading the request\<close>

definition parseIntParam :: "string \<Rightarrow> int \<Rightarrow> int" where
  "parseIntParam v fallback =
     (if v = [] then fallback
      else case atoi v of None \<Rightarrow> fallback | Some n \<Rightarrow> if n < 1 then fallback else n)"

fun prefix_loop :: "string \<Rightarrow> string \<Rightarrow> bool" where
  "prefix_loop (a # as) (b # bs) = (if lower_char a \<noteq> lower_char b then False else prefix_loop as bs)"
| "prefix_loop _ _ = True"

definition hasCaseInsensitivePrefix :: "string \<Rightarrow> string \<Rightarrow> bool" where
  "hasCaseInsensitivePrefix s p = (if length s < length p then False else prefix_loop s p)"

fun strip_scheme :: "string list \<Rightarrow> string \<Rightarrow> string" where
  "strip_scheme [] authHeader = []"
| "strip_scheme (p # ps) authHeader =
     (if hasCaseInsensitivePrefix authHeader p then drop (length p) authHeader else strip_scheme ps authHeader)"

definition extractAccessToken :: "string \<Rightarrow> string" where
  "extractAccessToken authHeader = strip_scheme [''Bearer '', ''DPoP ''] authHeader"

text \<open>\<open>json.NewDecoder(r.Body).Decode(&req)\<close> on a \<open>TriggerIssuanceRequest\<close>.\<close>

definition zero_trigger :: trigger_request where
  "zero_trigger = \<lparr>tr_credential_type = [], tr_credential_data = None, tr_source_type = [], tr_source_ref = []\<rparr>"

definition assign_trigger ::
  "float_ops \<Rightarrow> string \<Rightarrow> string json \<Rightarrow> trigger_request \<Rightarrow> trigger_request option" where
  "assign_trigger fo n v r =
     (if n = ''credential_type'' then
        map_option (\<lambda>s. r\<lparr>tr_credential_type := s\<rparr>) (decode_string (tr_credential_type r) v)
      else if n = ''credential_data'' then
        map_option (\<lambda>m. r\<lparr>tr_credential_data := m\<rparr>) (decode_map fo (tr_credential_data r) v)
      else if n = ''source_type'' then
        map_option (\<lambda>s. r\<lparr>tr_source_type := s\<rparr>) (decode_string (tr_source_type r) v)
      else map_option (\<lambda>s. r\<lparr>tr_source_ref := s\<rparr>) (decode_string (tr_source_ref r) v))"

definition decode_trigger :: "float_ops \<Rightarrow> string + string \<Rightarrow> trigger_request result" where
  "decode_trigger fo body =
     (let failed = (\<lambda>e. Err (BadRequest InvalidRequest (''Invalid request body: '' @ e)))
      in case body of
           Inl e \<Rightarrow> failed e
         | Inr s \<Rightarrow>
             (case Option.bind (decode_first s) (decode_struct
                 [''credential_type'', ''credential_data'', ''source_type'', ''source_ref''] (assign_trigger fo) zero_trigger) of
                None \<Rightarrow> failed (json_error fo s)
              | Some r \<Rightarrow> Ok r))"

section \<open>The documents\<close>

definition view_json :: "record_view \<Rightarrow> string" where
  "view_json v = json_object
     ([(''id'', quote (vw_id v)), (''credential_type'', quote (vw_credential_type v)), (''status'', quote (vw_status v)),
       (''source_type'', quote (vw_source_type v)), (''source_ref'', quote (vw_source_ref v)),
       (''created_at'', quote (vw_created_at v)), (''updated_at'', quote (vw_updated_at v))] @
      opt_member ''subject_name'' (vw_subject_name v) @
      [(''credential_data'', quote (vw_credential_data v))] @
      opt_member ''credential_status'' (vw_credential_status v))"

definition list_json :: "list_result \<Rightarrow> string" where
  "list_json r = json_object
     [(''records'', json_array (map view_json (lr_records r))), (''total'', show_int (lr_total r)),
      (''page'', show_int (lr_page r)), (''size'', show_int (lr_size r))]"

definition trigger_json :: "trigger_result \<Rightarrow> string" where
  "trigger_json r = json_object
     [(''issuance_id'', quote (ti_issuance_id r)), (''credential_offer_uri'', quote (ti_credential_offer_uri r))]"

definition string_map_json :: "(string, string) gomap \<Rightarrow> string" where
  "string_map_json m = json_object (map (\<lambda>(k, v). (k, quote v)) (sort_key fst m))"

definition credential_json :: "credential_response \<Rightarrow> string" where
  "credential_json r = json_object
     ((if resp_credentials r = [] then [] else
         [(''credentials'', json_array (map string_map_json (resp_credentials r)))]) @
      opt_member ''transaction_id'' (resp_transaction_id r) @ opt_member ''notification_id'' (resp_notification_id r))"

definition metadata_json :: "config issuer_metadata \<Rightarrow> string" where
  "metadata_json m = json_object
     [(''credential_issuer'', quote (md_credential_issuer m)),
      (''authorization_servers'', json_array (map quote (md_authorization_servers m))),
      (''credential_endpoint'', quote (md_credential_endpoint m)),
      (''nonce_endpoint'', quote (md_nonce_endpoint m)),
      (''notification_endpoint'', quote (md_notification_endpoint m)),
      (''credential_configurations_supported'', json_object
         (map (\<lambda>(k, c). (k, config_json c)) (sort_key fst (md_configurations m)))),
      (''display'', json_array (map (\<lambda>d. json_object
         [(''name'', quote (md_name d)), (''locale'', quote (md_locale d))]) (md_displays m)))]"

section \<open>The handlers\<close>

record ('k, 'ks, 'sg, 's) handler =
  hd_baseURL :: string
  hd_authServerURL :: string
  hd_issuableSchemes :: "string list"
  hd_issuance :: "('k, 'ks, 'sg, 's) service_env"
  hd_openAPISpec :: string
  hd_static :: "http_request \<Rightarrow> http_response option"
  hd_ui_root :: "string \<Rightarrow> bool"

record ('s, 'ks) app =
  ap_service :: "('s, 'ks) service"
  ap_cache :: scheme_cache

type_synonym ('s, 'ks) handled = "http_response option \<times> ('s, 'ks) app"

definition on_service ::
  "(('s, 'ks) service \<Rightarrow> 'a \<times> ('s, 'ks) service) \<Rightarrow> ('s, 'ks) app \<Rightarrow> 'a \<times> ('s, 'ks) app" where
  "on_service f ap = (let (a, sv) = f (ap_service ap) in (a, ap\<lparr>ap_service := sv\<rparr>))"

definition health :: "http_headers \<Rightarrow> ('s, 'ks) app \<Rightarrow> ('s, 'ks) handled" where
  "health hs ap =
     (let status = (if Stale (ap_cache ap) then ''degraded'' else ''ok'')
      in (Some (writeJSON hs 200 (string_map_json [(''status'', status)])), ap))"

fun add_configs :: "(string, config) gomap \<Rightarrow> (string, config) gomap \<Rightarrow> (string, config) gomap" where
  "add_configs [] out = out"
| "add_configs ((i, c) # cs) out = add_configs cs (gm_put i c out)"

fun collect_configs :: "string list \<Rightarrow> scheme_cache \<Rightarrow> (string, config) gomap \<Rightarrow> (string, config) gomap" where
  "collect_configs [] c out = out"
| "collect_configs (i # is) c out =
     (case cache_Get i c of
        None \<Rightarrow> collect_configs is c out
      | Some def \<Rightarrow> collect_configs is c (add_configs (Build def) out))"

definition credentialIssuerMetadata ::
  "('k, 'ks, 'sg, 's) handler \<Rightarrow> http_headers \<Rightarrow> ('s, 'ks) app \<Rightarrow> ('s, 'ks) handled" where
  "credentialIssuerMetadata H hs ap =
     (let configs = collect_configs (hd_issuableSchemes H) (ap_cache ap) [];
          metadata = BuildCredentialIssuerMetadata (hd_baseURL H) (hd_authServerURL H) configs
      in (Some (writeJSON hs 200 (metadata_json metadata)), ap))"

definition jwks :: "('k, 'ks, 'sg, 's) handler \<Rightarrow> http_headers \<Rightarrow> ('s, 'ks) app \<Rightarrow> ('s, 'ks) handled" where
  "jwks H hs ap =
     (let E = hd_issuance H
      in reply_with hs (respond (gm_put ''Content-Type'' json_type hs) 200)
           (map_err (\<lambda>e. BadRequest InvalidRequest (''Failed to build JWK Set: '' @ error_text e))
              (JWKSetJSON (se_out E) (se_issuerKey E)), ap))"

text \<open>\<open>ListIssuanceRecords\<close> has no error result; where its model is not a value it has panicked.\<close>

definition listIssuanceRecords ::
  "('k, 'ks, 'sg, 's) handler \<Rightarrow> http_request \<Rightarrow> http_headers \<Rightarrow> ('s, 'ks) app \<Rightarrow> ('s, 'ks) handled" where
  "listIssuanceRecords H rq hs ap =
     (let page = parseIntParam (first_value (hr_query rq ''page'')) 1;
          sz = parseIntParam (first_value (hr_query rq ''size'')) 20;
          srt = first_value (hr_query rq ''sort''); srt = (if srt = [] then ''created_at'' else srt);
          ord = first_value (hr_query rq ''order''); ord = (if ord = [] then ''desc'' else ord);
          (r, ap) = on_service (ListIssuanceRecords (hd_issuance H) page sz srt ord) ap
      in (case r of Ok l \<Rightarrow> Some (writeJSON hs 200 (list_json l)) | _ \<Rightarrow> None, ap))"

definition triggerIssuance ::
  "('k, 'ks, 'sg, 's) handler \<Rightarrow> http_request \<Rightarrow> http_headers \<Rightarrow> ('s, 'ks) app \<Rightarrow> ('s, 'ks) handled" where
  "triggerIssuance H rq hs ap0 =
     reply_with hs (\<lambda>r. writeJSON hs 200 (trigger_json r))
       (st_then (decode_trigger (se_float (hd_issuance H)) (hr_body rq), ap0) (\<lambda>req ap.
        on_service (TriggerIssuance (hd_issuance H) req) ap))"

definition issuanceByIssuerState ::
  "('k, 'ks, 'sg, 's) handler \<Rightarrow> string \<Rightarrow> http_headers \<Rightarrow> ('s, 'ks) app \<Rightarrow> ('s, 'ks) handled" where
  "issuanceByIssuerState H issuerState hs ap =
     (case on_service (service_FindByIssuerState (hd_issuance H) issuerState) ap of
        (None, ap) \<Rightarrow> (Some (http_NotFound hs), ap)
      | (Some rc, ap) \<Rightarrow> (Some (writeJSON hs 200 (string_map_json [(''id'', rec_ID rc)])), ap))"

definition credentialOffer :: "string \<Rightarrow> http_headers \<Rightarrow> ('s, 'ks) app \<Rightarrow> ('s, 'ks) handled" where
  "credentialOffer i hs ap =
     (case service_GetCredentialOffer i (ap_service ap) of
        None \<Rightarrow> (Some (http_NotFound hs), ap)
      | Some offerJSON \<Rightarrow> (Some (respond (gm_put ''Content-Type'' json_type hs) 200 offerJSON), ap))"

definition no_store :: "http_headers \<Rightarrow> http_headers" where
  "no_store hs = gm_put ''Cache-Control'' ''no-store'' hs"

definition nonce_handler ::
  "('k, 'ks, 'sg, 's) handler \<Rightarrow> as_world \<Rightarrow> http_request \<Rightarrow> http_headers \<Rightarrow> ('s, 'ks) app \<Rightarrow> ('s, 'ks) handled" where
  "nonce_handler H A rq hs0 ap0 =
     (let hs = no_store hs0; accessToken = extractAccessToken (first_value (hr_header rq ''Authorization''))
      in reply_with hs (\<lambda>nonce. writeJSON hs 200 (string_map_json [(''c_nonce'', nonce)]))
           (st_then (SingleDPoPHeader (hr_header rq ''DPoP''), ap0) (\<lambda>dpopHeader ap.
            on_service (service_GenerateNonce (hd_issuance H) A accessToken dpopHeader) ap)))"

definition credential_checks :: "http_request \<Rightarrow> (string \<times> string \<times> string) result" where
  "credential_checks rq =
     (let authHeader = first_value (hr_header rq ''Authorization''); accessToken = extractAccessToken authHeader
      in then_ok (fail_if (accessToken = []) (Unauthorized InvalidToken ''Missing access token'')) (\<lambda>_.
         then_ok (fail_if (hasCaseInsensitivePrefix authHeader ''bearer '') (Unauthorized InvalidToken
           ''DPoP-bound tokens must use DPoP authorization scheme, not Bearer'')) (\<lambda>_.
         then_ok (SingleDPoPHeader (hr_header rq ''DPoP'')) (\<lambda>dpopHeader.
         then_ok (of_sum (\<lambda>e. BadRequest InvalidCredentialRequest (''Failed to read request body: '' @ e)) (hr_body rq))
           (\<lambda>body. Ok (accessToken, dpopHeader, body))))))"

definition credential ::
  "('k, 'ks, 'sg, 's) handler \<Rightarrow> as_world \<Rightarrow> http_request \<Rightarrow> http_headers \<Rightarrow> ('s, 'ks) app \<Rightarrow> ('s, 'ks) handled" where
  "credential H A rq hs0 ap0 =
     (let hs = no_store hs0
      in reply_with hs (\<lambda>resp. writeJSON hs 200 (credential_json resp))
           (st_then (credential_checks rq, ap0) (\<lambda>(accessToken, dpopHeader, body) ap.
            on_service (IssueCredential (hd_issuance H) A accessToken dpopHeader body) ap)))"

definition notification :: "http_headers \<Rightarrow> ('s, 'ks) app \<Rightarrow> ('s, 'ks) handled" where
  "notification hs ap = (Some (respond hs 204 []), ap)"

definition statusList ::
  "('k, 'ks, 'sg, 's) handler \<Rightarrow> string \<Rightarrow> http_headers \<Rightarrow> ('s, 'ks) app \<Rightarrow> ('s, 'ks) handled" where
  "statusList H listID hs ap =
     reply_with hs (respond (gm_put ''Cache-Control'' ''max-age=60'' (gm_put ''Content-Type'' ''application/statuslist+jwt'' hs)) 200)
       (on_service (GetStatusListToken (hd_issuance H) listID) ap)"

definition revokeIssuance ::
  "('k, 'ks, 'sg, 's) handler \<Rightarrow> string \<Rightarrow> http_headers \<Rightarrow> ('s, 'ks) app \<Rightarrow> ('s, 'ks) handled" where
  "revokeIssuance H i hs ap =
     reply_with hs (\<lambda>_. respond hs 204 []) (on_service (RevokeCredential (hd_issuance H) i) ap)"

definition openAPISpecHandler ::
  "('k, 'ks, 'sg, 's) handler \<Rightarrow> http_headers \<Rightarrow> ('s, 'ks) app \<Rightarrow> ('s, 'ks) handled" where
  "openAPISpecHandler H hs ap =
     (Some (respond (gm_put ''Content-Type'' ''application/yaml'' hs) 200 (hd_openAPISpec H)), ap)"

end
