(* ===== verification/Http_Routes.thy ===== *)
theory Http_Routes
  imports Http_Api
begin

text \<open>
  The routing table of \<open>httpapi.Routes\<close> as \<open>http.ServeMux\<close> reads it, the two documentation pages, and the
  CORS wrapper around everything. \<open>serve\<close> is one request to the issuer; a GET that no route takes goes to
  the web UI if it is under its base path, and a path that is not clean is answered with a redirect.
\<close>

section \<open>API documentation\<close>

definition swagger_lines :: "string list" where
  "swagger_lines =
     [''<!doctype html>'',
      ''<html>'',
      ''<head>'',
      ''  <meta charset=\"utf-8\">'',
      ''  <title>Fikua Lab Issuer &mdash; API docs</title>'',
      ''  <link rel=\"icon\" type=\"image/svg+xml\" href=\"/favicon.svg\">'',
      ''  <link rel=\"stylesheet\" href=\"https://cdnjs.cloudflare.com/ajax/libs/swagger-ui/5.17.14/swagger-ui.min.css\">'',
      ''</head>'',
      ''<body>'',
      ''  <div id=\"swagger-ui\"></div>'',
      ''  <script src=\"https://cdnjs.cloudflare.com/ajax/libs/swagger-ui/5.17.14/swagger-ui-bundle.min.js\"></script>'',
      ''  <script>'',
      ''    window.onload = () => {'',
      ''      window.ui = SwaggerUIBundle({'',
      ''        url: '' @ [CHR 0x27] @ ''/openapi.yaml'' @ [CHR 0x27] @ '','',
      ''        dom_id: '' @ [CHR 0x27] @ ''#swagger-ui'' @ [CHR 0x27] @ '','',
      ''        presets: [SwaggerUIBundle.presets.apis],'',
      ''      });'',
      ''    };'',
      ''  </script>'',
      ''</body>'',
      ''</html>'']"

definition swaggerPage :: string where
  "swaggerPage = join_with [CHR 0x0A] swagger_lines"

definition swaggerUI :: "http_headers \<Rightarrow> ('s, 'ks) app \<Rightarrow> ('s, 'ks) handled" where
  "swaggerUI hs ap = (Some (respond (gm_put ''Content-Type'' ''text/html; charset=utf-8'' hs) 200 swaggerPage), ap)"

section \<open>Routes\<close>

datatype endpoint =
    Health | Metadata | Jwks | ListRecords | Trigger | ByIssuerState string | Offer string | Nonce
  | CredentialEP | Notification | StatusListEP string | Revoke string | OpenAPI | Swagger

datatype segment = Lit string | Wild

type_synonym route = "string \<times> segment list \<times> (string \<Rightarrow> endpoint)"

definition api :: "string list \<Rightarrow> segment list" where
  "api ss = map Lit ([''oid4vci'', ''v1''] @ ss)"

definition Routes :: "route list" where
  "Routes =
     [(''GET'', [Lit ''health''], \<lambda>_. Health),
      (''GET'', [Lit ''.well-known'', Lit ''openid-credential-issuer''], \<lambda>_. Metadata),
      (''GET'', api [''jwks''], \<lambda>_. Jwks),
      (''GET'', api [''issuance''], \<lambda>_. ListRecords),
      (''POST'', api [''issuance''], \<lambda>_. Trigger),
      (''GET'', api [''issuance'', ''by-issuer-state''] @ [Wild], ByIssuerState),
      (''GET'', api [''credential-offer''] @ [Wild], Offer),
      (''POST'', api [''nonce''], \<lambda>_. Nonce),
      (''POST'', api [''credential''], \<lambda>_. CredentialEP),
      (''POST'', api [''notification''], \<lambda>_. Notification),
      (''GET'', api [''status-list''] @ [Wild], StatusListEP),
      (''POST'', api [''issuance''] @ [Wild, Lit ''revoke''], Revoke),
      (''GET'', [Lit ''openapi.yaml''], \<lambda>_. OpenAPI),
      (''GET'', [Lit ''swagger''], \<lambda>_. Swagger)]"

text \<open>
  Segments are compared after unescaping; a segment with a malformed escape stays as it is. A wildcard
  takes one segment, but not the empty one after a trailing slash (nor one that unescapes to a slash).
  The result is what the wildcard took.
\<close>

definition segment_value :: "string \<Rightarrow> string" where
  "segment_value s = (case unescape_path s of None \<Rightarrow> s | Some t \<Rightarrow> t)"

fun match_path :: "segment list \<Rightarrow> string list \<Rightarrow> string option" where
  "match_path [] [] = Some []"
| "match_path (Lit l # ps) (s # ss) = (if segment_value s = l then match_path ps ss else None)"
| "match_path (Wild # ps) (s # ss) =
     (if s = [] \<or> segment_value s = ''/'' then None
      else case match_path ps ss of None \<Rightarrow> None | Some _ \<Rightarrow> Some (segment_value s))"
| "match_path _ _ = None"

definition path_segments :: "string \<Rightarrow> string list" where
  "path_segments p = split_on (CHR ''/'') (tl p)"

text \<open>A GET pattern serves HEAD too.\<close>

definition method_serves :: "string \<Rightarrow> string \<Rightarrow> bool" where
  "method_serves m r \<longleftrightarrow> m = r \<or> m = ''GET'' \<and> r = ''HEAD''"

fun find_route :: "route list \<Rightarrow> string \<Rightarrow> string list \<Rightarrow> endpoint option" where
  "find_route [] r ss = None"
| "find_route ((m, ps, ep) # rs) r ss =
     (case match_path ps ss of
        Some v \<Rightarrow> if method_serves m r then Some (ep v) else find_route rs r ss
      | None \<Rightarrow> find_route rs r ss)"

text \<open>
  The answer where no route matches: the web UI takes a GET or HEAD under its base path; otherwise, if
  the path is served under other methods the client is told which, and if not it is not found.
\<close>

definition path_has :: "string \<Rightarrow> string list \<Rightarrow> bool" where
  "path_has m ss \<longleftrightarrow> list_ex (\<lambda>(n, ps, _). n = m \<and> match_path ps ss \<noteq> None) Routes"

definition allowed_methods :: "('k, 'ks, 'sg, 's) handler \<Rightarrow> http_request \<Rightarrow> string list" where
  "allowed_methods H rq =
     (let ss = path_segments (hr_path rq)
      in (if path_has ''GET'' ss \<or> hd_static H rq \<noteq> None \<or> hd_ui_root H (hr_path rq) then [''GET'', ''HEAD''] else []) @
         (if path_has ''POST'' ss then [''POST''] else []))"

definition merge_headers :: "http_headers \<Rightarrow> http_response \<Rightarrow> http_response" where
  "merge_headers hs r = r\<lparr>rs_headers := foldl (\<lambda>m (k, v). gm_put k v m) hs (rs_headers r)\<rparr>"

definition unrouted :: "('k, 'ks, 'sg, 's) handler \<Rightarrow> http_request \<Rightarrow> http_headers \<Rightarrow> http_response" where
  "unrouted H rq hs =
     (case (if hr_method rq \<in> {''GET'', ''HEAD''} then hd_static H rq else None) of
        Some r \<Rightarrow> merge_headers hs r
      | None \<Rightarrow>
          if allowed_methods H rq = [] then http_NotFound hs
          else http_error (gm_put ''Allow'' (join_with '', '' (allowed_methods H rq)) hs) ''Method Not Allowed'' 405)"

fun handle ::
  "('k, 'ks, 'sg, 's) handler \<Rightarrow> as_world \<Rightarrow> http_request \<Rightarrow> endpoint \<Rightarrow> http_headers \<Rightarrow> ('s, 'ks) app \<Rightarrow>
   ('s, 'ks) handled" where
  "handle H A rq Health hs ap = health hs ap"
| "handle H A rq Metadata hs ap = credentialIssuerMetadata H hs ap"
| "handle H A rq Jwks hs ap = jwks H hs ap"
| "handle H A rq ListRecords hs ap = listIssuanceRecords H rq hs ap"
| "handle H A rq Trigger hs ap = triggerIssuance H rq hs ap"
| "handle H A rq (ByIssuerState s) hs ap = issuanceByIssuerState H s hs ap"
| "handle H A rq (Offer i) hs ap = credentialOffer i hs ap"
| "handle H A rq Nonce hs ap = nonce_handler H A rq hs ap"
| "handle H A rq CredentialEP hs ap = credential H A rq hs ap"
| "handle H A rq Notification hs ap = notification hs ap"
| "handle H A rq (StatusListEP i) hs ap = statusList H i hs ap"
| "handle H A rq (Revoke i) hs ap = revokeIssuance H i hs ap"
| "handle H A rq OpenAPI hs ap = openAPISpecHandler H hs ap"
| "handle H A rq Swagger hs ap = swaggerUI hs ap"

text \<open>
  \<open>http.Redirect\<close> to a path on this server, with the query of the request, as \<open>ServeMux\<close> uses it: with status
  307 since Go 1.26, the version \<open>go.mod\<close> names. The path is clean, so that cleaning it once more does
  nothing; a GET is also given a link.
\<close>

definition hex_escape_non_ascii :: "string \<Rightarrow> string" where
  "hex_escape_non_ascii s =
     concat (map (\<lambda>c. if (128 :: nat) \<le> of_char c
                       then CHR ''%'' # map lower_char [hex_digit (of_char c div 16), hex_digit (of_char c mod 16)]
                       else [c]) s)"

definition html_escape :: "string \<Rightarrow> string" where
  "html_escape s =
     concat (map (\<lambda>c. if c = CHR ''&'' then ''&amp;'' else if c = CHR ''<'' then ''&lt;'' else if c = CHR ''>'' then ''&gt;''
                       else if c = CHR 0x22 then ''&#34;'' else if c = CHR 0x27 then ''&#39;'' else [c]) s)"

definition redirect :: "http_request \<Rightarrow> string \<Rightarrow> http_headers \<Rightarrow> http_response" where
  "redirect rq path hs0 =
     (let target = url_string (empty_url\<lparr>u_path := path, u_raw_query := hr_rawquery rq\<rparr>);
          hs = gm_put ''Location'' (hex_escape_non_ascii target) hs0;
          hs = (if hr_method rq \<in> {''GET'', ''HEAD''} then gm_put ''Content-Type'' ''text/html; charset=utf-8'' hs else hs)
      in respond hs 307
           (if hr_method rq = ''GET''
            then ''<a href=\"'' @ html_escape target @ ''\">Temporary Redirect</a>.'' @ [CHR 0x0A, CHR 0x0A] else []))"

text \<open>
  The request target \<open>*\<close> is refused. Otherwise the route is looked up under the clean path (a CONNECT is
  taken as it is); the root of the web UI is given its slash, unless a route takes it, and a path that was
  not clean is redirected, whether anything is there or not.
\<close>

definition mux_path :: "http_request \<Rightarrow> string" where
  "mux_path rq = (if hr_method rq = ''CONNECT'' then hr_path rq else cleanPath (hr_path rq))"

definition serve_mux ::
  "('k, 'ks, 'sg, 's) handler \<Rightarrow> as_world \<Rightarrow> http_request \<Rightarrow> http_headers \<Rightarrow> ('s, 'ks) app \<Rightarrow> ('s, 'ks) handled" where
  "serve_mux H A rq hs ap =
     (let p = mux_path rq; found = find_route Routes (hr_method rq) (path_segments p)
      in if hr_path rq = ''*'' then (Some (respond (gm_put ''Connection'' ''close'' hs) 400 []), ap)
         else if found = None \<and> hr_method rq \<in> {''GET'', ''HEAD''} \<and> hd_ui_root H p then
           (Some (redirect rq (cleanPath (segment_value (hr_path rq)) @ ''/'') hs), ap)
         else if p \<noteq> hr_path rq then (Some (redirect rq p hs), ap)
         else (case found of
                 Some ep \<Rightarrow> handle H A rq ep hs ap
               | None \<Rightarrow> (Some (unrouted H rq hs), ap)))"

text \<open>What the mux can do with a request: refuse or redirect it, hand it to the handler of its path, or answer
  that there is none.\<close>

definition redirected :: "('k, 'ks, 'sg, 's) handler \<Rightarrow> http_request \<Rightarrow> bool" where
  "redirected H rq \<longleftrightarrow> mux_path rq \<noteq> hr_path rq \<or> hr_method rq \<in> {''GET'', ''HEAD''} \<and> hd_ui_root H (hr_path rq)"

lemma serve_mux_cases:
  obtains (refused) "hr_path rq = ''*''" "serve_mux H A rq hs ap = (Some (respond (gm_put ''Connection'' ''close'' hs) 400 []), ap)"
  | (redirected) p where "redirected H rq" "serve_mux H A rq hs ap = (Some (redirect rq p hs), ap)"
  | (routed) ep where "find_route Routes (hr_method rq) (path_segments (hr_path rq)) = Some ep"
      "serve_mux H A rq hs ap = handle H A rq ep hs ap"
  | (unmatched) "find_route Routes (hr_method rq) (path_segments (hr_path rq)) = None"
      "serve_mux H A rq hs ap = (Some (unrouted H rq hs), ap)"
proof -
  let ?p = "mux_path rq" and ?found = "find_route Routes (hr_method rq) (path_segments (mux_path rq))"
  let ?root = "?found = None \<and> hr_method rq \<in> {''GET'', ''HEAD''} \<and> hd_ui_root H ?p"
  note def = serve_mux_def [of H A rq hs ap, unfolded Let_def]
  consider "hr_path rq = ''*''" | "hr_path rq \<noteq> ''*''" "?root" | "hr_path rq \<noteq> ''*''" "\<not> ?root" "?p \<noteq> hr_path rq"
    | "hr_path rq \<noteq> ''*''" "\<not> ?root" "?p = hr_path rq" by blast
  then show thesis
  proof cases
    case 1
    then show thesis using def by (intro refused) (simp_all only: if_True simp_thms)
  next
    case 2
    then have "redirected H rq" unfolding redirected_def by metis
    with 2 show thesis using def by (intro redirected) (simp_all only: if_True if_False simp_thms)
  next
    case 3
    then have "redirected H rq" unfolding redirected_def by metis
    with 3 show thesis using def by (intro redirected) (simp_all only: if_True if_False simp_thms)
  next
    case 4
    then have v: "serve_mux H A rq hs ap = (case ?found of Some ep \<Rightarrow> handle H A rq ep hs ap | None \<Rightarrow> (Some (unrouted H rq hs), ap))"
      using def by (simp only: if_False simp_thms)
    show thesis
    proof (cases ?found)
      case None
      with 4(3) v show thesis by (intro unmatched) (simp_all only: option.case)
    next
      case (Some ep)
      with 4(3) v show thesis by (intro routed [of ep]) (simp_all only: option.case)
    qed
  qed
qed

lemma serve_mux_routed:
  assumes "find_route Routes (hr_method rq) (path_segments (hr_path rq)) = Some ep" and "cleanPath (hr_path rq) = hr_path rq"
    and "hr_path rq \<noteq> ''*''"
  shows "serve_mux H A rq hs ap = handle H A rq ep hs ap"
  using assms by (simp add: serve_mux_def mux_path_def Let_def)

section \<open>CORS\<close>

definition cors_headers :: "http_headers \<Rightarrow> http_headers" where
  "cors_headers hs =
     gm_put ''Access-Control-Allow-Headers''
       ''Content-Type, Authorization, DPoP, OAuth-Client-Attestation, OAuth-Client-Attestation-PoP''
     (gm_put ''Access-Control-Allow-Methods'' ''GET, POST, OPTIONS''
     (gm_put ''Access-Control-Allow-Origin'' ''*'' hs))"

definition WithCORS ::
  "(http_request \<Rightarrow> http_headers \<Rightarrow> ('s, 'ks) app \<Rightarrow> ('s, 'ks) handled) \<Rightarrow>
   http_request \<Rightarrow> http_headers \<Rightarrow> ('s, 'ks) app \<Rightarrow> ('s, 'ks) handled" where
  "WithCORS nxt rq hs0 ap =
     (let hs = cors_headers hs0
      in if hr_method rq = ''OPTIONS'' then (Some (respond hs 204 []), ap) else nxt rq hs ap)"

definition serve ::
  "('k, 'ks, 'sg, 's) handler \<Rightarrow> as_world \<Rightarrow> http_request \<Rightarrow> ('s, 'ks) app \<Rightarrow> ('s, 'ks) handled" where
  "serve H A rq ap = WithCORS (serve_mux H A) rq [] ap"

section \<open>The table\<close>

text \<open>Two patterns overlap when some path matches both; none do under one method.\<close>

fun overlap :: "segment list \<Rightarrow> segment list \<Rightarrow> bool" where
  "overlap [] [] = True"
| "overlap (Lit l # ps) (Lit m # qs) = (l = m \<and> overlap ps qs)"
| "overlap (p # ps) (q # qs) = overlap ps qs"
| "overlap _ _ = False"

lemma overlap_complete: "match_path ps ss \<noteq> None \<Longrightarrow> match_path qs ss \<noteq> None \<Longrightarrow> overlap ps qs"
proof (induction ss arbitrary: ps qs)
  case Nil
  then show ?case by (cases ps; cases qs) auto
next
  case (Cons s ss)
  obtain p ps' q qs' where e: "ps = p # ps'" "qs = q # qs'"
    using Cons.prems by (cases ps; cases qs) auto
  with Cons show ?case by (cases p; cases q) (auto split: if_splits option.splits)
qed

lemma routes_disjoint:
  "sorted_wrt (\<lambda>(m, ps, _) (n, qs, _). m \<noteq> n \<or> \<not> overlap ps qs) Routes"
  unfolding Routes_def api_def by simp

end
