(* ===== verification/Settings.thy ===== *)
theory Settings
  imports Go_Std
begin

text \<open>
  \<open>internal/config\<close>: the issuer's configuration from environment variables. An unset variable reads as
  the empty string, as \<open>os.Getenv\<close> has it.
\<close>

type_synonym environment = "string \<Rightarrow> string"

record app_config =
  Addr :: string
  BasePath :: string
  BaseURL :: string
  AttestationRegistryURL :: string
  RegistryRefreshInterval :: duration
  IssuableSchemes :: "string list"
  CertsDir :: string
  DSSURL :: string
  DSSClientID :: string
  DSSClientSecret :: string
  DSSCredentialID :: string
  DSSCredentialPassword :: string
  DBURL :: string
  AuthServerURL :: string

definition getenv :: "environment \<Rightarrow> string \<Rightarrow> string \<Rightarrow> string" where
  "getenv env key fallback = (if env key \<noteq> [] then env key else fallback)"

fun csv_loop :: "string list \<Rightarrow> string list" where
  "csv_loop [] = []"
| "csv_loop (s # ss) = (let t = trim_space s in if t \<noteq> [] then t # csv_loop ss else csv_loop ss)"

definition splitCSV :: "string \<Rightarrow> string list" where
  "splitCSV v = csv_loop (split_on (CHR '','') v)"

definition Load :: "environment \<Rightarrow> app_config" where
  "Load env =
     \<lparr>Addr = getenv env ''ADDR'' '':8080'',
      BasePath = getenv env ''BASE_PATH'' [],
      BaseURL = getenv env ''FIKUA_BASE_URL'' ''https://issuer.fikua.com'',
      AttestationRegistryURL = getenv env ''FIKUA_ATTESTATION_REGISTRY_URL'' ''https://attestation-registry.fikua.com'',
      RegistryRefreshInterval = 5 * minute,
      IssuableSchemes = splitCSV (getenv env ''FIKUA_ISSUABLE_SCHEMES'' ''urn:eudi:pid:1,urn:fikua:padro:barcelona:1''),
      CertsDir = getenv env ''FIKUA_CERTS_DIR'' ''./certs'',
      DSSURL = getenv env ''FIKUA_DSS_URL'' [],
      DSSClientID = getenv env ''FIKUA_DSS_CLIENT_ID'' [],
      DSSClientSecret = getenv env ''FIKUA_DSS_CLIENT_SECRET'' [],
      DSSCredentialID = getenv env ''FIKUA_DSS_CREDENTIAL_ID'' [],
      DSSCredentialPassword = getenv env ''FIKUA_DSS_CREDENTIAL_PASSWORD'' [],
      DBURL = getenv env ''FIKUA_DB_URL'' [],
      AuthServerURL = getenv env ''FIKUA_AUTH_SERVER_URL'' ''https://idp.fikua.com''\<rparr>"

section \<open>Trimmed entries\<close>

definition trimmed :: "string \<Rightarrow> bool" where
  "trimmed s \<longleftrightarrow> s \<noteq> [] \<and> list_all (\<lambda>p. \<not> has_prefix s p \<and> \<not> has_prefix (rev s) (rev p)) space_runes"

lemma trim_fuel_suffix: "suffix (trim_left_fuel n sps s) s"
proof (induction n arbitrary: s)
  case (Suc n)
  show ?case
  proof (cases "List.find (has_prefix s) sps")
    case (Some p)
    then show ?thesis using suffix_order.trans [OF Suc.IH suffix_drop] by simp
  qed simp
qed simp

lemma trim_right_prefix: "prefix (trim_right s) s"
  using trim_fuel_suffix [of "length s" "map rev space_runes" "rev s"]
  by (simp add: trim_right_def suffix_to_prefix)

lemma trim_right_no_space:
  assumes "q \<in> set space_runes"
  shows "\<not> has_prefix (rev (trim_right s)) (rev q)"
proof -
  have "\<not> has_prefix (trim_left_fuel (length s) (map rev space_runes) (rev s)) (rev q)"
    by (rule trim_left_fuel_done) (use assms in \<open>auto simp: space_runes_nonempty\<close>)
  then show ?thesis by (simp add: trim_right_def)
qed

lemma trim_space_trimmed:
  assumes "trim_space s \<noteq> []"
  shows "trimmed (trim_space s)"
proof -
  have "\<not> has_prefix (trim_space s) q" if "q \<in> set space_runes" for q
    using trim_left_no_space [OF that, of s] trim_right_prefix [of "trim_left s"]
    unfolding has_prefix_iff trim_space_def by (meson prefix_order.trans)
  moreover have "\<not> has_prefix (rev (trim_space s)) (rev q)" if "q \<in> set space_runes" for q
    unfolding trim_space_def using that by (rule trim_right_no_space)
  ultimately show ?thesis using assms by (simp add: trimmed_def list_all_iff)
qed

lemma csv_loop_filter: "csv_loop ss = filter (\<lambda>s. s \<noteq> []) (map trim_space ss)"
  by (induction ss) (simp_all add: Let_def)

text \<open>C39 (type): whatever the environment says, every configured scheme id is non-empty and free of
  white space at both ends, and the ids are the comma-separated parts in their order; an empty setting
  falls back to the two default schemes.\<close>

theorem issuable_schemes_clean:
  "list_all trimmed (IssuableSchemes (Load env)) \<and>
   IssuableSchemes (Load env) = filter (\<lambda>s. s \<noteq> []) (map trim_space (split_on (CHR '','')
     (getenv env ''FIKUA_ISSUABLE_SCHEMES'' ''urn:eudi:pid:1,urn:fikua:padro:barcelona:1''))) \<and>
   IssuableSchemes (Load (\<lambda>_. [])) = [''urn:eudi:pid:1'', ''urn:fikua:padro:barcelona:1'']"
proof (intro conjI)
  show "list_all trimmed (IssuableSchemes (Load env))"
    by (auto simp: Load_def splitCSV_def csv_loop_filter list_all_iff trim_space_trimmed)
  show "IssuableSchemes (Load (\<lambda>_. [])) = [''urn:eudi:pid:1'', ''urn:fikua:padro:barcelona:1'']"
    unfolding Load_def getenv_def by code_simp
qed (simp add: Load_def splitCSV_def csv_loop_filter)

end
