(* ===== verification/Http_Props.thy ===== *)
theory Http_Props
  imports Http_Routes Service_Props Settings
begin

text \<open>
  What the HTTP layer guarantees around the service: which requests reach it and with what, that
  reading requests change nothing, which statuses and headers clients can see, and how the metadata
  relates to what can be issued.
\<close>

section \<open>Reading changes nothing\<close>

text \<open>\<open>same_business tab ent sv sv'\<close>: records, list entries, nonces and offers, the replay store and the
  verifier are what they were; clock, entropy and the cached status list token may have moved.\<close>

definition same_business ::
  "('s \<Rightarrow> string \<Rightarrow> issuance_record option) \<Rightarrow> ('s \<Rightarrow> string \<Rightarrow> (int \<times> byte) option) \<Rightarrow>
   ('s, 'ks) service \<Rightarrow> ('s, 'ks) service \<Rightarrow> bool" where
  "same_business tab ent sv sv' \<longleftrightarrow>
     tab (sv_store sv') = tab (sv_store sv) \<and> ent (sv_store sv') = ent (sv_store sv) \<and>
     sv_sessions sv' = sv_sessions sv \<and> sv_jtis sv' = sv_jtis sv \<and> sv_tokens sv' = sv_tokens sv"

lemma same_business_refl [simp]: "same_business tab ent sv sv"
  by (simp add: same_business_def)

lemma same_business_world [simp]:
  "same_business tab ent sv (snd (on_world f sv))"
  "sv_store (snd (on_world f sv)) = sv_store sv"
  by (simp_all add: same_business_def on_world_def split_beta)

lemma snd_reply_with: "snd (reply_with hs ok m) = snd m"
  by (cases m; cases "fst m") auto

text \<open>The endpoints that only read.\<close>

fun reading :: "endpoint \<Rightarrow> bool" where
  "reading Trigger = False"
| "reading Nonce = False"
| "reading CredentialEP = False"
| "reading Notification = False"
| "reading (Revoke i) = False"
| "reading ep = True"

lemma find_route_in: "find_route rs r ss = Some ep \<Longrightarrow>
    \<exists>m ps f v. (m, ps, f) \<in> set rs \<and> method_serves m r \<and> match_path ps ss = Some v \<and> ep = f v"
  by (induction rs) (auto split: option.splits if_splits, blast+)

lemma routes_reading:
  assumes "find_route Routes r ss = Some ep" and "r \<noteq> ''POST''"
  shows "reading ep"
  using find_route_in [OF assms(1)] assms(2) by (auto simp: Routes_def method_serves_def)

context issuance_store
begin

definition reads :: "('s, 'ks) service \<Rightarrow> ('s, 'ks) service \<Rightarrow> bool" where
  "reads sv sv' \<longleftrightarrow>
     (sound (sv_store sv) \<and> sane (sv_store sv) \<longrightarrow>
      sound (sv_store sv') \<and> sane (sv_store sv') \<and> same_business tab ent sv sv')"

lemma reads_refl: "reads sv sv"
  by (simp add: reads_def)

lemma reads_trans: "reads a b \<Longrightarrow> reads b c \<Longrightarrow> reads a c"
  by (auto simp: reads_def same_business_def)

lemma reads_world: "reads sv (snd (on_world f sv))"
  by (simp add: reads_def)

lemma reads_store:
  assumes "\<And>s a s'. f s = (a, s') \<Longrightarrow> sound s \<Longrightarrow> sane s \<Longrightarrow> sound s' \<and> sane s' \<and> tab s' = tab s \<and> ent s' = ent s"
  shows "reads sv (snd (on_store f sv))"
  using assms [of "sv_store sv"] by (cases "f (sv_store sv)") (auto simp: reads_def same_business_def on_store_def)

lemma reads_FindByID: "reads sv (snd (on_store (ro_FindByID R i) sv))"
  by (rule reads_store) (metis find find_frame)

lemma reads_FindByIssuerState: "reads sv (snd (on_store (ro_FindByIssuerState R i) sv))"
  by (rule reads_store) (metis find_issuer_state find_issuer_state_frame)

lemma reads_FindAll: "reads sv (snd (on_store (ro_FindAll R off lim f ord) sv))"
  by (rule reads_store) (metis find_all find_all_frame)

lemma reads_lookup: "reads sv (snd (on_store (so_FindByRecordID S i) sv))"
  by (rule reads_store) (metis lookup lookup_frame)

lemma reads_entries: "reads sv (snd (on_store (so_AllEntries S) sv))"
  by (rule reads_store) (metis entries entries_frame)

lemma reads_st_then:
  "reads sv (snd m) \<Longrightarrow> (\<And>x s. m = (Ok x, s) \<Longrightarrow> reads s (snd (f x s))) \<Longrightarrow> reads sv (snd (st_then m f))"
  by (cases m; cases "fst m") (auto intro: reads_trans)

lemma reads_cache: "reads sv (sv\<lparr>sv_cacheToken := t, sv_cacheExp := e\<rparr>)"
  by (simp add: reads_def same_business_def)

lemma reads_views:
  assumes "se_status E = S"
  shows "reads sv (snd (build_views E rcs sv))"
proof (induction rcs arbitrary: sv)
  case (Cons rc rcs)
  have "snd (credentialStatusLabel E (rec_ID rc) sv) = snd (on_store (so_FindByRecordID S (rec_ID rc)) sv)"
    by (simp add: credentialStatusLabel_def assms split: prod.split option.split)
  with reads_lookup [of sv "rec_ID rc"] Cons.IH show ?case by (auto simp: Let_def split_beta intro: reads_trans)
qed (simp add: reads_refl)

lemma reads_ListIssuanceRecords:
  assumes "se_records E = R" and "se_status E = S"
  shows "reads sv (snd (ListIssuanceRecords E page sz f ord sv))"
  unfolding ListIssuanceRecords_def Let_def assms(1)
  by (rule reads_st_then [OF reads_FindAll]) (simp add: reads_views [OF assms(2)] split_beta)

lemma reads_cached: "reads sv (snd (cached_token sv))"
  by (simp add: cached_token_def Let_def split_beta reads_world reads_refl)

lemma reads_load: "se_status E = S \<Longrightarrow> reads sv (snd (load_entries E sv))"
  by (simp add: load_entries_def Let_def split_beta reads_entries)

lemma reads_sign: "reads sv (snd (sign_entries E es sv))"
  unfolding sign_entries_def Let_def split_beta
  by (rule reads_st_then) (auto intro: reads_world reads_trans [OF reads_world reads_cache])

lemma reads_status_list:
  assumes "se_status E = S"
  shows "reads sv (snd (GetStatusListToken E lid sv))"
proof -
  have "reads sv (snd (st_then (load_entries E sv1) (sign_entries E)))" if "reads sv sv1" for sv1
    using that by (intro reads_trans [OF that] reads_st_then reads_load assms reads_sign)
  then have "reads sv (snd (case cached_token sv of (Some token, sv) \<Rightarrow> (Ok token, sv)
      | (None, sv) \<Rightarrow> st_then (load_entries E sv) (sign_entries E)))"
    using reads_cached [of sv] by (auto split: prod.split option.split)
  then show ?thesis
    unfolding GetStatusListToken_def by (intro reads_st_then) (auto simp: reads_refl fail_if_def split: if_splits)
qed

lemma reads_by_state: "se_records E = R \<Longrightarrow> reads sv (snd (service_FindByIssuerState E i sv))"
  by (simp add: service_FindByIssuerState_def reads_FindByIssuerState)

lemma reads_on_service:
  "(\<And>sv. reads sv (snd (f sv))) \<Longrightarrow>
   reads (ap_service ap) (ap_service (snd (on_service f ap))) \<and> ap_cache (snd (on_service f ap)) = ap_cache ap"
  by (simp add: on_service_def split_beta)

lemma reads_handle:
  assumes "se_records (hd_issuance H) = R" and "se_status (hd_issuance H) = S" and "reading ep"
  shows "reads (ap_service ap) (ap_service (snd (handle H A rq ep hs ap))) \<and>
    ap_cache (snd (handle H A rq ep hs ap)) = ap_cache ap"
proof (cases ep)
  case ListRecords
  show ?thesis
    using reads_on_service [OF reads_ListIssuanceRecords [OF assms(1,2)]]
    by (simp add: ListRecords listIssuanceRecords_def Let_def split_beta)
next
  case (ByIssuerState i)
  from reads_on_service [OF reads_by_state [OF assms(1), where i = i], of ap] show ?thesis
    by (auto simp: ByIssuerState issuanceByIssuerState_def split: prod.split option.split)
next
  case (StatusListEP i)
  show ?thesis
    using reads_on_service [OF reads_status_list [OF assms(2), where lid = i], of ap]
    by (simp add: StatusListEP statusList_def snd_reply_with)
qed (use assms(3) in \<open>simp_all add: reads_refl health_def credentialIssuerMetadata_def jwks_def credentialOffer_def
      openAPISpecHandler_def swaggerUI_def Let_def snd_reply_with split: option.split\<close>)

end

text \<open>C13 (safety): on either store, no request but a POST changes records, status list entries, nonces,
  stored offers, the replay store, the token verifier or the catalogue, whatever its path, and
  preflight requests do not even reach the handlers.\<close>

theorem only_posts_change_state:
  assumes "store_params_ok sp" and "se_records (hd_issuance H) = any_records sp"
    and "se_status (hd_issuance H) = any_status sp" and "hr_method rq \<noteq> ''POST''"
    and "any_sound (sv_store (ap_service ap))" and "any_sane (sv_store (ap_service ap))"
  shows "same_business any_table any_entries (ap_service ap) (ap_service (snd (serve H A rq ap))) \<and>
    ap_cache (snd (serve H A rq ap)) = ap_cache ap"
proof -
  note st = any_issuance_store [OF assms(1)]
  have "issuance_store.reads any_table any_sound any_entries any_sane (ap_service ap) (ap_service (snd (handle H A rq ep hs ap))) \<and>
      ap_cache (snd (handle H A rq ep hs ap)) = ap_cache ap"
    if "find_route Routes (hr_method rq) (path_segments (hr_path rq)) = Some ep" for ep hs
    by (rule issuance_store.reads_handle [OF st assms(2,3) routes_reading [OF that assms(4)]])
  then have "same_business any_table any_entries (ap_service ap) (ap_service (snd (serve_mux H A rq hs ap))) \<and>
      ap_cache (snd (serve_mux H A rq hs ap)) = ap_cache ap" for hs
    using assms(5,6) unfolding issuance_store.reads_def [OF st] by (cases rule: serve_mux_cases [of rq H A hs ap]) auto
  then show ?thesis by (simp add: serve_def WithCORS_def Let_def)
qed

section \<open>A sample issuer\<close>

definition demo_handler :: "(string, string, string, any_store) handler" where
  "demo_handler = \<lparr>hd_baseURL = demo_base, hd_authServerURL = ''https://as'', hd_issuableSchemes = [''urn:eudi:pid:1''],
     hd_issuance = demo_env, hd_openAPISpec = [], hd_static = (\<lambda>_. Some (respond [] 404 [])), hd_ui_root = (\<lambda>_. False)\<rparr>"

definition demo_app :: "(any_store, string) app" where
  "demo_app = \<lparr>ap_service = demo_service, ap_cache = NewCache\<rparr>"

definition demo_get :: "string \<Rightarrow> http_request" where
  "demo_get p = \<lparr>hr_method = ''GET'', hr_path = p, hr_rawquery = [], hr_query = (\<lambda>_. []), hr_header = (\<lambda>_. []), hr_body = Inr []\<rparr>"

definition demo_post :: http_request where
  "demo_post = \<lparr>hr_method = ''POST'', hr_path = ''/oid4vci/v1/credential'', hr_rawquery = [], hr_query = (\<lambda>_. []),
     hr_header = (\<lambda>n. if n = ''Authorization'' then [''dpop t''] else if n = ''DPoP'' then [''d''] else []),
     hr_body = Inr demo_body\<rparr>"

lemma demo_handler_stores:
  "se_records (hd_issuance demo_handler) = any_records plain_store_params"
  "se_status (hd_issuance demo_handler) = any_status plain_store_params"
  by (simp_all add: demo_handler_def demo_env_def demo_env_on_def)

theorem only_posts_change_state_witness:
  "same_business any_table any_entries demo_service
     (ap_service (snd (serve demo_handler sample_world (demo_get ''/oid4vci/v1/issuance'') demo_app)))"
proof -
  have m: "hr_method (demo_get ''/oid4vci/v1/issuance'') \<noteq> ''POST''" by (simp add: demo_get_def)
  from only_posts_change_state [OF plain_store_params_ok demo_handler_stores m, of demo_app sample_world]
  show ?thesis by (simp add: demo_app_def demo_invariants)
qed

section \<open>Outcomes\<close>

lemma reply_with_cases:
  assumes "fst (reply_with hs ok m) = Some r" and "fails_with X (fst m)"
  obtains x where "fst m = Ok x" "r = ok x" | "rs_status r \<in> X"
  using assms by (cases m; cases "fst m") (auto simp: writeJSON_def respond_def elim!: has_status.elims)

lemma credential_route:
  "find_route Routes ''POST'' (path_segments ''/oid4vci/v1/credential'') = Some CredentialEP"
  by code_simp

lemma clean_paths:
  "cleanPath ''/oid4vci/v1/credential'' = ''/oid4vci/v1/credential''" "cleanPath ''/health'' = ''/health''"
  "cleanPath ''/oid4vci/v1/status-list/pid'' = ''/oid4vci/v1/status-list/pid''"
  by code_simp+

lemma serve_endpoint:
  assumes "find_route Routes (hr_method rq) (path_segments (hr_path rq)) = Some ep" and "hr_method rq \<noteq> ''OPTIONS''"
    and "cleanPath (hr_path rq) = hr_path rq" and "hr_path rq \<noteq> ''*''"
  shows "serve H A rq ap = handle H A rq ep (cors_headers []) ap"
  using assms(2) by (simp add: serve_def WithCORS_def serve_mux_routed [OF assms(1,3,4)] Let_def)

text \<open>The prefix test compares the first bytes up to the case of ASCII letters.\<close>

lemma has_prefix_fold:
  "hasCaseInsensitivePrefix s p \<longleftrightarrow> length p \<le> length s \<and> map lower_char (take (length p) s) = map lower_char p"
proof -
  have "length p \<le> length s \<Longrightarrow> prefix_loop s p \<longleftrightarrow> map lower_char (take (length p) s) = map lower_char p"
    by (induction s p rule: prefix_loop.induct) auto
  then show ?thesis by (auto simp: hasCaseInsensitivePrefix_def)
qed

lemma has_prefix_case:
  "map lower_char p = map lower_char q \<Longrightarrow> hasCaseInsensitivePrefix s p = hasCaseInsensitivePrefix s q"
  using map_eq_imp_length_eq [of lower_char p lower_char q] by (simp add: has_prefix_fold)

lemma scheme_case:
  "hasCaseInsensitivePrefix s ''Bearer '' = hasCaseInsensitivePrefix s ''bearer ''"
  "hasCaseInsensitivePrefix s ''DPoP '' = hasCaseInsensitivePrefix s ''dpop ''"
  by (rule has_prefix_case, code_simp)+

lemma credential_checks_Ok:
  assumes "credential_checks rq = Ok (tok, dp, body)"
  shows "hasCaseInsensitivePrefix (first_value (hr_header rq ''Authorization'')) ''dpop ''"
    and "tok = drop 5 (first_value (hr_header rq ''Authorization''))"
    and "dp \<noteq> [] \<Longrightarrow> hr_header rq ''DPoP'' = [dp]" and "hr_body rq = Inr body"
proof -
  let ?a = "first_value (hr_header rq ''Authorization'')"
  have c: "extractAccessToken ?a \<noteq> []" "\<not> hasCaseInsensitivePrefix ?a ''bearer ''" "tok = extractAccessToken ?a"
    "SingleDPoPHeader (hr_header rq ''DPoP'') = Ok dp" and "hr_body rq = Inr body"
    using assms by (auto simp: credential_checks_def go_outcome Let_def split: if_splits)
  then show "hr_body rq = Inr body" by simp
  from c(1-3) show "hasCaseInsensitivePrefix ?a ''dpop ''" "tok = drop 5 ?a"
    by (auto simp: extractAccessToken_def scheme_case eval_nat_numeral split: if_splits)
  show "hr_header rq ''DPoP'' = [dp]" if "dp \<noteq> []"
    using c(4) that by (cases "hr_header rq ''DPoP''") (auto simp: SingleDPoPHeader_def split: if_splits)
qed

lemma SingleDPoPHeader_fails_with: "fails_with {400} (SingleDPoPHeader vs)"
  by (simp add: SingleDPoPHeader_def)

lemma fails_with_of_sum: "(\<And>e. has_status X (f e)) \<Longrightarrow> fails_with X (of_sum f m)"
  by (cases m) simp_all

lemma credential_checks_fails_with: "fails_with {400, 401, 503} (credential_checks rq)"
  unfolding credential_checks_def Let_def
  by (intro fails_with_then_ok fails_with_basic fails_with_mono [OF SingleDPoPHeader_fails_with])
    (simp_all add: fails_with_of_sum)

lemma fst_on_service: "fst (on_service f ap) = fst (f (ap_service ap))"
  by (simp add: on_service_def split_beta)

lemma credential_stages_fails_with:
  "fails_with {400, 401, 503} (fst (st_then (credential_checks rq, ap) (\<lambda>(tok, dp, body) ap.
     on_service (IssueCredential E A tok dp body) ap)))"
  by (intro fails_with_st_then)
    (auto simp: credential_checks_fails_with fst_on_service IssueCredential_fails_with)

text \<open>C12 (safety): the credential endpoint answers 200 only to a request whose Authorization header has the
  DPoP scheme (in any case; Bearer is refused), with exactly one DPoP header and a body that could be
  read, and only when the service issued a credential for that token, proof and body, which requires a
  current token bound to the key of the proof. The answer is not to be cached.\<close>

theorem credential_over_http:
  assumes "serve H A rq ap = (Some r, ap')" and "hr_method rq = ''POST''"
    and "hr_path rq = ''/oid4vci/v1/credential''" and "rs_status r = 200"
  shows "\<exists>tok dp body resp claims jti.
    hasCaseInsensitivePrefix (first_value (hr_header rq ''Authorization'')) ''dpop '' \<and>
    tok = drop 5 (first_value (hr_header rq ''Authorization'')) \<and>
    hr_header rq ''DPoP'' = [dp] \<and> hr_body rq = Inr body \<and>
    IssueCredential (hd_issuance H) A tok dp body (ap_service ap) = (Ok resp, ap_service ap') \<and>
    authorized (hd_issuance H) A (w_clock (sv_world (ap_service ap)) 0) tok dp ''/oid4vci/v1/credential''
      (ap_service ap) claims jti \<and>
    rs_body r = credential_json resp @ [CHR 0x0A] \<and> gm_get (rs_headers r) ''Cache-Control'' = Some ''no-store''"
proof -
  let ?E = "hd_issuance H"
  have route: "find_route Routes ''POST'' (path_segments ''/oid4vci/v1/credential'') = Some CredentialEP"
    by (rule credential_route)
  let ?m = "st_then (credential_checks rq, ap) (\<lambda>(tok, dp, body) ap. on_service (IssueCredential ?E A tok dp body) ap)"
  obtain hs where h: "hs = no_store (cors_headers [])" by blast
  have "reply_with hs (\<lambda>resp. writeJSON hs 200 (credential_json resp)) ?m = (Some r, ap')"
    using assms(1) by (simp add: serve_endpoint [of rq CredentialEP] assms(2,3) route clean_paths Let_def credential_def h)
  then have a: "fst (reply_with hs (\<lambda>resp. writeJSON hs 200 (credential_json resp)) ?m) = Some r" and "snd ?m = ap'"
    using snd_reply_with by (metis fst_conv, metis snd_conv)
  from a credential_stages_fails_with obtain resp where
    m: "fst ?m = Ok resp" and r: "r = writeJSON hs 200 (credential_json resp)"
    by (rule reply_with_cases) (use assms(4) in auto)
  with \<open>snd ?m = ap'\<close> have "?m = (Ok resp, ap')" by (metis prod.collapse)
  then obtain tok dp body where c: "credential_checks rq = Ok (tok, dp, body)"
    and i: "on_service (IssueCredential ?E A tok dp body) ap = (Ok resp, ap')"
    by (auto simp: st_then_Ok_iff)
  have run: "IssueCredential ?E A tok dp body (ap_service ap) = (Ok resp, ap_service ap')"
    using i by (auto simp: on_service_def split_beta Let_def prod_eq_iff)
  show ?thesis
  proof (rule IssueCredential_Ok [OF run], goal_cases)
    case (1 claims jti req wk n rc idx cred w)
    have "dp \<noteq> []" using 1(1) by (auto simp: authorized_def dpop_proof_ok_def)
    moreover have "gm_get (rs_headers r) ''Cache-Control'' = Some ''no-store''" "rs_body r = credential_json resp @ [CHR 0x0A]"
      by (simp_all add: r h writeJSON_def respond_def no_store_def)
    ultimately show ?case using credential_checks_Ok [OF c] run 1(1) by blast
  qed
qed

lemma demo_checks: "credential_checks demo_post = Ok (''t'', ''d'', demo_body)"
proof -
  have "extractAccessToken ''dpop t'' = ''t''" "\<not> hasCaseInsensitivePrefix ''dpop t'' ''bearer ''" by code_simp+
  then show ?thesis
    by (simp add: credential_checks_def demo_post_def first_value_def Let_def fail_if_def SingleDPoPHeader_def)
qed

lemma demo_response:
  "\<exists>r ap'. serve demo_handler sample_world demo_post demo_app = (Some r, ap') \<and> rs_status r = 200"
proof -
  obtain resp sv' where run: "IssueCredential demo_env sample_world ''t'' ''d'' demo_body demo_service = (Ok resp, sv')"
    using demo_issue by blast
  have p: "hr_method demo_post = ''POST''" "hr_path demo_post = ''/oid4vci/v1/credential''"
    by (simp_all add: demo_post_def)
  show ?thesis
    by (simp add: serve_endpoint [of demo_post CredentialEP] p credential_route clean_paths credential_def demo_checks
        on_service_def run demo_handler_def demo_app_def writeJSON_def respond_def Let_def)
qed

theorem credential_over_http_witness:
  "\<exists>r ap'. serve demo_handler sample_world demo_post demo_app = (Some r, ap') \<and> rs_status r = 200 \<and>
     gm_get (rs_headers r) ''Cache-Control'' = Some ''no-store''"
proof -
  obtain r ap' where run: "serve demo_handler sample_world demo_post demo_app = (Some r, ap')" and "rs_status r = 200"
    using demo_response by blast
  moreover have "hr_method demo_post = ''POST''" "hr_path demo_post = ''/oid4vci/v1/credential''"
    by (simp_all add: demo_post_def)
  ultimately show ?thesis using credential_over_http [OF run] by blast
qed

section \<open>Statuses and headers\<close>

lemma decode_trigger_fails_with: "fails_with {400} (decode_trigger fo body)"
  by (auto simp: decode_trigger_def Let_def split: sum.split option.split)

lemma trigger_stages_fails_with:
  "fails_with {400} (fst (st_then (decode_trigger fo body, ap) (\<lambda>req ap. on_service (TriggerIssuance E req) ap)))"
  by (intro fails_with_st_then) (simp_all add: decode_trigger_fails_with fst_on_service TriggerIssuance_total)

lemma nonce_stages_fails_with:
  "fails_with {400, 401, 503} (fst (st_then (SingleDPoPHeader vs, ap) (\<lambda>dp ap.
     on_service (service_GenerateNonce E A tok dp) ap)))"
  by (intro fails_with_st_then)
    (simp_all add: fails_with_mono [OF SingleDPoPHeader_fails_with] fst_on_service service_GenerateNonce_total)

lemma handle_status:
  assumes "fst (handle H A rq ep hs ap) = Some r"
  shows "rs_status r \<in> {200, 204, 400, 404} \<or> rs_status r \<in> {401, 503} \<and> (ep = Nonce \<or> ep = CredentialEP)"
proof (cases ep)
  case Jwks
  have "fst (reply_with hs (respond (gm_put ''Content-Type'' json_type hs) 200)
      (map_err (\<lambda>e. BadRequest InvalidRequest (''Failed to build JWK Set: '' @ error_text e))
        (JWKSetJSON (se_out (hd_issuance H)) (se_issuerKey (hd_issuance H))), ap)) = Some r"
    using assms by (simp add: Jwks jwks_def Let_def)
  then show ?thesis
    by (rule reply_with_cases [where X = "{400}"]) (auto simp: respond_def)
next
  case Trigger
  show ?thesis
    using assms unfolding Trigger handle.simps triggerIssuance_def
    by (elim reply_with_cases [OF _ trigger_stages_fails_with]) (auto simp: writeJSON_def respond_def)
next
  case Nonce
  show ?thesis
    using assms unfolding Nonce handle.simps nonce_handler_def Let_def
    by (elim reply_with_cases [OF _ nonce_stages_fails_with]) (auto simp: writeJSON_def respond_def)
next
  case CredentialEP
  show ?thesis
    using assms unfolding CredentialEP handle.simps credential_def Let_def
    by (elim reply_with_cases [OF _ credential_stages_fails_with]) (auto simp: writeJSON_def respond_def)
next
  case (StatusListEP i)
  show ?thesis
    using assms unfolding StatusListEP handle.simps statusList_def
    by (elim reply_with_cases [where X = "{400}"]) (auto simp: respond_def fst_on_service GetStatusListToken_fails_with)
next
  case (Revoke i)
  show ?thesis
    using assms unfolding Revoke handle.simps revokeIssuance_def
    by (elim reply_with_cases [where X = "{400}"]) (auto simp: respond_def fst_on_service RevokeCredential_fails_with)
qed (use assms in \<open>auto simp: health_def credentialIssuerMetadata_def listIssuanceRecords_def issuanceByIssuerState_def
      credentialOffer_def notification_def openAPISpecHandler_def swaggerUI_def Let_def split_beta writeJSON_def
      respond_def http_NotFound_def http_error_def split: option.splits prod.splits outcome.splits\<close>)

text \<open>C15 (error): every response has one of eight statuses, or is what the static file server answered;
  in particular no failure of the stores, libraries, authorization server or registry is shown as a
  500, and 401 and 503 are only answered to a POST to the nonce or credential endpoint. A 307 answers
  only a request whose path is not clean, or a GET of the root of the web UI without its slash; it comes
  from \<open>ServeMux\<close> and not from a handler. A request that panics has no response.\<close>

theorem response_statuses:
  assumes "fst (serve H A rq ap) = Some r"
  shows "rs_status r \<in> {200, 204, 400, 404, 405} \<or> (\<exists>s. hd_static H rq = Some s \<and> rs_status r = rs_status s) \<or>
    rs_status r \<in> {401, 503} \<and> hr_method rq = ''POST'' \<and>
    find_route Routes ''POST'' (path_segments (hr_path rq)) \<in> {Some Nonce, Some CredentialEP} \<or>
    rs_status r = 307 \<and> redirected H rq"
proof (cases "hr_method rq = ''OPTIONS''")
  case True
  then show ?thesis using assms by (auto simp: serve_def WithCORS_def Let_def respond_def)
next
  case False
  then have r: "fst (serve_mux H A rq (cors_headers []) ap) = Some r" using assms by (simp add: serve_def WithCORS_def Let_def)
  show ?thesis
  proof (cases rule: serve_mux_cases [of rq H A "cors_headers []" ap])
    case refused
    with r show ?thesis by (auto simp: respond_def)
  next
    case (redirected p)
    with r show ?thesis by (auto simp: redirect_def respond_def Let_def)
  next
    case (routed ep)
    have "hr_method rq = ''POST''" if "ep = Nonce \<or> ep = CredentialEP"
      using routed(1) that routes_reading by (metis reading.simps(2,3))
    with routed r handle_status [of H A rq ep "cors_headers []" ap r] show ?thesis by auto
  next
    case unmatched
    with r show ?thesis
      by (auto simp: unrouted_def merge_headers_def http_error_def http_NotFound_def respond_def split: if_splits option.splits)
  qed
qed

lemma demo_health:
  "fst (serve demo_handler sample_world (demo_get ''/health'') demo_app) =
   Some (writeJSON (cors_headers []) 200 (string_map_json [(''status'', ''ok'')]))"
proof -
  have "find_route Routes ''GET'' (path_segments ''/health'') = Some Health" by code_simp
  then show ?thesis
    by (simp add: serve_endpoint [of _ Health] clean_paths demo_get_def health_def demo_app_def NewCache_def Stale_def Let_def)
qed

lemma demo_unclean:
  "\<exists>r. fst (serve demo_handler sample_world (demo_get ''//health'') demo_app) = Some r \<and> rs_status r = 307 \<and>
     gm_get (rs_headers r) ''Location'' = Some ''/health''"
proof -
  have "cleanPath ''//health'' = ''/health''" "find_route Routes ''GET'' (path_segments ''/health'') = Some Health"
    "hex_escape_non_ascii (url_string (empty_url\<lparr>u_path := ''/health'', u_raw_query := []\<rparr>)) = ''/health''" by code_simp+
  then show ?thesis
    by (simp add: serve_def WithCORS_def serve_mux_def mux_path_def demo_get_def redirect_def respond_def Let_def)
qed

theorem response_statuses_witness:
  "(\<exists>r. fst (serve demo_handler sample_world (demo_get ''/health'') demo_app) = Some r \<and> rs_status r \<notin> {307, 503}) \<and>
   (\<exists>r. fst (serve demo_handler sample_world (demo_get ''//health'') demo_app) = Some r \<and> rs_status r = 307 \<and>
      redirected demo_handler (demo_get ''//health''))"
proof
  show "\<exists>r. fst (serve demo_handler sample_world (demo_get ''/health'') demo_app) = Some r \<and> rs_status r \<notin> {307, 503}"
    using demo_health by (simp add: writeJSON_def respond_def)
  obtain r where r: "fst (serve demo_handler sample_world (demo_get ''//health'') demo_app) = Some r" "rs_status r = 307"
    using demo_unclean by blast
  from response_statuses [OF r(1)] r
  show "\<exists>r. fst (serve demo_handler sample_world (demo_get ''//health'') demo_app) = Some r \<and> rs_status r = 307 \<and>
      redirected demo_handler (demo_get ''//health'')"
    by (auto simp: demo_handler_def respond_def)
qed

definition own_headers :: "string set" where
  "own_headers = {''Content-Type'', ''X-Content-Type-Options'', ''Cache-Control'', ''Allow'', ''Location'', ''Connection''}"

lemma own_headers_other: "k \<notin> own_headers \<Longrightarrow>
    k \<noteq> ''Content-Type'' \<and> k \<noteq> ''X-Content-Type-Options'' \<and> k \<noteq> ''Cache-Control'' \<and> k \<noteq> ''Allow'' \<and>
    k \<noteq> ''Location'' \<and> k \<noteq> ''Connection''"
  by (auto simp: own_headers_def)

lemma reply_with_headers:
  assumes "fst (reply_with hs ok m) = Some r" and "k \<notin> own_headers"
    and "\<And>x. gm_get (rs_headers (ok x)) k = gm_get hs k"
  shows "gm_get (rs_headers r) k = gm_get hs k"
proof -
  have "gm_get (rs_headers (writeOAuthError hs e)) k = gm_get hs k" for e
    using own_headers_other [OF assms(2)] by (cases e) (simp_all add: writeJSON_def respond_def)
  then show ?thesis using assms(1,3) by (cases m; cases "fst m") auto
qed

lemma response_headers:
  assumes "k \<notin> own_headers"
  shows "gm_get (rs_headers (writeJSON hs st b)) k = gm_get hs k"
    and "gm_get (rs_headers (respond hs st b)) k = gm_get hs k"
    and "gm_get (rs_headers (http_error hs msg st)) k = gm_get hs k"
    and "gm_get (no_store hs) k = gm_get hs k"
    and "gm_get (gm_put ''Content-Type'' v hs) k = gm_get hs k"
    and "gm_get (gm_put ''Cache-Control'' v hs) k = gm_get hs k"
    and "gm_get (gm_put ''Allow'' v hs) k = gm_get hs k"
    and "gm_get (gm_put ''Connection'' v hs) k = gm_get hs k"
    and "gm_get (rs_headers (redirect rq p hs)) k = gm_get hs k"
  using own_headers_other [OF assms]
  by (simp_all add: writeJSON_def respond_def http_error_def no_store_def redirect_def Let_def)

lemma handle_headers:
  assumes "fst (handle H A rq ep hs ap) = Some r" and "k \<notin> own_headers"
  shows "gm_get (rs_headers r) k = gm_get hs k"
proof -
  note h = response_headers [OF assms(2)]
  note a = reply_with_headers [OF _ assms(2)]
  show ?thesis
  proof (cases ep)
    case Jwks
    show ?thesis
      by (rule a [OF assms(1) [unfolded Jwks handle.simps jwks_def Let_def]]) (simp only: h)
  next
    case Trigger
    show ?thesis
      by (rule a [OF assms(1) [unfolded Trigger handle.simps triggerIssuance_def]]) (simp only: h)
  next
    case Nonce
    have "gm_get (rs_headers r) k = gm_get (no_store hs) k"
      by (rule a [OF assms(1) [unfolded Nonce handle.simps nonce_handler_def Let_def]]) (simp only: h)
    then show ?thesis by (simp only: h)
  next
    case CredentialEP
    have "gm_get (rs_headers r) k = gm_get (no_store hs) k"
      by (rule a [OF assms(1) [unfolded CredentialEP handle.simps credential_def Let_def]]) (simp only: h)
    then show ?thesis by (simp only: h)
  next
    case (StatusListEP i)
    show ?thesis
      by (rule a [OF assms(1) [unfolded StatusListEP handle.simps statusList_def]]) (simp only: h)
  next
    case (Revoke i)
    show ?thesis
      by (rule a [OF assms(1) [unfolded Revoke handle.simps revokeIssuance_def]]) (simp only: h)
  qed (use assms(1) in \<open>auto simp: h(1-3,5) health_def credentialIssuerMetadata_def listIssuanceRecords_def
        issuanceByIssuerState_def notification_def openAPISpecHandler_def swaggerUI_def credentialOffer_def Let_def
        split_beta http_NotFound_def simp del: gm_get_put split: option.splits prod.splits outcome.splits\<close>)
qed

lemma merge_headers_get:
  "gm_get (rs_headers st) k = None \<Longrightarrow> gm_get (rs_headers (merge_headers hs st)) k = gm_get hs k"
proof -
  have "gm_get es k = None \<Longrightarrow> gm_get (foldl (\<lambda>m (k, v). gm_put k v m) hs es) k = gm_get hs k" for es
    by (induction es arbitrary: hs) (auto split: if_splits)
  then show "gm_get (rs_headers st) k = None \<Longrightarrow> gm_get (rs_headers (merge_headers hs st)) k = gm_get hs k"
    by (simp add: merge_headers_def)
qed

text \<open>Every response the issuer sends, errors, unknown paths and preflights included, lets
  any origin read it, as long as the static file server does not set the header itself; a preflight is
  answered 204 without touching the state.\<close>

lemma cors_on_every_response:
  assumes "fst (serve H A rq ap) = Some r"
    and ui: "\<And>s. hd_static H rq = Some s \<Longrightarrow> gm_get (rs_headers s) ''Access-Control-Allow-Origin'' = None"
  shows "gm_get (rs_headers r) ''Access-Control-Allow-Origin'' = Some ''*'' \<and>
    (hr_method rq = ''OPTIONS'' \<longrightarrow> rs_status r = 204 \<and> snd (serve H A rq ap) = ap)"
proof -
  let ?k = "''Access-Control-Allow-Origin''" and ?hs = "cors_headers []"
  have k: "?k \<notin> own_headers" by (simp add: own_headers_def)
  have c: "gm_get ?hs ?k = Some ''*''" by (simp add: cors_headers_def)
  have "gm_get (rs_headers r) ?k = gm_get ?hs ?k"
  proof (cases "hr_method rq = ''OPTIONS''")
    case True
    then show ?thesis using assms(1) by (auto simp: serve_def WithCORS_def Let_def respond_def)
  next
    case False
    note run = assms(1) [unfolded serve_def WithCORS_def Let_def if_not_P [OF False]]
    show ?thesis
    proof (cases rule: serve_mux_cases [of rq H A ?hs ap])
      case refused
      with run show ?thesis using response_headers(2,8) [OF k] by (auto simp del: gm_get_put)
    next
      case (redirected p)
      with run show ?thesis using response_headers(9) [OF k] by auto
    next
      case (routed ep)
      with run show ?thesis by (simp add: handle_headers [OF _ k])
    next
      case unmatched
      then have "r = unrouted H rq ?hs" using run by simp
      then show ?thesis
        using merge_headers_get [OF ui] response_headers(3,7) [OF k]
        by (auto simp: unrouted_def http_NotFound_def split: option.split)
    qed
  qed
  with c assms(1) show ?thesis by (auto simp: serve_def WithCORS_def Let_def respond_def)
qed

section \<open>The metadata\<close>

lemma add_configs_dom: "dom (gm_get (add_configs cs out)) = dom (gm_get out) \<union> dom (gm_get cs)"
  by (induction cs out rule: add_configs.induct) (simp_all add: fun_upd_def [symmetric])

text \<open>A configuration is advertised when some issuable scheme in the catalogue builds it.\<close>

lemma advertised_dom:
  "dom (gm_get (collect_configs schemes c out)) =
   dom (gm_get out) \<union> (\<Union>i \<in> set schemes. case cache_Get i c of None \<Rightarrow> {} | Some def \<Rightarrow> dom (gm_get (Build def)))"
  by (induction schemes c out rule: collect_configs.induct)
    (simp_all add: add_configs_dom Un_assoc split: option.split)

lemma refused:
  assumes "\<And>q. \<not> request_ok E body q"
  shows "fst (IssueCredential E A tok dp body sv) \<noteq> Ok resp"
proof
  assume "fst (IssueCredential E A tok dp body sv) = Ok resp"
  then have "IssueCredential E A tok dp body sv = (Ok resp, snd (IssueCredential E A tok dp body sv))"
    by (simp add: prod_eq_iff)
  then show False by (rule IssueCredential_Ok) (use assms in blast)
qed

text \<open>C16 (error): the metadata may advertise configurations this issuer never issues. Every configuration
  of a configured scheme the registry knows is advertised, but unless it is one of the two PID
  configurations, no request for it succeeds, whoever asks and in whatever state. The default
  configuration contains such a scheme.\<close>

theorem advertised_but_refused:
  assumes "i \<in> set (hd_issuableSchemes H)" and "cache_Get i (ap_cache ap) = Some def"
    and "gm_get (Build def) k = Some cfg" and "k \<noteq> ''urn:eudi:pid:1''" and "k \<noteq> ''urn:eudi:pid:1.mdoc''"
    and "unmarshal_request (se_float (hd_issuance H)) body = Some req" and "rq_configuration_id req = k"
  shows "gm_get (collect_configs (hd_issuableSchemes H) (ap_cache ap) []) k \<noteq> None \<and>
    \<not> is_ok (fst (IssueCredential (hd_issuance H) A tok dp body (ap_service ap)))"
proof
  show "gm_get (collect_configs (hd_issuableSchemes H) (ap_cache ap) []) k \<noteq> None"
  proof -
    have "k \<in> dom (gm_get (collect_configs (hd_issuableSchemes H) (ap_cache ap) []))"
      unfolding advertised_dom using assms(1-3) by (intro UnI2 UN_I [of i]) (auto simp: domI)
    then show ?thesis by (simp add: domIff)
  qed
  have "\<not> request_ok (hd_issuance H) body q" for q
    using assms(4-7) by (auto simp: request_ok_def)
  then show "\<not> is_ok (fst (IssueCredential (hd_issuance H) A tok dp body (ap_service ap)))"
    unfolding is_ok_iff using refused by blast
qed

definition padro_id :: string where "padro_id = ''urn:fikua:padro:barcelona:1''"

definition padro_scheme :: attestation_definition where
  "padro_scheme = \<lparr>df_AttestationType = ''Padro'', df_Scheme = \<lparr>as_ID = padro_id, as_CatalogueID = [], as_Version = [],
     as_SupportedFormats = [FormatSDJWTVC], as_Schemas =
       [\<lparr>fs_Format = FormatSDJWTVC, fs_TypeIdentifier = padro_id, fs_Claims = []\<rparr>]\<rparr>\<rparr>"

definition padro_handler :: "(string, string, string, any_store) handler" where
  "padro_handler = demo_handler\<lparr>hd_issuableSchemes := IssuableSchemes (Load (\<lambda>_. []))\<rparr>"

definition padro_app :: "(any_store, string) app" where
  "padro_app = demo_app\<lparr>ap_cache := snd (cache_Start (Inr [padro_scheme]) [] NewCache)\<rparr>"

definition padro_body :: string where
  "padro_body = ''{\"credential_configuration_id\":\"urn:fikua:padro:barcelona:1\"}''"

theorem advertised_but_refused_witness:
  "gm_get (collect_configs (IssuableSchemes (Load (\<lambda>_. []))) (ap_cache padro_app) []) padro_id \<noteq> None \<and>
   \<not> is_ok (fst (IssueCredential demo_env sample_world ''t'' ''d'' padro_body demo_service))"
proof -
  have i: "padro_id \<in> set (hd_issuableSchemes padro_handler)"
    unfolding padro_handler_def padro_id_def Load_def getenv_def by code_simp
  have c: "cache_Get padro_id (ap_cache padro_app) = Some padro_scheme"
    by (simp add: padro_app_def demo_app_def cache_Start_def cache_Get_def index_by_id_def padro_scheme_def background_def)
  obtain cfg where b: "gm_get (Build padro_scheme) padro_id = Some cfg"
    by (simp add: Build_def padro_scheme_def SchemaFor_def FormatSDJWTVC_def FormatMDoc_def configurationID_def)
  obtain req where r: "unmarshal_request (se_float (hd_issuance padro_handler)) padro_body = Some req"
    "rq_configuration_id req = padro_id"
  proof -
    have "map_option rq_configuration_id (unmarshal_request fo padro_body) = Some padro_id" for fo
      unfolding padro_body_def padro_id_def by code_simp
    with that show thesis by blast
  qed
  have "padro_id \<noteq> ''urn:eudi:pid:1''" "padro_id \<noteq> ''urn:eudi:pid:1.mdoc''" by (simp_all add: padro_id_def)
  from advertised_but_refused [OF i c b this r, of sample_world "''t''" "''d''"] show ?thesis
    by (simp add: padro_handler_def padro_app_def demo_handler_def demo_app_def)
qed

end
