(* ===== verification/Http_Live.thy ===== *)
theory Http_Live
  imports Service_Live Http_Props
begin

text \<open>
  Liveness over HTTP, for an issuer that runs on the in-memory store: a wallet that meets every
  requirement is given its credential, and a revocation is accepted and seen in the status list
  fetched next.
\<close>

section \<open>Requests that reach their handler\<close>

lemma dpop_not_bearer:
  assumes "hasCaseInsensitivePrefix a ''dpop ''"
  shows "\<not> hasCaseInsensitivePrefix a ''bearer ''" "\<not> hasCaseInsensitivePrefix a ''Bearer ''"
proof -
  have d: "lower_char CHR ''d'' = CHR ''d''" by code_simp
  obtain c cs where a: "a = c # cs" "lower_char c = CHR ''d''"
    using assms by (cases a) (auto simp: has_prefix_fold d)
  have "lower_char CHR ''b'' \<noteq> CHR ''d''" "lower_char CHR ''B'' \<noteq> CHR ''d''" by code_simp+
  with a show "\<not> hasCaseInsensitivePrefix a ''bearer ''" "\<not> hasCaseInsensitivePrefix a ''Bearer ''"
    by (auto simp: scheme_case has_prefix_fold)
qed

lemma credential_checks_complete:
  assumes "hr_header rq ''Authorization'' = a # as" and "hasCaseInsensitivePrefix a ''dpop ''" and "drop 5 a \<noteq> []"
    and "hr_header rq ''DPoP'' = [dp]" and "hr_body rq = Inr body"
  shows "credential_checks rq = Ok (drop 5 a, dp, body)"
proof -
  have "extractAccessToken a = drop 5 a"
    using assms(2) dpop_not_bearer [OF assms(2)] by (simp add: extractAccessToken_def scheme_case eval_nat_numeral)
  then show ?thesis
    using assms dpop_not_bearer [OF assms(2)]
    by (simp add: credential_checks_def first_value_def SingleDPoPHeader_def Let_def)
qed

text \<open>A path segment of unreserved characters, which every identifier the issuer makes is, stands for itself.\<close>

lemma plain_segment:
  assumes "list_all unreserved s"
  shows "CHR ''/'' \<notin> set s" "segment_value s = s"
  using assms unreserved_facts(1) unescape_id
  by (fastforce simp: segment_value_def unescape_path_def list_all_iff)+

lemma revoke_route:
  assumes "list_all unreserved rid" and "rid \<noteq> []"
  shows "find_route Routes ''POST'' (path_segments (''/oid4vci/v1/issuance/'' @ rid @ ''/revoke'')) = Some (Revoke rid)"
proof -
  note p = plain_segment [OF assms(1)]
  have "path_segments (''/oid4vci/v1/issuance/'' @ rid @ ''/revoke'') = [''oid4vci'', ''v1'', ''issuance'', rid, ''revoke'']"
    using split_on_append [OF p(1), of "''revoke''"] by (simp add: path_segments_def)
  moreover have "rid \<noteq> ''/''" using p(1) by auto
  moreover have "segment_value ''oid4vci'' = ''oid4vci''" "segment_value ''v1'' = ''v1''"
    "segment_value ''issuance'' = ''issuance''" "segment_value ''revoke'' = ''revoke''"
    "segment_value ''by-issuer-state'' = ''by-issuer-state''" by code_simp+
  ultimately show ?thesis
    using assms(2) p(2) by (simp add: Routes_def api_def method_serves_def)
qed

lemma revoke_path_clean:
  assumes "list_all unreserved rid" and "rid \<notin> {[], ''.'', ''..''}"
  shows "cleanPath (''/oid4vci/v1/issuance/'' @ rid @ ''/revoke'') = ''/oid4vci/v1/issuance/'' @ rid @ ''/revoke''"
proof (rule cleanPath_plain)
  show "split_on (CHR ''/'') (''/oid4vci/v1/issuance/'' @ rid @ ''/revoke'') = [] # [''oid4vci'', ''v1'', ''issuance'', rid, ''revoke'']"
    using split_on_append [OF plain_segment(1) [OF assms(1)], of "''revoke''"] by simp
  show "list_all (\<lambda>s. s \<notin> {[], ''.'', ''..''}) [''oid4vci'', ''v1'', ''issuance'', rid, ''revoke'']" using assms(2) by simp
qed simp_all

lemma status_route:
  "find_route Routes ''GET'' (path_segments ''/oid4vci/v1/status-list/pid'') = Some (StatusListEP ''pid'')"
  by code_simp


section \<open>A wallet that meets every requirement is given its credential\<close>

text \<open>C5 (liveness): on the in-memory store, a credential request over HTTP that carries a token in the DPoP
  scheme with one DPoP proof, is authorized, names a known configuration, proves the wallet's key with a
  fresh nonce, and is linked to a record with well-formed data is answered 200 with a credential; the
  record is then marked as issued and has an index in the status list. Nothing else can refuse it,
  provided the libraries encode and sign.\<close>

theorem authorized_request_is_served:
  assumes "on_memory sp (hd_issuance H)" and "sv_store (ap_service ap) = Inl ms"
    and "hr_method rq = ''POST''" and "hr_path rq = ''/oid4vci/v1/credential''"
    and "hr_header rq ''Authorization'' = [a]" and "hasCaseInsensitivePrefix a ''dpop ''" and "drop 5 a = tok" and "tok \<noteq> []"
    and "hr_header rq ''DPoP'' = [dp]" and "hr_body rq = Inr body"
    and "authorized (hd_issuance H) A (w_clock (sv_world (ap_service ap)) 0) tok dp ''/oid4vci/v1/credential''
      (ap_service ap) claims jti"
    and "request_ok (hd_issuance H) body req" and "ExtractProofJWT req \<noteq> []"
    and "proof_ok (se_jose (hd_issuance H)) (w_clock (sv_world (ap_service ap)) 1) (ExtractProofJWT req)
      (se_baseURL (hd_issuance H)) wk"
    and "fresh_nonce (hd_issuance H) (ExtractProofJWT req) (c_CNonce claims) (sv_sessions (ap_service ap)) n"
    and "c_IssuanceRecordID claims = rid" and "rid \<noteq> []" and "mem_table ms rid = Some rc"
    and "CredentialData rc \<notin> {[], ''{}''}" and "unmarshal_map (se_float (hd_issuance H)) (CredentialData rc) = Some m"
    and "can_build (hd_issuance H) (rq_configuration_id req) wk"
  shows "\<exists>r ap' ms' cred rc' i. serve H A rq ap = (Some r, ap') \<and> rs_status r = 200 \<and>
    rs_body r = credential_json (SuccessResponse cred) @ [CHR 0x0A] \<and> sv_store (ap_service ap') = Inl ms' \<and>
    mem_table ms' rid = Some rc' \<and> rec_Status rc' = ''credential_issued'' \<and>
    (\<exists>v. mem_entries ms' rid = Some (i, v))"
proof -
  let ?E = "hd_issuance H"
  obtain cred sv' ms' i rc' where run: "IssueCredential ?E A tok dp body (ap_service ap) = (Ok (SuccessResponse cred), sv')"
    "sv_store sv' = Inl ms'" "gm_get (mem_records ms') rid = Some rc'" "rec_Status rc' = ''credential_issued''"
    "CredentialData rc' = CredentialData rc" "gm_get (statusByRecID ms') rid = Some i"
    using issue_complete [OF assms(1,2,11-17) assms(18) [unfolded mem_table_def] assms(19-21)] by blast
  have "credential_checks rq = Ok (tok, dp, body)"
    using credential_checks_complete [OF assms(5,6) _ assms(9,10)] assms(7,8) by simp
  with run show ?thesis
    by (simp add: serve_endpoint [of rq CredentialEP] assms(3,4) credential_route clean_paths credential_def on_service_def Let_def
        writeJSON_def respond_def mem_table_def mem_entries_def) blast
qed

theorem authorized_request_is_served_witness:
  "\<exists>r ap' ms'. serve demo_handler sample_world demo_post demo_app = (Some r, ap') \<and> rs_status r = 200 \<and>
     sv_store (ap_service ap') = Inl ms'"
proof -
  let ?req = "zero_request\<lparr>rq_configuration_id := ''urn:eudi:pid:1'', rq_proof := Some \<lparr>pf_type = ''jwt'', pf_jwt = ''p''\<rparr>\<rparr>"
  have E: "hd_issuance demo_handler = demo_env" "ap_service demo_app = demo_service" by (simp_all add: demo_handler_def demo_app_def)
  have m: "on_memory plain_store_params demo_env" by (simp add: on_memory_def demo_env_def demo_env_on_def)
  have j: "se_jose demo_env = issue_jose" "se_baseURL demo_env = demo_base" "se_float demo_env = demo_fo"
    by (simp_all add: demo_env_def demo_env_on_def)
  have st: "sv_store demo_service = Inl (NewStore\<lparr>mem_records := [(''r'', demo_record)]\<rparr>)"
    "w_clock (sv_world demo_service) k = 0" for k by (simp_all add: demo_service_def NewService_def zero_world_def)
  obtain jti where au: "authorized demo_env sample_world 0 ''t'' ''d'' ''/oid4vci/v1/credential'' demo_service demo_claims jti"
    using authorize_Ok [OF demo_authorize] st(2) by metis
  have pf: "ExtractProofJWT ?req = ''p''" by (simp add: ExtractProofJWT_def zero_request_def)
  have n: "fresh_nonce demo_env ''p'' (c_CNonce demo_claims) (sv_sessions demo_service) ''n''"
    by (simp add: fresh_nonce_def j demo_proof demo_claims_def)
  have r: "request_ok demo_env demo_body ?req" by (simp add: request_ok_def j demo_request zero_request_def)
  have ok: "proof_ok issue_jose 0 ''p'' demo_base ''w''" using demo_proof(1) by (simp add: ValidateProofJWT_Ok_iff)
  have d: "hasCaseInsensitivePrefix ''dpop t'' ''dpop ''" "drop 5 ''dpop t'' = ''t''" by code_simp+
  have p: "hr_method demo_post = ''POST''" "hr_path demo_post = ''/oid4vci/v1/credential''" "hr_body demo_post = Inr demo_body"
    "hr_header demo_post ''Authorization'' = [''dpop t'']" "hr_header demo_post ''DPoP'' = [''d'']"
    by (simp_all add: demo_post_def)
  have rc: "mem_table (NewStore\<lparr>mem_records := [(''r'', demo_record)]\<rparr>) ''r'' = Some demo_record"
    "CredentialData demo_record \<notin> {[], ''{}''}" "c_IssuanceRecordID demo_claims = ''r''"
    "unmarshal_map demo_fo (CredentialData demo_record) = Some (Some [(''a'', JStr ''b'')])"
    using demo_data [of demo_fo] by (simp_all add: mem_table_def demo_record_def demo_claims_def)
  show ?thesis
    using authorized_request_is_served [where H = demo_handler and ap = demo_app and A = sample_world and rq = demo_post and rid = "''r''",
        unfolded E j st pf, OF m refl p(1,2,4) d _ p(5,3) au r, unfolded pf, OF _ _ ok n rc(3) _ rc(1,2,4) demo_can_build]
    by blast
qed

section \<open>A revocation is accepted and seen\<close>

lemma mem_set_fits:
  assumes "mem_sane ms" and "mem_entries ms rid = Some (i, v)" and "fits (mem_entries ms)"
  shows "mem_sane (snd (mem_SetStatus rid u ms))" "fits (mem_entries (snd (mem_SetStatus rid u ms)))"
    "mem_entries (snd (mem_SetStatus rid u ms)) rid = Some (i, u)"
proof -
  have s: "gm_get (statusByRecID ms) rid = Some i" using assms(2) by (simp add: mem_entries_iff)
  show "mem_sane (snd (mem_SetStatus rid u ms))" by (rule mem_set_sane [OF assms(1)])
  have e: "mem_entries (snd (mem_SetStatus rid u ms)) = (mem_entries ms)(rid \<mapsto> (i, u))"
    using mem_set_entries [OF assms(1), of rid u] s by simp
  then show "mem_entries (snd (mem_SetStatus rid u ms)) rid = Some (i, u)" by simp
  show "fits (mem_entries (snd (mem_SetStatus rid u ms)))"
    unfolding e using assms(2,3) by (auto simp: fits_def)
qed

text \<open>C7 (liveness): on the in-memory store, revoking a credential that was issued and has a list entry is
  answered 204, and the status list fetched next, by anybody, is answered 200 with a token in which the
  credential's index reads INVALID, whatever was cached before. (The record's id must be a path segment
  that stands for itself, as every random id is.)\<close>

theorem revocation_is_seen:
  assumes "store_params_ok sp" and "on_memory sp (hd_issuance H)" and "sv_store (ap_service ap) = Inl ms"
    and "mem_sane ms" and "fits (mem_entries ms)" and "list_all unreserved rid" and "rid \<notin> {[], ''.'', ''..''}"
    and "mem_table ms rid = Some rc" and "rec_Status rc = ''credential_issued''" and "mem_entries ms rid = Some (i, v)"
    and "hr_method rq = ''POST''" and "hr_path rq = ''/oid4vci/v1/issuance/'' @ rid @ ''/revoke''"
    and "hr_method rq2 = ''GET''" and "hr_path rq2 = ''/oid4vci/v1/status-list/pid''"
    and "iterates (se_entry_order (hd_issuance H))" and "zlib_ok (se_zlib (hd_issuance H))"
    and "signs (se_out (hd_issuance H)) (se_issuerKey (hd_issuance H))"
  shows "\<exists>r ap' r2 ap2. serve H A rq ap = (Some r, ap') \<and> rs_status r = 204 \<and>
    serve H A2 rq2 ap' = (Some r2, ap2) \<and> rs_status r2 = 200 \<and>
    published (se_out (hd_issuance H)) (se_zlib (hd_issuance H)) (se_issuerKey (hd_issuance H))
      (status_uri (hd_issuance H)) (rs_body r2) i StatusInvalid"
proof -
  let ?E = "hd_issuance H" and ?ms = "snd (mem_SetStatus rid StatusInvalid ms)"
  let ?sv = "ap_service ap\<lparr>sv_store := Inl ?ms, sv_cacheToken := []\<rparr>"
  note f = mem_set_fits [OF assms(4,10,5), of StatusInvalid]
  have "gm_get (statusByRecID ms) rid = Some i" using assms(10) by (simp add: mem_entries_iff)
  note rev = revoke_complete [OF assms(2,3) assms(8) [unfolded mem_table_def] assms(9) this]
  have route: "find_route Routes (hr_method rq) (path_segments (hr_path rq)) = Some (Revoke rid)"
    unfolding assms(11,12) using assms(7) by (intro revoke_route [OF assms(6)]) simp
  have 1: "serve H A rq ap = (Some (respond (cors_headers []) 204 []), ap\<lparr>ap_service := ?sv\<rparr>)"
    using assms(11) revoke_path_clean [OF assms(6,7)]
    by (simp add: serve_endpoint [OF route] assms(12) revokeIssuance_def on_service_def rev)
  obtain tok sv2 where g: "GetStatusListToken ?E ''pid'' ?sv = (Ok tok, sv2)"
    using status_list_complete [OF assms(2) _ f(1,2) assms(15,17), of ?sv] by auto
  have e: "se_status ?E = any_status sp" using assms(2) by (simp add: on_memory_def)
  have "published (se_out ?E) (se_zlib ?E) (se_issuerKey ?E) (status_uri ?E) tok i (StatusInvalid AND 3)"
    by (rule issuance_store.fresh_token_publishes [OF any_issuance_store [OF assms(1)] e assms(15,16) _ _ g, where r = rid])
      (simp_all add: f any_sane_def any_entries_def cached_token_def)
  moreover have "\<exists>r2 ap2. serve H A2 rq2 (ap\<lparr>ap_service := ?sv\<rparr>) = (Some r2, ap2) \<and> rs_status r2 = 200 \<and> rs_body r2 = tok"
    using status_route g
    by (simp add: serve_endpoint [of rq2 "StatusListEP ''pid''"] assms(13,14) clean_paths statusList_def on_service_def respond_def)
  ultimately show ?thesis using 1 by (fastforce simp: respond_def StatusInvalid_def)
qed


definition demo_revoke :: http_request where
  "demo_revoke = \<lparr>hr_method = ''POST'', hr_path = ''/oid4vci/v1/issuance/r/revoke'', hr_rawquery = [], hr_query = (\<lambda>_. []),
     hr_header = (\<lambda>_. []), hr_body = Inr []\<rparr>"

definition issued_app :: "(any_store, string) app" where
  "issued_app = \<lparr>ap_service = issued_service, ap_cache = NewCache\<rparr>"

theorem revocation_is_seen_witness:
  "\<exists>r ap' r2 ap2. serve demo_handler sample_world demo_revoke issued_app = (Some r, ap') \<and> rs_status r = 204 \<and>
    serve demo_handler sample_world (demo_get ''/oid4vci/v1/status-list/pid'') ap' = (Some r2, ap2) \<and> rs_status r2 = 200"
proof -
  let ?ms = "NewStore\<lparr>mem_records := [(''r'', demo_record\<lparr>rec_Status := ''credential_issued''\<rparr>)],
      statusNextIdx := 1, statusByIdx := [(0, StatusValid)], statusByRecID := [(''r'', 0)]\<rparr>"
  have E: "hd_issuance demo_handler = demo_env" by (simp add: demo_handler_def)
  have m: "on_memory plain_store_params (hd_issuance demo_handler)" by (simp add: E on_memory_def demo_env_def demo_env_on_def)
  have st: "sv_store (ap_service issued_app) = Inl ?ms" by (simp add: issued_app_def issued_service_def NewService_def)
  have s: "mem_sane ?ms" "fits (mem_entries ?ms)"
    using issued_invariants(2,4) by (simp_all add: issued_service_def NewService_def any_sane_def any_entries_def)
  have r: "list_all unreserved ''r''" "''r'' \<notin> {[], ''.'', ''..''}" by (code_simp, simp)
  have t: "mem_table ?ms ''r'' = Some (demo_record\<lparr>rec_Status := ''credential_issued''\<rparr>)"
    "rec_Status (demo_record\<lparr>rec_Status := ''credential_issued''\<rparr>) = ''credential_issued''"
    "mem_entries ?ms ''r'' = Some (0, StatusValid)"
    by (simp_all add: mem_table_def mem_entries_def mem_byte_at_def)
  have p: "hr_method demo_revoke = ''POST''" "hr_path demo_revoke = ''/oid4vci/v1/issuance/'' @ ''r'' @ ''/revoke''"
    "hr_method (demo_get q) = ''GET''" "hr_path (demo_get q) = q" for q
    by (simp_all add: demo_revoke_def demo_get_def)
  have l: "iterates (se_entry_order (hd_issuance demo_handler))" "zlib_ok (se_zlib (hd_issuance demo_handler))"
    "signs (se_out (hd_issuance demo_handler)) (se_issuerKey (hd_issuance demo_handler))"
    using demo_can_build [of PIDConfigID undefined]
    by (simp_all add: E can_build_def PIDConfigID_def PIDMdocConfigID_def demo_env_def demo_env_on_def zlib_ok_def)
  show ?thesis
    using revocation_is_seen [OF plain_store_params_ok m st s r t p(1,2,3,4) l, of sample_world sample_world]
    by (elim exE conjE) (intro exI conjI)
qed

end
