(* ===== verification/Web_Ui.thy ===== *)
theory Web_Ui
  imports Http_Routes
begin

text \<open>
  \<open>internal/webui\<close>: the static user interface. \<open>http.FileServer\<close> over the embedded files is an argument;
  modelled are the base path and what \<open>http.StripPrefix\<close> does with it. The route is registered as a
  subtree of its base path, which has no trailing slash and is empty or starts with a slash (anything
  else names a host, or is refused by \<open>ServeMux\<close>).
\<close>

record web_ui =
  wu_staticFS :: "http_request \<Rightarrow> http_response"
  wu_basePath :: string

definition web_ui_NewHandler :: "(http_request \<Rightarrow> http_response) \<Rightarrow> string \<Rightarrow> web_ui" where
  "web_ui_NewHandler staticFS basePath = \<lparr>wu_staticFS = staticFS, wu_basePath = trim_suffix_slash basePath\<rparr>"

definition StripPrefix :: "string \<Rightarrow> (http_request \<Rightarrow> http_response) \<Rightarrow> http_request \<Rightarrow> http_response" where
  "StripPrefix p h rq =
     (if p = [] then h rq
      else if has_prefix (hr_path rq) p then h (rq\<lparr>hr_path := drop (length p) (hr_path rq)\<rparr>)
      else http_NotFound [])"

text \<open>The subtree pattern \<open>GET <base>/\<close> and its handler: a path is under the base when its first segments are
  those of the base and there is more. The base itself is what \<open>ServeMux\<close> adds the slash to.\<close>

definition base_segments :: "web_ui \<Rightarrow> string list" where
  "base_segments h = (if wu_basePath h = [] then [] else map segment_value (path_segments (wu_basePath h)))"

definition web_ui_Routes :: "web_ui \<Rightarrow> http_request \<Rightarrow> http_response option" where
  "web_ui_Routes h rq =
     (let bs = base_segments h; ss = path_segments (hr_path rq)
      in if length bs < length ss \<and> map segment_value (take (length bs) ss) = bs
         then Some (StripPrefix (wu_basePath h @ ''/'') (wu_staticFS h) rq)
         else None)"

definition web_ui_root :: "web_ui \<Rightarrow> string \<Rightarrow> bool" where
  "web_ui_root h p \<longleftrightarrow> wu_basePath h \<noteq> [] \<and> map segment_value (path_segments p) = base_segments h"

text \<open>The file server is asked for the path below the base, and nothing outside is served.\<close>

lemma web_ui_serves:
  "web_ui_Routes h rq = Some r \<Longrightarrow>
   r = http_NotFound [] \<or>
   (\<exists>rest. hr_path rq = wu_basePath h @ ''/'' @ rest \<and> r = wu_staticFS h (rq\<lparr>hr_path := rest\<rparr>))"
  by (auto simp: web_ui_Routes_def StripPrefix_def has_prefix_iff prefix_def Let_def split: if_splits)

end
