(* ===== verification/Startup.thy ===== *)
theory Startup
  imports Http_Routes Web_Ui Settings
begin

text \<open>
  Starting the issuer: \<open>cmd/issuer/main.go\<close>, the key loading of \<open>internal/crypto/keyloader.go\<close>
  and \<open>walletprovider.go\<close>, and the choice of the store. Files, certificates, the signature service's
  client and the database connection are arguments; a \<open>log.Fatalf\<close> is an error with its text. Log lines
  are not modelled, and the listener is what \<open>serve\<close> answers.
\<close>

section \<open>Files\<close>

text \<open>\<open>filepath.Join\<close> of a directory and a file name, which cleans the result.\<close>

definition path_join :: "string \<Rightarrow> string \<Rightarrow> string" where
  "path_join dir file = path_clean (if dir = [] then file else dir @ ''/'' @ file)"

datatype file_error = NotExist string | FileError string

fun file_error_text :: "file_error \<Rightarrow> string" where
  "file_error_text (NotExist e) = e"
| "file_error_text (FileError e) = e"

record file_system =
  fs_stat :: "string \<Rightarrow> bool"
  fs_read :: "string \<Rightarrow> file_error + bytes"

text \<open>\<open>pem.Decode\<close> gives the bytes of the first block, \<open>x509.ParseCertificate\<close> the raw certificate, and
  \<open>x509.ParsePKCS8PrivateKey\<close> a key, which is \<open>None\<close> when it is not an EC key.\<close>

record 'sg key_lib =
  pem_decode :: "bytes \<Rightarrow> bytes option"
  x509_parse :: "bytes \<Rightarrow> string + bytes"
  pkcs8_parse :: "bytes \<Rightarrow> string + 'sg option"

section \<open>The signing key\<close>

definition crypto_error :: "string \<Rightarrow> go_error" where
  "crypto_error e = Plain (''crypto: '' @ e)"

definition read_file :: "file_system \<Rightarrow> string \<Rightarrow> bytes result" where
  "read_file fs p = of_sum (\<lambda>e. crypto_error (''reading '' @ p @ '': '' @ file_error_text e)) (fs_read fs p)"

definition pem_block :: "'sg key_lib \<Rightarrow> string \<Rightarrow> bytes \<Rightarrow> bytes result" where
  "pem_block K p bs = of_option (crypto_error (p @ '': no PEM block found'')) (pem_decode K bs)"

definition load_files ::
  "('k, 'sg) jose_out \<Rightarrow> 'sg key_lib \<Rightarrow> file_system \<Rightarrow> string \<Rightarrow> string \<Rightarrow> ('k, 'sg) signing_key result" where
  "load_files L K fs certPath keyPath =
     then_ok (read_file fs certPath) (\<lambda>certPEM.
     then_ok (read_file fs keyPath) (\<lambda>keyPEM.
     then_ok (pem_block K certPath certPEM) (\<lambda>certBlock.
     then_ok (of_sum (\<lambda>e. crypto_error (''parsing certificate: '' @ e)) (x509_parse K certBlock)) (\<lambda>cert.
     then_ok (pem_block K keyPath keyPEM) (\<lambda>keyBlock.
     then_ok (of_sum (\<lambda>e. crypto_error (''parsing PKCS8 private key: '' @ e)) (pkcs8_parse K keyBlock)) (\<lambda>private.
     then_ok (of_option (crypto_error (keyPath @ '': not an EC private key'')) private) (\<lambda>ecPrivate.
     then_ok (buildPublicJWK L ecPrivate [cert]) (\<lambda>(pub, kid, chain).
     Ok \<lparr>sk_kid = kid, sk_signer = ecPrivate, sk_public = pub, sk_x5cChain = chain\<rparr>))))))))"

definition em_dash :: string where "em_dash = [CHR 0xE2, CHR 0x80, CHR 0x94]"

definition LoadFromPEM ::
  "('k, 'sg) jose_out \<Rightarrow> 'sg key_lib \<Rightarrow> file_system \<Rightarrow> string \<Rightarrow> ('k, 'sg) signing_key result" where
  "LoadFromPEM L K fs certsDir =
     (let certPath = path_join certsDir ''issuer-cert.pem''; keyPath = path_join certsDir ''issuer-key.pem''
      in if \<not> fs_stat fs certPath \<or> \<not> fs_stat fs keyPath then
           Err (crypto_error (''no signing key configured '' @ em_dash @
             '' set FIKUA_DSS_URL for remote signing via the Fikua DSS, or place issuer-cert.pem + issuer-key.pem in '' @ certsDir))
         else load_files L K fs certPath keyPath)"

definition LoadWalletProviderAnchor :: "'sg key_lib \<Rightarrow> file_system \<Rightarrow> string \<Rightarrow> bytes option result" where
  "LoadWalletProviderAnchor K fs certsDir =
     (case fs_read fs (path_join certsDir ''root-ca.crt'') of
        Inl (NotExist e) \<Rightarrow> Ok None
      | Inl (FileError e) \<Rightarrow> Err (Plain e)
      | Inr bs \<Rightarrow>
          let der = (case pem_decode K bs of None \<Rightarrow> bs | Some b \<Rightarrow> b)
          in then_ok (of_sum Plain (x509_parse K der)) (\<lambda>cert. Ok (Some cert)))"

text \<open>The client of the remote signature service: opening the signer and fetching its leaf certificate.\<close>

record 'sg dss_client =
  dss_NewSigner :: "app_config \<Rightarrow> string + 'sg"
  dss_LeafDER :: "'sg \<Rightarrow> string + bytes"

definition loadSigningKey ::
  "('k, 'sg) jose_out \<Rightarrow> 'sg key_lib \<Rightarrow> file_system \<Rightarrow> 'sg dss_client \<Rightarrow> app_config \<Rightarrow>
   ('k, 'sg) signing_key result" where
  "loadSigningKey L K fs D cfg =
     (if DSSURL cfg = [] then LoadFromPEM L K fs (CertsDir cfg)
      else then_ok (of_sum Plain (dss_NewSigner D cfg)) (\<lambda>signer.
           then_ok (of_sum Plain (dss_LeafDER D signer)) (\<lambda>leafDER.
           NewRemote L signer [leafDER])))"

section \<open>The store\<close>

text \<open>Opening, pinging and creating the schema each may fail; the tables are what the database holds then.\<close>

record database =
  db_open :: "string \<Rightarrow> string option"
  db_ping :: "string option"
  db_schema :: "string option"
  db_tables :: pg_store

definition db_check :: "string option \<Rightarrow> unit result" where
  "db_check e = (case e of None \<Rightarrow> Ok () | Some t \<Rightarrow> Err (Plain t))"

definition loadIssuanceStore :: "database \<Rightarrow> app_config \<Rightarrow> any_store result" where
  "loadIssuanceStore db cfg =
     (if DBURL cfg = [] then Ok (Inl NewStore)
      else then_ok (db_check (db_open db (DBURL cfg))) (\<lambda>_.
           then_ok (db_check (db_ping db)) (\<lambda>_.
           then_ok (db_check (db_schema db)) (\<lambda>_.
           Ok (Inr (db_tables db))))))"

section \<open>The process\<close>

text \<open>What the process finds around it: the environment, the registry, the libraries and services above,
  the static files and the clock and entropy. The libraries of the service are in \<open>bt_libs\<close>.\<close>

record ('k, 'ks, 'sg) boot =
  bt_env :: environment
  bt_registry :: http_get
  bt_keys :: "'sg key_lib"
  bt_files :: file_system
  bt_dss :: "'sg dss_client"
  bt_db :: database
  bt_static :: "string + (http_request \<Rightarrow> http_response)"
  bt_openAPI :: string
  bt_world :: world
  bt_store_params :: store_params
  bt_libs :: "('k, 'ks, 'sg, any_store) service_env"

definition fatal :: "string \<Rightarrow> 'a result \<Rightarrow> (string, 'a) outcome" where
  "fatal what r = map_err (\<lambda>e. what @ '': '' @ error_text e) r"

definition build_env ::
  "('k, 'ks, 'sg) boot \<Rightarrow> app_config \<Rightarrow> ('k, 'sg) signing_key \<Rightarrow> ('k, 'ks, 'sg, any_store) service_env" where
  "build_env B cfg key =
     (bt_libs B)\<lparr>se_baseURL := BaseURL cfg, se_issuerKey := key,
        se_records := any_records (bt_store_params B), se_status := any_status (bt_store_params B)\<rparr>"

definition issuer_main ::
  "('k, 'ks, 'sg) boot \<Rightarrow> (string, ('k, 'ks, 'sg, any_store) handler \<times> (any_store, 'ks) app) outcome" where
  "issuer_main B =
     (let cfg = Load (bt_env B);
          (started, cache) = cache_Start (ListSchemes (se_float (bt_libs B)) (bt_registry B) (AttestationRegistryURL cfg)) [] NewCache
      in then_ok (fatal (''loading attestation catalogue from '' @ AttestationRegistryURL cfg)
            (case started of Some e \<Rightarrow> Err e | None \<Rightarrow> Ok ())) (\<lambda>_.
         then_ok (fatal ''loading signing key''
            (loadSigningKey (se_out (bt_libs B)) (bt_keys B) (bt_files B) (bt_dss B) cfg)) (\<lambda>issuerKey.
         then_ok (fatal ''setting up issuance store'' (loadIssuanceStore (bt_db B) cfg)) (\<lambda>issuances.
         then_ok (fatal ''static assets'' (of_sum Plain (bt_static B))) (\<lambda>staticFS.
         let tokens = NewVerifier (AuthServerURL cfg) (BaseURL cfg) (AuthServerURL cfg);
             issuance = NewService new_session_store issuances tokens (bt_world B)
         in Ok (\<lparr>hd_baseURL = BaseURL cfg, hd_authServerURL = AuthServerURL cfg,
                 hd_issuableSchemes = IssuableSchemes cfg, hd_issuance = build_env B cfg issuerKey,
                 hd_openAPISpec = bt_openAPI B,
                 hd_static = web_ui_Routes (web_ui_NewHandler staticFS (BasePath cfg)),
                 hd_ui_root = web_ui_root (web_ui_NewHandler staticFS (BasePath cfg))\<rparr>,
                \<lparr>ap_service = issuance, ap_cache = cache\<rparr>))))))"

end
