(* ===== verification/Issuer_Run.thy ===== *)
theory Issuer_Run
  imports Startup Http_Props
begin

text \<open>
  The running issuer: HTTP requests and background refreshes of the catalogue, one after the other,
  from the state \<open>issuer_main\<close> starts in. What interleaved handlers can do to the status list is proved
  in \<open>Service_Status\<close>; here a request is one step, and the subject is what no sequence of requests,
  whatever they contain, can do to the store.
\<close>

section \<open>Steps\<close>

inductive issuer_step ::
  "('k, 'ks, 'sg, 's) handler \<Rightarrow> ('s, 'ks) app \<Rightarrow> ('s, 'ks) app \<Rightarrow> bool" for H where
  request: "serve H A rq ap = (r, ap') \<Longrightarrow> issuer_step H ap ap'"
| refresh: "issuer_step H ap (ap\<lparr>ap_cache := cache_tick reply (ap_cache ap)\<rparr>)"

inductive_cases issuer_stepE: "issuer_step H ap ap'"

text \<open>Runs all of whose states satisfy a bound.\<close>

inductive issuer_run ::
  "('k, 'ks, 'sg, 's) handler \<Rightarrow> ('s \<Rightarrow> bool) \<Rightarrow> ('s, 'ks) app \<Rightarrow> ('s, 'ks) app \<Rightarrow> bool" for H bound where
  stop: "issuer_run H bound ap ap"
| step: "issuer_run H bound a b \<Longrightarrow> bound (sv_store (ap_service b)) \<Longrightarrow> issuer_step H b c \<Longrightarrow> issuer_run H bound a c"

section \<open>Stores only grow\<close>

text \<open>\<open>grows\<close>: every list entry keeps its index, and an invalid one stays invalid; no record disappears.\<close>

definition grows ::
  "(string \<Rightarrow> issuance_record option) \<Rightarrow> (string \<Rightarrow> (int \<times> byte) option) \<Rightarrow>
   (string \<Rightarrow> issuance_record option) \<Rightarrow> (string \<Rightarrow> (int \<times> byte) option) \<Rightarrow> bool" where
  "grows t e t' e' \<longleftrightarrow>
     dom t \<subseteq> dom t' \<and>
     (\<forall>r i v. e r = Some (i, v) \<longrightarrow> (\<exists>v'. e' r = Some (i, v') \<and> (v = StatusInvalid \<longrightarrow> v' = StatusInvalid)))"

lemma grows_refl: "grows t e t e"
  by (simp add: grows_def)

lemma grows_trans: "grows t e t' e' \<Longrightarrow> grows t' e' t'' e'' \<Longrightarrow> grows t e t'' e''"
  unfolding grows_def by (meson subset_trans)

lemma grows_touched: "touched i f t t' \<Longrightarrow> grows t e t' e"
  by (auto simp: touched_def grows_def)

context issuance_store
begin

text \<open>What a piece of a handler does to the store: a \<open>steady\<close> one keeps the room for new list entries too, an
  \<open>evolves\<close> one is only promised for a store with room, and \<open>drifts\<close> says nothing of room.\<close>

definition steady :: "('s, 'ks) service \<Rightarrow> ('s, 'ks) service \<Rightarrow> bool" where
  "steady a b \<longleftrightarrow>
     (let s = sv_store a; t = sv_store b
      in sound s \<and> sane s \<longrightarrow> sound t \<and> sane t \<and> room t = room s \<and> grows (tab s) (ent s) (tab t) (ent t))"

definition evolves :: "('s, 'ks) service \<Rightarrow> ('s, 'ks) service \<Rightarrow> bool" where
  "evolves a b \<longleftrightarrow>
     (let s = sv_store a; t = sv_store b
      in sound s \<and> sane s \<and> room s \<longrightarrow> sound t \<and> sane t \<and> grows (tab s) (ent s) (tab t) (ent t))"

definition drifts :: "('s, 'ks) service \<Rightarrow> ('s, 'ks) service \<Rightarrow> bool" where
  "drifts a b \<longleftrightarrow>
     (let s = sv_store a; t = sv_store b
      in sound s \<and> sane s \<longrightarrow> sound t \<and> sane t \<and> grows (tab s) (ent s) (tab t) (ent t))"

lemma drifts_same: "sv_store b = sv_store a \<Longrightarrow> drifts a b"
  by (simp add: drifts_def Let_def grows_refl)

lemma steady_same: "sv_store b = sv_store a \<Longrightarrow> steady a b"
  by (simp add: steady_def Let_def grows_refl)

lemma steady_trans: "steady a b \<Longrightarrow> steady b c \<Longrightarrow> steady a c"
  by (auto simp: steady_def Let_def intro: grows_trans)

lemma steady_evolves: "steady a b \<Longrightarrow> evolves a b"
  by (auto simp: steady_def evolves_def Let_def)

lemma evolves_before: "steady a b \<Longrightarrow> evolves b c \<Longrightarrow> evolves a c"
  by (auto simp: steady_def evolves_def Let_def intro: grows_trans)

lemma evolves_after: "evolves a b \<Longrightarrow> steady b c \<Longrightarrow> evolves a c"
  by (auto simp: steady_def evolves_def Let_def intro: grows_trans)

lemma drifts_evolves: "drifts a b \<Longrightarrow> evolves a b"
  by (auto simp: drifts_def evolves_def Let_def)

lemma reads_drifts: "reads a b \<Longrightarrow> drifts a b"
  by (auto simp: reads_def drifts_def same_business_def Let_def grows_refl)

lemma drifts_trans: "drifts a b \<Longrightarrow> drifts b c \<Longrightarrow> drifts a c"
  by (auto simp: drifts_def Let_def intro: grows_trans)

lemma drifts_st_then:
  "drifts a (snd m) \<Longrightarrow> (\<And>x s. m = (Ok x, s) \<Longrightarrow> drifts s (snd (f x s))) \<Longrightarrow> drifts a (snd (st_then m f))"
  by (cases m; cases "fst m") (auto intro: drifts_trans)

lemma steady_st_then:
  "steady a (snd m) \<Longrightarrow> (\<And>x s. m = (Ok x, s) \<Longrightarrow> steady s (snd (f x s))) \<Longrightarrow> steady a (snd (st_then m f))"
  by (cases m; cases "fst m") (auto intro: steady_trans)

lemma evolves_st_then:
  "steady a (snd m) \<Longrightarrow> (\<And>x s. m = (Ok x, s) \<Longrightarrow> evolves s (snd (f x s))) \<Longrightarrow> evolves a (snd (st_then m f))"
  by (cases m; cases "fst m") (auto intro: evolves_before steady_evolves)

lemma evolves_then_steady:
  "evolves a (snd m) \<Longrightarrow> (\<And>x s. m = (Ok x, s) \<Longrightarrow> steady s (snd (f x s))) \<Longrightarrow> evolves a (snd (st_then m f))"
  by (cases m; cases "fst m") (auto intro: evolves_after)

text \<open>The calls on the store.\<close>

lemma steady_create: "steady a (snd (call_Create E ct cd st sr a))" if "se_records E = R"
proof (cases "ro_Create R ct cd st sr (sv_store a) (sv_world a)")
  case (fields r t w)
  show ?thesis
    using create [OF _ fields] create_frame [OF fields]
    by (auto simp: steady_def Let_def call_Create_def that fields grows_def)
qed

lemma steady_find: "steady a (snd (on_store (ro_FindByID R i) a))"
proof (cases "ro_FindByID R i (sv_store a)")
  case (Pair r t)
  show ?thesis
    using find [OF _ Pair] find_frame [OF Pair] by (auto simp: steady_def Let_def on_store_def Pair grows_refl)
qed

lemma steady_update_status: "steady a (on_store_world (ro_UpdateStatus R i x) a)"
proof (cases "ro_UpdateStatus R i x (sv_store a) (sv_world a)")
  case (Pair t w)
  show ?thesis
    using update_status [OF _ Pair] update_status_frame [OF Pair] grows_touched
    by (auto simp: steady_def Let_def on_store_world_def Pair)
qed

lemma steady_update_state: "steady a (on_store_world (ro_UpdateIssuerState R i x) a)"
proof (cases "ro_UpdateIssuerState R i x (sv_store a) (sv_world a)")
  case (Pair t w)
  show ?thesis
    using update_issuer_state [OF _ Pair] update_issuer_state_frame [OF Pair] grows_touched
    by (auto simp: steady_def Let_def on_store_world_def Pair)
qed

lemma evolves_allocate: "evolves a (snd (on_store (so_AllocateIdx S r) a))"
proof (cases "so_AllocateIdx S r (sv_store a)")
  case (Pair res t)
  show ?thesis
  proof (cases "ent (sv_store a) r")
    case None
    then show ?thesis
      using alloc_new [OF _ _ None Pair] alloc_frame [OF Pair]
      by (auto simp: evolves_def Let_def on_store_def Pair grows_def)
  next
    case (Some e)
    obtain i v where "e = (i, v)" by (cases e)
    with Some show ?thesis
      using alloc_old [OF _ _ Pair, of i v] alloc_frame [OF Pair]
      by (auto simp: evolves_def Let_def on_store_def Pair grows_refl)
  qed
qed

lemma drifts_revoke: "drifts a (snd (on_store (so_SetStatus S r StatusInvalid) a))"
proof (cases "so_SetStatus S r StatusInvalid (sv_store a)")
  case (Pair upd t)
  show ?thesis
    using set_result [OF _ Pair] set_frame [OF Pair]
    by (auto simp: drifts_def Let_def on_store_def Pair grows_def)
qed

text \<open>The handlers.\<close>

lemma steady_on_world: "steady a (snd (on_world f a))"
  by (rule steady_same) simp

lemma steady_trigger:
  assumes "se_records E = R"
  shows "steady a (snd (TriggerIssuance E req a))"
proof -
  note make = steady_trans [OF steady_trans [OF steady_create [OF assms] steady_on_world] steady_update_state]
  have offer: "steady s (on_store_world (ro_UpdateStatus R i x) (snd (store_offer off s)))" for s i x off
    by (rule steady_trans [OF steady_same steady_update_status]) (simp add: store_offer_def Let_def split_beta)
  show ?thesis
    unfolding TriggerIssuance_def Let_def split_beta assms
    by (rule steady_st_then, rule steady_same, simp, rule steady_st_then, unfold snd_conv, rule make, rule offer)
qed

lemma authorize_store: "sv_store (snd (authorize E A tok dp ep msg a)) = sv_store a"
proof -
  have st: "sv_store (snd (st_then m f)) = sv_store a"
    if "sv_store (snd m) = sv_store a" and "\<And>x s. m = (Ok x, s) \<Longrightarrow> sv_store (snd (f x s)) = sv_store s"
    for m :: "'m result \<times> ('x, 'y) service" and f :: "'m \<Rightarrow> ('x, 'y) service \<Rightarrow> 'n result \<times> ('x, 'y) service" and a
    using that by (cases m; cases "fst m") auto
  show ?thesis
    unfolding authorize_def Let_def split_beta
    by (intro st) (auto intro!: st)
qed

lemma steady_nonce: "steady a (snd (service_GenerateNonce E A tok dp a))"
proof -
  have "steady a (snd (st_then (authorize E A tok dp ep msg b) (\<lambda>_ sv. (Ok n, sv))))"
    if "sv_store b = sv_store a" for b ep msg and n :: string
    by (rule steady_st_then) (simp_all add: steady_same authorize_store that)
  then show ?thesis
    unfolding service_GenerateNonce_def Let_def split_beta by (auto intro: steady_same)
qed

lemma steady_proof_nonce: "steady a (snd (validateProofNonce E pf n a))"
  by (rule steady_same) (simp add: validateProofNonce_def Let_def split_beta split: outcome.split)

lemma evolves_issue:
  assumes "se_records E = R" and "se_status E = S"
  shows "evolves a (snd (IssueCredential E A tok dp body a))"
proof -
  have tail: "evolves b (snd (st_then (map_err g (fst (on_store (so_AllocateIdx S rid) b)),
      snd (on_store (so_AllocateIdx S rid) b)) f))"
    if "\<And>x s. steady s (snd (f x s))" for g :: "go_error \<Rightarrow> go_error" and rid b and f :: "int \<Rightarrow> _ \<Rightarrow> 'm result \<times> _"
    by (rule evolves_then_steady) (simp_all add: evolves_allocate that)
  have issued: "steady s (snd (Ok y, on_store_world (ro_UpdateStatus R rid x) s\<lparr>sv_sessions := z\<rparr>))" for s rid x y z
    by (rule steady_trans [OF steady_update_status steady_same]) simp
  show ?thesis
    unfolding IssueCredential_def Let_def split_beta assms
    apply (rule evolves_st_then, rule steady_same, simp add: authorize_store)
    apply (rule evolves_st_then, rule steady_same, simp)
    apply (rule evolves_st_then, rule steady_same, simp)
    apply (rule evolves_st_then, rule steady_same, simp)
    apply (rule evolves_st_then, rule steady_proof_nonce)
    apply (rule evolves_st_then, rule steady_same, simp)
    apply (rule evolves_st_then, unfold snd_conv, rule steady_find)
    apply (rule evolves_st_then, rule steady_same, simp)
    apply (rule tail, rule steady_st_then, rule steady_on_world)
    apply (rule issued)
    done
qed

lemma drifts_revocation:
  assumes "se_records E = R" and "se_status E = S"
  shows "drifts a (snd (RevokeCredential E rid a))"
proof -
  have "reads b (snd (revocable E rid b))" for b
    unfolding revocable_def Let_def split_beta assms
    by (intro reads_st_then) (auto simp: reads_refl reads_FindByID reads_lookup intro: reads_st_then)
  then have "drifts b (snd (revocable E rid b))" for b by (rule reads_drifts)
  moreover have "drifts b (snd (mark_invalid E rid b))" for b
    unfolding mark_invalid_def Let_def split_beta assms
    by (rule drifts_st_then) (simp_all add: drifts_revoke drifts_same)
  ultimately show ?thesis
    unfolding RevokeCredential_def
    by (intro drifts_st_then) (simp_all add: drifts_same drop_cache_def)
qed

text \<open>The HTTP layer.\<close>

lemma on_service_service: "ap_service (snd (on_service f ap)) = snd (f (ap_service ap))"
  by (simp add: on_service_def split_beta)

lemma drifts_stage:
  "(\<And>x. drifts (ap_service ap) (ap_service (snd (f x ap)))) \<Longrightarrow>
   drifts (ap_service ap) (ap_service (snd (st_then (r, ap) f)))"
  by (cases r) (simp_all add: drifts_same)

lemma evolves_stage:
  "(\<And>x. evolves (ap_service ap) (ap_service (snd (f x ap)))) \<Longrightarrow>
   evolves (ap_service ap) (ap_service (snd (st_then (r, ap) f)))"
  by (cases r) (simp_all add: steady_evolves steady_same)

lemma evolves_handle:
  assumes "se_records (hd_issuance H) = R" and "se_status (hd_issuance H) = S"
  shows "evolves (ap_service ap) (ap_service (snd (handle H A rq ep hs ap)))"
proof (cases ep)
  case Trigger
  show ?thesis
    unfolding Trigger handle.simps triggerIssuance_def snd_reply_with
    by (rule evolves_stage) (simp add: on_service_service steady_evolves steady_trigger [OF assms(1)])
next
  case Nonce
  show ?thesis
    unfolding Nonce handle.simps nonce_handler_def Let_def snd_reply_with
    by (rule evolves_stage) (simp add: on_service_service steady_evolves steady_nonce)
next
  case CredentialEP
  show ?thesis
    unfolding CredentialEP handle.simps credential_def Let_def snd_reply_with
    by (rule evolves_stage) (simp add: on_service_service split_beta evolves_issue [OF assms])
next
  case Notification
  show ?thesis by (simp add: Notification notification_def steady_evolves steady_same)
next
  case (Revoke i)
  show ?thesis
    unfolding Revoke handle.simps revokeIssuance_def snd_reply_with
    by (simp add: on_service_service drifts_evolves drifts_revocation [OF assms])
qed (use reads_handle [OF assms, of ep ap A rq hs] in \<open>simp_all add: drifts_evolves reads_drifts\<close>)

lemma evolves_serve:
  assumes "se_records (hd_issuance H) = R" and "se_status (hd_issuance H) = S"
  shows "evolves (ap_service ap) (ap_service (snd (serve H A rq ap)))"
proof -
  have "evolves (ap_service ap) (ap_service (snd (serve_mux H A rq hs ap)))" for hs
    using evolves_handle [OF assms]
    by (cases rule: serve_mux_cases [of rq H A hs ap]) (auto simp: steady_evolves steady_same)
  then show ?thesis by (simp add: serve_def WithCORS_def Let_def steady_evolves steady_same)
qed

lemma run_grows:
  assumes "se_records (hd_issuance H) = R" and "se_status (hd_issuance H) = S"
    and "issuer_run H room a b" and "sound (sv_store (ap_service a))" and "sane (sv_store (ap_service a))"
  shows "sound (sv_store (ap_service b)) \<and> sane (sv_store (ap_service b)) \<and>
    grows (tab (sv_store (ap_service a))) (ent (sv_store (ap_service a)))
      (tab (sv_store (ap_service b))) (ent (sv_store (ap_service b)))"
  using assms(3-5)
proof (induction rule: issuer_run.induct)
  case (stop ap)
  then show ?case by (simp add: grows_refl)
next
  case (step a b c)
  from step.hyps(3) have "evolves (ap_service b) (ap_service c)"
  proof (cases rule: issuer_step.cases)
    case (request A rq r)
    then show ?thesis using evolves_serve [OF assms(1,2), of b A rq] by simp
  next
    case (refresh reply)
    then show ?thesis by (simp add: steady_evolves steady_same)
  qed
  with step show ?case by (auto simp: evolves_def Let_def intro: grows_trans)
qed

end

section \<open>From the start\<close>

lemma fatal_Ok: "fatal what r = Ok x \<longleftrightarrow> r = Ok x"
  by (simp add: fatal_def map_err_Ok_iff)

text \<open>Everything \<open>issuer_main\<close> went through when it started.\<close>

lemma issuer_main_Ok:
  assumes "issuer_main B = Ok (H, ap)"
  obtains defs key store files where
    "ListSchemes (se_float (bt_libs B)) (bt_registry B) (AttestationRegistryURL (Load (bt_env B))) = Inr defs"
    "loadSigningKey (se_out (bt_libs B)) (bt_keys B) (bt_files B) (bt_dss B) (Load (bt_env B)) = Ok key"
    "loadIssuanceStore (bt_db B) (Load (bt_env B)) = Ok store"
    "H = \<lparr>hd_baseURL = BaseURL (Load (bt_env B)), hd_authServerURL = AuthServerURL (Load (bt_env B)),
       hd_issuableSchemes = IssuableSchemes (Load (bt_env B)), hd_issuance = build_env B (Load (bt_env B)) key,
       hd_openAPISpec = bt_openAPI B,
       hd_static = web_ui_Routes (web_ui_NewHandler files (BasePath (Load (bt_env B)))),
       hd_ui_root = web_ui_root (web_ui_NewHandler files (BasePath (Load (bt_env B))))\<rparr>"
    "ap = \<lparr>ap_service = NewService new_session_store store
       (NewVerifier (AuthServerURL (Load (bt_env B))) (BaseURL (Load (bt_env B))) (AuthServerURL (Load (bt_env B)))) (bt_world B),
       ap_cache = \<lparr>ca_defs = defs, ca_byID = index_by_id defs, ca_stale = False\<rparr>\<rparr>"
proof -
  let ?reply = "ListSchemes (se_float (bt_libs B)) (bt_registry B) (AttestationRegistryURL (Load (bt_env B)))"
  show thesis
  proof (cases ?reply)
    case (Inl e)
    with assms show thesis by (simp add: issuer_main_def cache_Start_def Let_def fatal_def)
  next
    case (Inr defs)
    with assms show thesis
      by (auto simp: issuer_main_def cache_Start_def Let_def fatal_Ok then_ok_Ok_iff of_sum_Ok_iff background_def NewCache_def
          intro!: that)
  qed
qed

lemma started_store:
  assumes "loadIssuanceStore db cfg = Ok store" and "pg_sound (db_tables db)" and "pg_sane (db_tables db)"
  shows "any_sound store \<and> any_sane store"
proof -
  have "store = Inl NewStore \<or> store = Inr (db_tables db)"
    using assms(1) by (auto simp: loadIssuanceStore_def then_ok_Ok_iff split: if_splits)
  then show ?thesis
    using assms(2,3)
    by (auto simp: any_sound_def any_sane_def mem_sound_def mem_sane_def NewStore_def gm_wf_def)
qed

text \<open>Where a signing key comes from: the signer and its leaf certificate from the signature service, or the
  key and the certificate parsed from the two files; the key id is the thumbprint of the signer's own
  public key.\<close>

definition key_of_dss :: "'sg dss_client \<Rightarrow> app_config \<Rightarrow> ('k, 'sg) signing_key \<Rightarrow> bool" where
  "key_of_dss D cfg key \<longleftrightarrow>
     (\<exists>leaf. dss_NewSigner D cfg = Inr (sk_signer key) \<and> dss_LeafDER D (sk_signer key) = Inr leaf \<and> sk_x5cChain key = [leaf])"

definition key_of_files :: "'sg key_lib \<Rightarrow> file_system \<Rightarrow> string \<Rightarrow> ('k, 'sg) signing_key \<Rightarrow> bool" where
  "key_of_files K fs dir key \<longleftrightarrow>
     (\<exists>certPEM certBlock cert keyPEM keyBlock.
        fs_read fs (path_join dir ''issuer-cert.pem'') = Inr certPEM \<and> pem_decode K certPEM = Some certBlock \<and>
        x509_parse K certBlock = Inr cert \<and> sk_x5cChain key = [cert] \<and>
        fs_read fs (path_join dir ''issuer-key.pem'') = Inr keyPEM \<and> pem_decode K keyPEM = Some keyBlock \<and>
        pkcs8_parse K keyBlock = Inr (Some (sk_signer key)))"

definition names_its_key :: "('k, 'sg) jose_out \<Rightarrow> ('k, 'sg) signing_key \<Rightarrow> bool" where
  "names_its_key L key \<longleftrightarrow>
     (\<exists>pub tp. jo_public_of L (sk_signer key) = Inr pub \<and> jo_thumbprint L pub = Inr tp \<and> sk_kid key = b64url tp)"

lemma buildPublicJWK_chain:
  "buildPublicJWK L sg chain = Ok (pub, kid, c) \<Longrightarrow>
   c = chain \<and> (\<exists>pub0 tp. jo_public_of L sg = Inr pub0 \<and> jo_thumbprint L pub0 = Inr tp \<and> kid = b64url tp)"
  by (auto simp: buildPublicJWK_def go_outcome Let_def split: if_splits)

lemma signing_key_source:
  assumes "loadSigningKey L K fs D cfg = Ok key"
  shows "(if DSSURL cfg = [] then key_of_files K fs (CertsDir cfg) key else key_of_dss D cfg key) \<and> names_its_key L key"
proof (cases "DSSURL cfg = []")
  case True
  with assms show ?thesis
    by (auto simp: loadSigningKey_def LoadFromPEM_def load_files_def read_file_def pem_block_def go_outcome Let_def
        key_of_files_def names_its_key_def split: if_splits dest!: buildPublicJWK_chain)
next
  case False
  with assms show ?thesis
    by (auto simp: loadSigningKey_def NewRemote_def go_outcome key_of_dss_def names_its_key_def dest!: buildPublicJWK_chain)
qed

text \<open>C14 (safety): a process that starts serves the catalogue the registry delivered at that moment, uses
  one base URL for its metadata, its credentials and the audience of the tokens it accepts, and trusts
  the authorization server it advertises. It signs with the key of the signature service when one is
  configured, and publishes the leaf certificate that service gave; otherwise with the key parsed from
  \<open>issuer-key.pem\<close> in the certificate directory, and publishes the certificate of \<open>issuer-cert.pem\<close> beside
  it (that the two belong together is not checked). There is no third source. The key id is the
  thumbprint of that signer's public key. Its records are in the database when one is configured, which
  then answered, and in memory otherwise.\<close>

theorem issuer_starts_configured:
  assumes "issuer_main B = Ok (H, ap)"
  shows "(\<lambda>cfg key.
    ListSchemes (se_float (bt_libs B)) (bt_registry B) (AttestationRegistryURL cfg) = Inr (cache_All (ap_cache ap)) \<and>
    \<not> Stale (ap_cache ap) \<and>
    hd_baseURL H = BaseURL cfg \<and> se_baseURL (hd_issuance H) = BaseURL cfg \<and>
    v_audience (sv_tokens (ap_service ap)) = BaseURL cfg \<and>
    v_issuer (sv_tokens (ap_service ap)) = AuthServerURL cfg \<and> hd_authServerURL H = AuthServerURL cfg \<and>
    (if DSSURL cfg = [] then key_of_files (bt_keys B) (bt_files B) (CertsDir cfg) key
     else key_of_dss (bt_dss B) cfg key) \<and> names_its_key (se_out (bt_libs B)) key \<and>
    (if DBURL cfg = [] then sv_store (ap_service ap) = Inl NewStore
     else db_open (bt_db B) (DBURL cfg) = None \<and> db_ping (bt_db B) = None \<and> db_schema (bt_db B) = None \<and>
       sv_store (ap_service ap) = Inr (db_tables (bt_db B))))
    (Load (bt_env B)) (se_issuerKey (hd_issuance H))"
proof (rule issuer_main_Ok [OF assms], goal_cases)
  case (1 defs key store files)
  have "if DBURL cfg = [] then store = Inl NewStore
     else db_open (bt_db B) (DBURL cfg) = None \<and> db_ping (bt_db B) = None \<and> db_schema (bt_db B) = None \<and>
       store = Inr (db_tables (bt_db B))" if "loadIssuanceStore (bt_db B) cfg = Ok store" for cfg
    using that by (auto simp: loadIssuanceStore_def then_ok_Ok_iff db_check_def split: if_splits option.splits)
  from this [OF 1(3)] signing_key_source [OF 1(2)] 1(1) show ?case
    unfolding 1(4,5)
    by (auto simp: cache_All_def Stale_def build_env_def NewService_def NewVerifier_def split: if_splits)
qed

text \<open>C6 (invariant): a revocation is for good. In the issuer as it was started, on either store, no sequence of
  HTTP requests and catalogue refreshes takes a record away, moves a credential's entry to another
  index of the status list, or makes an entry valid again that was invalid at any time before; the
  store's invariants hold throughout (as long as the list has indices left).\<close>

theorem revoked_forever:
  assumes "issuer_main B = Ok (H, ap0)" and "store_params_ok (bt_store_params B)"
    and "pg_sound (db_tables (bt_db B))" and "pg_sane (db_tables (bt_db B))"
    and "issuer_run H any_room ap0 ap1" and "issuer_run H any_room ap1 ap2"
    and "any_entries (sv_store (ap_service ap1)) rid = Some (idx, v)"
  shows "any_sound (sv_store (ap_service ap2)) \<and> any_sane (sv_store (ap_service ap2)) \<and>
    dom (any_table (sv_store (ap_service ap1))) \<subseteq> dom (any_table (sv_store (ap_service ap2))) \<and>
    (\<exists>v'. any_entries (sv_store (ap_service ap2)) rid = Some (idx, v') \<and> (v = StatusInvalid \<longrightarrow> v' = StatusInvalid))"
proof (rule issuer_main_Ok [OF assms(1)], goal_cases)
  case (1 defs key store files)
  note st = any_issuance_store [OF assms(2)]
  have H: "se_records (hd_issuance H) = any_records (bt_store_params B)"
    "se_status (hd_issuance H) = any_status (bt_store_params B)"
    by (simp_all add: 1(4) build_env_def)
  have "any_sound (sv_store (ap_service ap0)) \<and> any_sane (sv_store (ap_service ap0))"
    using started_store [OF 1(3) assms(3,4)] by (simp add: 1(5) NewService_def)
  then have s1: "any_sound (sv_store (ap_service ap1))" "any_sane (sv_store (ap_service ap1))"
    using issuance_store.run_grows [OF st H assms(5)] by blast+
  from issuance_store.run_grows [OF st H assms(6) s1] assms(7) show ?case
    by (auto simp: grows_def)
qed

section \<open>A sample start\<close>

text \<open>Remote signing, a database that already holds a revoked credential, and an empty catalogue.\<close>

definition demo_tables :: pg_store where
  "demo_tables = \<lparr>pg_records = [(''r'', demo_record)], pg_status = [(''r'', (0, StatusInvalid))], pg_next_idx = 1,
     pg_events = (\<lambda>n. (0, DbOk))\<rparr>"

definition demo_boot :: "(string, string, string) boot" where
  "demo_boot = \<lparr>bt_env = (\<lambda>n. if n = ''FIKUA_DSS_URL'' then ''https://dss'' else if n = ''FIKUA_DB_URL'' then ''pg'' else []),
     bt_registry = (\<lambda>_. Reply 200 (Inr ''[]'')),
     bt_keys = \<lparr>pem_decode = (\<lambda>_. None), x509_parse = Inr, pkcs8_parse = (\<lambda>_. Inr None)\<rparr>,
     bt_files = \<lparr>fs_stat = (\<lambda>_. False), fs_read = (\<lambda>_. Inl (NotExist []))\<rparr>,
     bt_dss = \<lparr>dss_NewSigner = (\<lambda>_. Inr ''sk''), dss_LeafDER = (\<lambda>_. Inr [1])\<rparr>,
     bt_db = \<lparr>db_open = (\<lambda>_. None), db_ping = None, db_schema = None, db_tables = demo_tables\<rparr>,
     bt_static = Inr (\<lambda>_. respond [] 404 []), bt_openAPI = [], bt_world = zero_world,
     bt_store_params = plain_store_params, bt_libs = demo_env\<rparr>"

lemma demo_started: "\<exists>H ap. issuer_main demo_boot = Ok (H, ap) \<and> sv_store (ap_service ap) = Inr demo_tables"
proof -
  have "decode_first ''[]'' = Some (JArr [])" by code_simp
  then have "ListSchemes fo (bt_registry demo_boot) u = Inr []" for fo u
    by (simp add: ListSchemes_def client_get_def demo_boot_def decode_list_def Let_def)
  moreover have "loadSigningKey (se_out (bt_libs demo_boot)) K fs (bt_dss demo_boot) (Load (bt_env demo_boot)) =
      Ok \<lparr>sk_kid = b64url (bytes_of ''sk''), sk_signer = ''sk'', sk_public = ''sk'', sk_x5cChain = [[1]]\<rparr>" for K fs
    by (simp add: loadSigningKey_def demo_boot_def Load_def getenv_def NewRemote_def buildPublicJWK_def demo_env_def
        demo_env_on_def plain_jose_out_def BuildX5CChain_def Let_def)
  moreover have "loadIssuanceStore (bt_db demo_boot) (Load (bt_env demo_boot)) = Ok (Inr demo_tables)"
    by (simp add: loadIssuanceStore_def demo_boot_def Load_def getenv_def db_check_def)
  ultimately show ?thesis
    by (simp add: issuer_main_def cache_Start_def Let_def fatal_def NewService_def) (simp add: demo_boot_def)
qed

text \<open>The same issuer with its key in files and its records in memory.\<close>

definition pem_boot :: "(string, string, string) boot" where
  "pem_boot = demo_boot\<lparr>bt_env := (\<lambda>_. []),
     bt_keys := \<lparr>pem_decode = Some, x509_parse = Inr, pkcs8_parse = (\<lambda>b. Inr (if b = [2] then Some ''sk'' else None))\<rparr>,
     bt_files := \<lparr>fs_stat = (\<lambda>_. True), fs_read = (\<lambda>p. Inr (if p = path_join ''./certs'' ''issuer-key.pem'' then [2] else [1]))\<rparr>\<rparr>"

lemma pem_started: "\<exists>H ap. issuer_main pem_boot = Ok (H, ap)"
proof -
  have "decode_first ''[]'' = Some (JArr [])" by code_simp
  then have "ListSchemes fo (bt_registry pem_boot) u = Inr []" for fo u
    by (simp add: ListSchemes_def client_get_def pem_boot_def demo_boot_def decode_list_def Let_def)
  moreover have "path_join ''./certs'' ''issuer-cert.pem'' \<noteq> path_join ''./certs'' ''issuer-key.pem''" by code_simp
  then have "is_ok (loadSigningKey (se_out (bt_libs pem_boot)) (bt_keys pem_boot) (bt_files pem_boot) D (Load (bt_env pem_boot)))" for D
    by (simp add: loadSigningKey_def pem_boot_def demo_boot_def Load_def getenv_def LoadFromPEM_def load_files_def read_file_def
        pem_block_def buildPublicJWK_def demo_env_def demo_env_on_def plain_jose_out_def BuildX5CChain_def Let_def)
  then obtain k where "loadSigningKey (se_out (bt_libs pem_boot)) (bt_keys pem_boot) (bt_files pem_boot) (bt_dss pem_boot)
      (Load (bt_env pem_boot)) = Ok k"
    unfolding is_ok_iff by blast
  moreover have "loadIssuanceStore (bt_db pem_boot) (Load (bt_env pem_boot)) = Ok (Inl NewStore)"
    by (simp add: loadIssuanceStore_def pem_boot_def Load_def getenv_def)
  moreover have "bt_static pem_boot = Inr (\<lambda>_. respond [] 404 [])" by (simp add: pem_boot_def demo_boot_def)
  ultimately show ?thesis
    by (simp add: issuer_main_def cache_Start_def Let_def fatal_def NewService_def)
qed

theorem issuer_starts_configured_witness:
  "(\<exists>H ap. issuer_main demo_boot = Ok (H, ap) \<and> sk_x5cChain (se_issuerKey (hd_issuance H)) = [[1]]) \<and>
   (\<exists>H ap. issuer_main pem_boot = Ok (H, ap) \<and> sk_x5cChain (se_issuerKey (hd_issuance H)) = [[1]] \<and>
      sk_signer (se_issuerKey (hd_issuance H)) = ''sk'')"
proof
  obtain H ap where run: "issuer_main demo_boot = Ok (H, ap)" using demo_started by blast
  with issuer_starts_configured [OF run]
  show "\<exists>H ap. issuer_main demo_boot = Ok (H, ap) \<and> sk_x5cChain (se_issuerKey (hd_issuance H)) = [[1]]"
    by (simp add: demo_boot_def Load_def getenv_def key_of_dss_def)
next
  obtain H ap where run: "issuer_main pem_boot = Ok (H, ap)" using pem_started by blast
  have "path_join ''./certs'' ''issuer-cert.pem'' \<noteq> path_join ''./certs'' ''issuer-key.pem''" by code_simp
  with run issuer_starts_configured [OF run]
  show "\<exists>H ap. issuer_main pem_boot = Ok (H, ap) \<and> sk_x5cChain (se_issuerKey (hd_issuance H)) = [[1]] \<and>
      sk_signer (se_issuerKey (hd_issuance H)) = ''sk''"
    by (simp add: pem_boot_def demo_boot_def Load_def getenv_def key_of_files_def)
qed

theorem revoked_forever_witness:
  "\<exists>H ap. issuer_main demo_boot = Ok (H, ap) \<and> any_entries (sv_store (ap_service ap)) ''r'' = Some (0, StatusInvalid)"
proof -
  obtain H ap where run: "issuer_main demo_boot = Ok (H, ap)" and s: "sv_store (ap_service ap) = Inr demo_tables"
    using demo_started by blast
  have p: "store_params_ok (bt_store_params demo_boot)" by (simp add: demo_boot_def plain_store_params_ok)
  have t: "pg_sound (db_tables (bt_db demo_boot))" "pg_sane (db_tables (bt_db demo_boot))"
    by (auto simp: demo_boot_def demo_tables_def pg_sound_def pg_sane_def gm_wf_def demo_record_def)
  have e: "any_entries (sv_store (ap_service ap)) ''r'' = Some (0, StatusInvalid)"
    by (simp add: s any_entries_def pg_entries_def demo_tables_def)
  from revoked_forever [OF run p t issuer_run.stop issuer_run.stop e] run show ?thesis by blast
qed

end
