(* ===== verification/Run_Bounds.thy ===== *)
theory Run_Bounds
  imports Issuer_Run
begin

text \<open>
  What a running issuer keeps in memory: in every run the replay store stays within its limit, and the
  keys of the nonce, offer and replay maps stay unique.
\<close>

definition within_bounds :: "('s, 'ks) service \<Rightarrow> bool" where
  "within_bounds sv \<longleftrightarrow> session_wf (sv_sessions sv) \<and> gm_wf (sv_jtis sv) \<and> length (sv_jtis sv) \<le> 10000"

lemma within_bounds_updates [simp]:
  "within_bounds (sv\<lparr>sv_store := s\<rparr>) = within_bounds sv" "within_bounds (sv\<lparr>sv_world := w\<rparr>) = within_bounds sv"
  "within_bounds (sv\<lparr>sv_tokens := v\<rparr>) = within_bounds sv" "within_bounds (sv\<lparr>sv_cacheToken := t\<rparr>) = within_bounds sv"
  "within_bounds (sv\<lparr>sv_cacheExp := x\<rparr>) = within_bounds sv"
  by (simp_all add: within_bounds_def)

lemma within_bounds_calls [simp]:
  "within_bounds (snd (on_store f sv)) = within_bounds sv" "within_bounds (snd (on_world g sv)) = within_bounds sv"
  "within_bounds (on_store_world h sv) = within_bounds sv" "within_bounds (snd (call_Create E ct cd st sr sv)) = within_bounds sv"
  by (simp_all add: on_store_def on_world_def on_store_world_def call_Create_def split_beta Let_def)

lemma within_bounds_sessions: "within_bounds sv \<Longrightarrow> session_wf ss \<Longrightarrow> within_bounds (sv\<lparr>sv_sessions := ss\<rparr>)"
  by (simp add: within_bounds_def)

lemma within_bounds_wf: "within_bounds sv \<Longrightarrow> session_wf (sv_sessions sv)"
  by (simp add: within_bounds_def)

section \<open>The handlers of the service\<close>

lemma authorize_within:
  assumes "iterates (se_jti_order E)" and "within_bounds sv"
  shows "within_bounds (snd (authorize E A tok dp ep msg sv))"
proof -
  have j: "within_bounds (b\<lparr>sv_jtis := snd (ValidateDPoPProof (se_url E) (se_jose E) (se_jti_order E) now dp htm htu ath (sv_jtis b))\<rparr>)"
    if "within_bounds b" for b :: "('d, 'b) service" and now htm htu ath
    using that ValidateDPoPProof_bound [OF assms(1), of "sv_jtis b"] by (simp add: within_bounds_def jtiStoreMaxSize_def)
  show ?thesis
    unfolding authorize_def Let_def split_beta
    by (intro st_then_inv [where I = within_bounds]) (simp_all add: assms(2) j)
qed

lemma store_offer_within: "within_bounds sv \<Longrightarrow> within_bounds (snd (store_offer j sv))"
  by (simp add: store_offer_def split_beta Let_def within_bounds_sessions within_bounds_wf)

lemma trigger_within: "within_bounds sv \<Longrightarrow> within_bounds (snd (TriggerIssuance E req sv))"
  unfolding TriggerIssuance_def Let_def split_beta
  by (intro st_then_inv [where I = within_bounds]) (simp_all add: store_offer_within)

lemma nonce_within:
  assumes "iterates (se_jti_order E)" and "within_bounds sv"
  shows "within_bounds (snd (service_GenerateNonce E A tok dp sv))"
proof -
  have "within_bounds (sv\<lparr>sv_world := w, sv_sessions := RegisterNonce n (sv_sessions sv)\<rparr>)" for w n
    using assms(2) within_bounds_sessions [of "sv\<lparr>sv_world := w\<rparr>"] by (simp add: within_bounds_wf)
  then show ?thesis
    unfolding service_GenerateNonce_def Let_def split_beta
    by (auto intro!: st_then_inv [where I = within_bounds] authorize_within [OF assms(1)])
qed

lemma proof_nonce_within: "within_bounds sv \<Longrightarrow> within_bounds (snd (validateProofNonce E pf n sv))"
  by (auto simp: validateProofNonce_def Let_def split_beta within_bounds_sessions within_bounds_wf split: outcome.split)

lemma issue_within:
  assumes "iterates (se_jti_order E)" and "within_bounds sv"
  shows "within_bounds (snd (IssueCredential E A tok dp body sv))"
  unfolding IssueCredential_def Let_def split_beta
  by (intro st_then_inv [where I = within_bounds])
    (simp_all add: authorize_within [OF assms] proof_nonce_within within_bounds_sessions within_bounds_wf)

lemma revoke_within: "within_bounds sv \<Longrightarrow> within_bounds (snd (RevokeCredential E rid sv))"
  unfolding RevokeCredential_def revocable_def mark_invalid_def drop_cache_def Let_def split_beta
  by (intro st_then_inv [where I = within_bounds]) simp_all

lemma cached_within: "within_bounds sv \<Longrightarrow> within_bounds (snd (cached_token sv))"
  by (simp add: cached_token_def Let_def split_beta)

lemma status_list_within: "within_bounds sv \<Longrightarrow> within_bounds (snd (GetStatusListToken E lid sv))"
proof -
  assume w: "within_bounds sv"
  have "within_bounds (snd (st_then (load_entries E b) (sign_entries E)))" if "within_bounds b" for b
    using that unfolding load_entries_def sign_entries_def Let_def split_beta
    by (intro st_then_inv [where I = within_bounds]) simp_all
  with cached_within [OF w] show ?thesis
    unfolding GetStatusListToken_def
    by (intro st_then_inv [where I = within_bounds]) (auto simp: w fail_if_def split: prod.split option.split if_splits)
qed

lemma views_within: "within_bounds sv \<Longrightarrow> within_bounds (snd (build_views E rcs sv))"
proof (induction rcs arbitrary: sv)
  case (Cons rc rcs)
  have "snd (credentialStatusLabel E (rec_ID rc) sv) = snd (on_store (so_FindByRecordID (se_status E) (rec_ID rc)) sv)"
    by (simp add: credentialStatusLabel_def split: prod.split option.split)
  with Cons show ?case by (simp add: Let_def split_beta)
qed simp

lemma listing_within: "within_bounds sv \<Longrightarrow> within_bounds (snd (ListIssuanceRecords E page sz f ord sv))"
  unfolding ListIssuanceRecords_def Let_def split_beta
  by (intro st_then_inv [where I = within_bounds]) (simp_all add: views_within)


section \<open>Requests and runs\<close>

lemma on_service_within:
  "(\<And>sv. within_bounds sv \<Longrightarrow> within_bounds (snd (f sv))) \<Longrightarrow> within_bounds (ap_service ap) \<Longrightarrow>
   within_bounds (ap_service (snd (on_service f ap)))"
  by (simp add: on_service_def split_beta)

lemma st_service_within:
  "within_bounds (ap_service ap) \<Longrightarrow>
   (\<And>x. within_bounds (ap_service (snd (f x ap)))) \<Longrightarrow> within_bounds (ap_service (snd (st_then (r, ap) f)))"
  by (cases r) simp_all

lemma handle_within:
  assumes "iterates (se_jti_order (hd_issuance H))" and "within_bounds (ap_service ap)"
  shows "within_bounds (ap_service (snd (handle H A rq ep hs ap)))"
proof (cases ep)
  case ListRecords
  have "within_bounds (ap_service (snd (on_service (ListIssuanceRecords (hd_issuance H) page sz f ord) ap)))" for page sz f ord
    by (intro on_service_within listing_within assms(2))
  then show ?thesis by (simp add: ListRecords listIssuanceRecords_def Let_def split_beta)
next
  case Trigger
  show ?thesis
    unfolding Trigger handle.simps triggerIssuance_def snd_reply_with
    by (intro st_service_within on_service_within trigger_within assms(2))
next
  case (ByIssuerState i)
  have "within_bounds (ap_service (snd (on_service (service_FindByIssuerState (hd_issuance H) i) ap)))"
    by (rule on_service_within) (simp_all add: assms(2) service_FindByIssuerState_def)
  then show ?thesis by (auto simp: ByIssuerState issuanceByIssuerState_def split: prod.split option.split)
next
  case Nonce
  show ?thesis
    unfolding Nonce handle.simps nonce_handler_def Let_def snd_reply_with
    by (intro st_service_within on_service_within nonce_within assms)
next
  case CredentialEP
  show ?thesis
    unfolding CredentialEP handle.simps credential_def Let_def snd_reply_with split_beta
    by (intro st_service_within on_service_within issue_within assms)
next
  case (StatusListEP i)
  show ?thesis
    unfolding StatusListEP handle.simps statusList_def snd_reply_with
    by (intro on_service_within status_list_within assms(2))
next
  case (Revoke i)
  show ?thesis
    unfolding Revoke handle.simps revokeIssuance_def snd_reply_with
    by (intro on_service_within revoke_within assms(2))
qed (use assms(2) in \<open>simp_all add: health_def credentialIssuerMetadata_def jwks_def credentialOffer_def notification_def
      openAPISpecHandler_def swaggerUI_def Let_def snd_reply_with split: option.split\<close>)

lemma serve_within:
  assumes "iterates (se_jti_order (hd_issuance H))" and "within_bounds (ap_service ap)"
  shows "within_bounds (ap_service (snd (serve H A rq ap)))"
proof -
  have "within_bounds (ap_service (snd (serve_mux H A rq hs ap)))" for hs
    using handle_within [OF assms] assms(2) by (cases rule: serve_mux_cases [of rq H A hs ap]) auto
  then show ?thesis using assms(2) by (simp add: serve_def WithCORS_def Let_def)
qed

lemma run_within:
  assumes "iterates (se_jti_order (hd_issuance H))" and "issuer_run H bound a b" and "within_bounds (ap_service a)"
  shows "within_bounds (ap_service b)"
  using assms(2,3)
proof (induction rule: issuer_run.induct)
  case (step a b c)
  from step.hyps(3) step show ?case
  proof (cases rule: issuer_step.cases)
    case (request A rq r)
    then show ?thesis using serve_within [OF assms(1), of b A rq] step by simp
  qed simp
qed simp

text \<open>C24 (bounds): whatever requests an issuer is sent after it started, in whatever number, and in
  whatever order evictions visit the keys, it never remembers more than ten thousand DPoP identifiers,
  and no nonce, offer or identifier is kept twice.\<close>

theorem replay_memory_bounded:
  assumes "issuer_main B = Ok (H, ap0)" and "iterates (se_jti_order (bt_libs B))"
    and "issuer_run H bound ap0 ap"
  shows "length (sv_jtis (ap_service ap)) \<le> 10000 \<and> gm_wf (sv_jtis (ap_service ap)) \<and> session_wf (sv_sessions (ap_service ap))"
proof (rule issuer_main_Ok [OF assms(1)], goal_cases)
  case (1 defs key store files)
  have "iterates (se_jti_order (hd_issuance H))" using assms(2) by (simp add: 1(4) build_env_def)
  moreover have "within_bounds (ap_service ap0)" by (simp add: 1(5) NewService_def within_bounds_def NewJTIStore_def)
  ultimately have "within_bounds (ap_service ap)" using run_within [OF _ assms(3)] by blast
  then show ?case by (simp add: within_bounds_def)
qed

theorem replay_memory_bounded_witness:
  "\<exists>H ap ap'. issuer_main demo_boot = Ok (H, ap) \<and> issuer_step H ap ap' \<and> length (sv_jtis (ap_service ap')) \<le> 10000"
proof -
  obtain H ap where run: "issuer_main demo_boot = Ok (H, ap)" using demo_started by blast
  obtain r ap' where s: "serve H sample_world demo_post ap = (r, ap')" by fastforce
  then have "issuer_step H ap ap'" by (rule issuer_step.request)
  moreover have "iterates (se_jti_order (bt_libs demo_boot))"
    by (simp add: demo_boot_def demo_env_def demo_env_on_def)
  moreover have "issuer_run H (\<lambda>s. True) ap ap'" using issuer_run.step [OF issuer_run.stop TrueI calculation(1)] .
  ultimately show ?thesis using replay_memory_bounded [OF run] run by blast
qed

end
