(* ===== verification/Json_Fuel.thy ===== *)
theory Json_Fuel
  imports Http_Api
begin

text \<open>
  Reading a document ends: the JSON parser of the model is given fuel, and this theory shows that the
  fuel it is given is never what stops it. Every parser consumes at least a byte, and the nesting of
  calls is paid for by the bytes between them.
\<close>

section \<open>Every parser consumes\<close>

lemma skip_ws_length: "length (skip_ws s) \<le> length s"
  by (simp add: skip_ws_def length_dropWhile_le)

lemma skip_ws_Cons: "skip_ws s = c # r \<Longrightarrow> length r < length s"
  using skip_ws_length [of s] by simp

lemma string_body_shorter: "string_body s = Some (v, r) \<Longrightarrow> length r < length s"
proof (induction s arbitrary: v r rule: string_body.induct)
  case (2 c s)
  show ?case
  proof (cases "c = CHR 0x5C")
    case True
    then obtain e s' where s: "s = e # s'" using 2(6) by (cases s) (auto simp: string_body.simps)
    show ?thesis
    proof (cases "e = CHR ''u''")
      case u: True
      then obtain t rest v' where "u_escape s' = Some (t, rest)" "string_body rest = Some (v', r)"
        using 2(6) True by (auto simp: string_body.simps s split: option.splits)
      with 2(1) True u s u_escape_length show ?thesis by fastforce
    next
      case False
      then obtain v' x where "simple_escape e = Some x" "string_body s' = Some (v', r)"
        using 2(6) True by (auto simp: string_body.simps s split: option.splits)
      with 2(2) True False s show ?thesis by fastforce
    qed
  next
    case False
    let ?w = "utf8_width (c # s)"
    note ih = 2(3-5)
    consider (close) "r = s" | (ascii) u where "\<not> cn c < 0x20" "c \<noteq> CHR 0x22" "cn c < 0x80" "string_body s = Some (u, r)"
      | (bad) u where "\<not> cn c < 0x20" "c \<noteq> CHR 0x22" "\<not> cn c < 0x80" "?w = 0" "string_body s = Some (u, r)"
      | (rune) u where "\<not> cn c < 0x20" "c \<noteq> CHR 0x22" "\<not> cn c < 0x80" "?w \<noteq> 0" "string_body (drop (?w - 1) s) = Some (u, r)"
      using 2(6) False by (auto simp: string_body.simps simp del: utf8_width.simps split: if_splits)
    then show ?thesis
    proof cases
      case close
      then show ?thesis by simp
    next
      case ascii
      from ih(1) [OF ascii(2) False ascii(1,3,4)] show ?thesis by simp
    next
      case bad
      from ih(2) [OF bad(2) False bad(1,3,4,5)] show ?thesis by simp
    next
      case rune
      from ih(3) [OF rune(2) False rune(1,3,4,5)] show ?thesis by simp
    qed
  qed
qed (simp add: string_body.simps)

lemma take_digits_length: "take_digits s = (d, r) \<Longrightarrow> length r \<le> length s"
  by (auto simp: take_digits_def length_dropWhile_le)

lemma number_parts_length:
  "frac_part s = Some (d, r) \<Longrightarrow> length r \<le> length s" "exp_part s = Some (d, r) \<Longrightarrow> length r \<le> length s"
  "int_part s = Some (d, r) \<Longrightarrow> length r < length s"
proof -
  show "frac_part s = Some (d, r) \<Longrightarrow> length r \<le> length s"
    by (auto simp: frac_part_def split: list.splits if_splits prod.splits dest: take_digits_length)
  show "exp_part s = Some (d, r) \<Longrightarrow> length r \<le> length s"
    by (auto simp: exp_part_def Let_def split: list.splits if_splits prod.splits dest!: take_digits_length)
  show "int_part s = Some (d, r) \<Longrightarrow> length r < length s"
    by (auto simp: int_part_def take_digits_def le_imp_less_Suc length_dropWhile_le split: list.splits if_splits)
qed

lemma literal_shorter: "literal s = Some (v, r) \<Longrightarrow> length r < length s"
proof -
  have n: "length r < length s" if num: "number_lit s = Some (n, r)" for n r
  proof -
    obtain sg s1 where p: "(case s of c # t \<Rightarrow> if c = CHR ''-'' then ([c], t) else ([], s) | [] \<Rightarrow> ([], s)) = (sg, s1)"
      by fastforce
    then have "length s1 \<le> length s" by (auto split: list.splits if_splits)
    moreover obtain i s2 f s3 e where "int_part s1 = Some (i, s2)" "frac_part s2 = Some (f, s3)" "exp_part s3 = Some (e, r)"
      using num unfolding number_lit_def p Let_def by (auto split: option.splits prod.splits)
    ultimately show ?thesis using number_parts_length by fastforce
  qed
  have p: "k \<le> length s \<and> 0 < k" if "has_prefix s t" "length t = k" "t \<noteq> []" for t :: string and k
    using that by (auto simp: has_prefix_def)
  assume "literal s = Some (v, r)"
  then consider "has_prefix s ''null''" "r = drop 4 s" | "has_prefix s ''true''" "r = drop 4 s"
    | "has_prefix s ''false''" "r = drop 5 s" | x where "number_lit s = Some (x, r)"
    by (auto simp: literal_def split: if_splits)
  then show "length r < length s"
    by cases (use p [of "''null''" 4] p [of "''true''" 4] p [of "''false''" 5] n in auto)
qed

lemma parsers_shorter:
  "p_value n d s = Some (v, r) \<Longrightarrow> length r < length s"
  "p_elems n d s = Some (vs, r) \<Longrightarrow> length r < length s"
  "p_members n d s = Some (ms, r) \<Longrightarrow> length r < length s"
proof (induction n d s and n d s and n d s arbitrary: v r and vs r and ms r rule: p_value_p_elems_p_members.induct)
  case (2 n d s)
  show ?case
  proof (cases s)
    case (Cons c s')
    note p = 2(3) [unfolded Cons p_value.simps list.case]
    consider (str) w where "string_body s' = Some (w, r)"
      | (arr0) "c = CHR ''[''" "skip_ws s' = CHR '']'' # r" | (obj0) "c = CHR 0x7B" "skip_ws s' = CHR 0x7D # r"
      | (arr) x t vs where "c = CHR ''[''" "\<not> max_depth \<le> d" "skip_ws s' = x # t" "x \<noteq> CHR '']''" "p_elems n (Suc d) (x # t) = Some (vs, r)"
      | (obj) x t ms where "c = CHR 0x7B" "\<not> max_depth \<le> d" "skip_ws s' = x # t" "x \<noteq> CHR 0x7D" "p_members n (Suc d) (x # t) = Some (ms, r)"
      | (lit) w where "literal (c # s') = Some (w, r)"
      using p by (auto split: if_splits list.splits)
    then show ?thesis
    proof cases
      case str then show ?thesis using string_body_shorter by (fastforce simp: Cons)
    next
      case arr0 then show ?thesis using skip_ws_Cons by (fastforce simp: Cons)
    next
      case obj0 then show ?thesis using skip_ws_Cons by (fastforce simp: Cons)
    next
      case arr
      with 2(1) [OF Cons] have "length r < length (x # t)" by auto
      then show ?thesis using skip_ws_Cons [OF arr(3)] by (simp add: Cons)
    next
      case obj
      with 2(2) [OF Cons] have "length r < length (x # t)" by auto
      then show ?thesis using skip_ws_Cons [OF obj(3)] by (simp add: Cons)
    next
      case lit
      from literal_shorter [OF this] show ?thesis by (simp add: Cons)
    qed
  qed (use 2 in simp)
next
  case (4 n d s)
  from 4(3) obtain u t where v: "p_value n d s = Some (u, t)" by (auto split: option.splits)
  note p = 4(3) [unfolded p_elems.simps v option.case prod.case]
  then obtain c t' where t: "skip_ws t = c # t'" by (auto split: list.splits)
  have l: "length t < length s" "length t' < length t" using 4(1) [OF v] skip_ws_Cons [OF t] by simp_all
  show ?case
  proof (cases "c = CHR '']''")
    case True
    with p t l show ?thesis by simp
  next
    case False
    with p t have c: "c = CHR '',''" by (simp split: if_splits)
    with p t obtain ws where "p_elems n d (skip_ws t') = Some (ws, r)" by auto
    with 4(2) [OF v refl t False c] have "length r < length (skip_ws t')" by blast
    with l skip_ws_length [of t'] show ?thesis by simp
  qed
next
  case (6 n d s)
  show ?case
  proof (cases s)
    case (Cons q s')
    note p = 6(3) [unfolded Cons p_members.simps list.case]
    then obtain k t where k: "q = CHR 0x22" "string_body s' = Some (k, t)" by (auto split: if_splits option.splits)
    with p obtain t1 where t: "skip_ws t = CHR '':'' # t1" by (auto split: list.splits if_splits)
    with p k obtain u t2 where v: "p_value n d (skip_ws t1) = Some (u, t2)" by (auto split: option.splits)
    with p k t obtain e t3 where e: "skip_ws t2 = e # t3" by (auto split: list.splits)
    have l: "length t < length s'" "length t1 < length t" "length t3 < length t2"
      using string_body_shorter [OF k(2)] skip_ws_Cons [OF t] skip_ws_Cons [OF e] by simp_all
    have l2: "length t2 < length (skip_ws t1)" using 6(1) Cons k t v by auto
    note short = l l2 skip_ws_length [of t1] Cons
    show ?thesis
    proof (cases "e = CHR 0x7D")
      case True
      with p k t v e have "r = t3" by simp
      with short show ?thesis by simp
    next
      case False
      with p k t v e have c: "e = CHR '',''" by (simp split: if_splits)
      with p k t v e obtain ws where w: "p_members n d (skip_ws t3) = Some (ws, r)" by auto
      have "length r < length (skip_ws t3)" using 6(2) Cons k t v e False c w by auto
      with short skip_ws_length [of t3] show ?thesis by simp
    qed
  qed (use 6 in simp)
qed simp_all

section \<open>The fuel is enough\<close>

lemma fuel_irrelevant:
  "2 * length s < n \<Longrightarrow> n \<le> m \<Longrightarrow> p_value m d s = p_value n d s"
  "2 * length s + 1 < n \<Longrightarrow> n \<le> m \<Longrightarrow> p_elems m d s = p_elems n d s"
  "2 * length s + 1 < n \<Longrightarrow> n \<le> m \<Longrightarrow> p_members m d s = p_members n d s"
proof (induction n d s and n d s and n d s arbitrary: m and m and m rule: p_value_p_elems_p_members.induct)
  case (2 n d s)
  from 2(3,4) obtain m' where m: "m = Suc m'" "n \<le> m'" by (cases m) auto
  show ?case
  proof (cases s)
    case (Cons c s')
    have e: "p_elems m' (Suc d) (x # t) = p_elems n (Suc d) (x # t)"
      if "skip_ws s' = x # t" "c \<noteq> CHR 0x22" "c = CHR ''[''" "\<not> max_depth \<le> d" "x \<noteq> CHR '']''" for x t
      by (rule 2(1) [OF Cons that(2-4,1,5) _ m(2)]) (use 2(3) skip_ws_Cons [OF that(1)] in \<open>simp add: Cons\<close>)
    have f: "p_members m' (Suc d) (x # t) = p_members n (Suc d) (x # t)"
      if "skip_ws s' = x # t" "c = CHR 0x7B" "\<not> max_depth \<le> d" "x \<noteq> CHR 0x7D" for x t
      by (rule 2(2) [OF Cons _ _ that(2,3,1,4) _ m(2)]) (use that(2) 2(3) skip_ws_Cons [OF that(1)] in \<open>simp_all add: Cons\<close>)
    show ?thesis using e f by (auto simp: m(1) Cons split: list.split)
  qed (simp add: m)
next
  case (4 n d s)
  from 4(3,4) obtain m' where m: "m = Suc m'" "n \<le> m'" by (cases m) auto
  have v: "p_value m' d s = p_value n d s" by (rule 4(1) [OF _ m(2)]) (use 4(3) in simp)
  show ?case
  proof (cases "p_value n d s")
    case (Some x)
    obtain u t where x: "x = (u, t)" by fastforce
    have "p_elems m' d (skip_ws t') = p_elems n d (skip_ws t')" if "skip_ws t = c # t'" "c \<noteq> CHR '']''" "c = CHR '',''" for c t'
      by (rule 4(2) [OF Some x [symmetric] that _ m(2)])
        (use 4(3) parsers_shorter(1) [OF Some [unfolded x]] skip_ws_Cons [OF that(1)] skip_ws_length [of t'] in simp)
    with Some x v show ?thesis by (auto simp: m(1) split: list.split)
  qed (simp add: m v)
next
  case (6 n d s)
  from 6(3,4) obtain m' where m: "m = Suc m'" "n \<le> m'" by (cases m) auto
  show ?case
  proof (cases s)
    case (Cons q s')
    have v: "p_value m' d (skip_ws t1) = p_value n d (skip_ws t1)"
      if "q = CHR 0x22" "string_body s' = Some (k, t)" "skip_ws t = CHR '':'' # t1" for k t t1
    proof -
      have "length t1 < length s'" using string_body_shorter [OF that(2)] skip_ws_Cons [OF that(3)] by simp
      then have "2 * length (skip_ws t1) < n" using 6(3) skip_ws_length [of t1] by (simp add: Cons)
      then show ?thesis by (intro 6(1) [OF Cons _ that(2) refl that(3)] m(2)) (simp_all add: that(1))
    qed
    have w: "p_members m' d (skip_ws t3) = p_members n d (skip_ws t3)"
      if "q = CHR 0x22" "string_body s' = Some (k, t)" "skip_ws t = CHR '':'' # t1"
        "p_value n d (skip_ws t1) = Some (u, t2)" "skip_ws t2 = CHR '','' # t3" for k t t1 u t2 t3
    proof -
      have "length t3 < length s'"
        using string_body_shorter [OF that(2)] skip_ws_Cons [OF that(3)] parsers_shorter(1) [OF that(4)]
          skip_ws_Cons [OF that(5)] skip_ws_length [of t1] by simp
      then have "2 * length (skip_ws t3) + 1 < n" using 6(3) skip_ws_length [of t3] by (simp add: Cons)
      then show ?thesis by (intro 6(2) [OF Cons _ that(2) refl that(3) _ that(4) refl that(5)] m(2)) (simp_all add: that(1))
    qed
    show ?thesis
      using v w by (auto simp: m(1) Cons split: option.split list.split)
  qed (simp add: m)
qed simp_all


section \<open>Reading requests ends\<close>

lemma document_fuel:
  assumes "2 * length s + 2 \<le> n"
  shows "p_value n 0 (skip_ws s) = p_value (2 * length s + 2) 0 (skip_ws s)"
  by (rule fuel_irrelevant(1) [OF _ assms]) (use skip_ws_length [of s] in simp)

text \<open>Decoding the body of a credential request and of a trigger request ends for every
  body: the answer is what the parser gives with any larger amount of fuel, so that a body is refused
  for what it says and never because the parser gave up.\<close>

theorem request_decoding_terminates:
  assumes "2 * length body + 2 \<le> n"
  shows "unmarshal_request fo body =
      (case p_value n 0 (skip_ws body) of
         Some (v, rest) \<Rightarrow> if skip_ws rest = [] then decode_struct request_fields (assign_request fo) zero_request v else None
       | None \<Rightarrow> None) \<and>
    is_ok (decode_trigger fo (Inr body)) =
      (case p_value n 0 (skip_ws body) of
         Some (v, rest) \<Rightarrow> decode_struct [''credential_type'', ''credential_data'', ''source_type'', ''source_ref'']
           (assign_trigger fo) zero_trigger v \<noteq> None
       | None \<Rightarrow> False)"
  unfolding document_fuel [OF assms]
  by (auto simp: unmarshal_request_def parse_document_def decode_trigger_def decode_first_def Let_def
      split: option.split prod.split)

theorem request_decoding_terminates_witness:
  "\<forall>fo. unmarshal_request fo ''{'' = None \<and> \<not> is_ok (decode_trigger fo (Inr ''{''))"
proof
  fix fo
  have "p_value 100 0 (skip_ws ''{'') = None" by code_simp
  then show "unmarshal_request fo ''{'' = None \<and> \<not> is_ok (decode_trigger fo (Inr ''{''))"
    using request_decoding_terminates [of "''{''" 100 fo] by simp
qed

end
