(* ===== verification/Spec2Isabelle.thy ===== *)
theory Spec2Isabelle
  imports Store_Agree Issue_Threads Http_Live Run_Bounds Json_Fuel
begin

text \<open>
  A verification development for fikua-lab-issuer, an OID4VCI credential issuer written in Go.

  \<^bold>\<open>The program.\<close> A single process serves an HTTP API (\<open>internal/httpapi\<close>) over one issuance service
  (\<open>internal/issuance/service.go\<close>). A back office triggers an issuance: the service creates a record and
  a credential offer. A wallet, holding an access token minted by a separate authorization server,
  fetches a nonce and then the credential; the service verifies the token (\<open>internal/accesstoken\<close>), its
  DPoP proof (\<open>internal/oauth2\<close>) and the key proof (\<open>internal/oid4vci\<close>), allocates an index of the
  status list, builds an SD-JWT VC (\<open>internal/sdjwt\<close>) or an mdoc (\<open>internal/mdoc\<close>) and marks the record.
  Revocation flips the entry of the status list, which is published as a signed and cached token
  (\<open>internal/statuslist\<close>). Records and list entries are kept in memory or in Postgres
  (\<open>internal/issuance/store.go\<close>, \<open>postgres_store.go\<close>), nonces and offers in \<open>internal/session\<close>. The
  advertised configurations come from a registry's catalogue (\<open>internal/registryclient\<close>,
  \<open>internal/credentialconfig\<close>); \<open>cmd/issuer/main.go\<close> wires it all from the environment
  (\<open>internal/config\<close>) and a signing key (\<open>internal/crypto\<close>).

  \<^bold>\<open>Conventions.\<close> A function that can fail returns an \<open>outcome\<close>: \<open>Ok\<close>, \<open>Err\<close> (an OAuth exception or a
  bare error) or \<open>Panic\<close>. State is passed explicitly; a Go map is an association list with unique keys,
  and where the code ranges over a map the order is an argument known only to be a permutation
  (\<open>iterates\<close>). Strings are byte strings; \<open>int\<close> values are kept in 64 bits with wrap-around written out
  (\<open>i64\<close>), bytes are words. The clock and the entropy source are a \<open>world\<close>. Third-party code is an
  argument: JOSE parsing and signing (\<open>Jose\<close>, \<open>Signing\<close>), zlib, CBOR, X.509 and the signature service's
  client; the database is a sequence of events, each of which may refuse a statement or lose its answer
  (\<open>Pg_Store\<close>) and each of which has its own reading of the database's clock. No property assumes more
  of them than it says.

  \<^bold>\<open>Theories.\<close>
  \<^item> \<open>Prelude\<close>, \<open>Go_Std\<close>, \<open>Go_Url\<close>, \<open>Go_Json\<close>, \<open>Json_Facts\<close>, \<open>Go_Time\<close>, \<open>Sha256\<close>: outcomes, maps,
    integers, and what the program uses of the standard library: base64url, strings, \<open>net/url\<close>,
    \<open>encoding/json\<close>, \<open>time.Format\<close>, SHA-256.
  \<^item> \<open>OAuth_Error\<close>, \<open>Jose\<close>, \<open>Dpop\<close>, \<open>Oid4vci\<close>, \<open>Access_Token\<close>, \<open>Session\<close>: the protocol layer. The
    acceptance theorems (\<open>verify_accepts_exactly\<close>, \<open>dpop_accepts_exactly\<close>, \<open>key_proof_accepts_exactly\<close>)
    refine order-free specifications of what is accepted; the error theorems cover every rejection; the
    replay store and the nonce store have trace properties through locales of their contracts.
  \<^item> \<open>Records\<close>, \<open>Memory_Store\<close>, \<open>Pg_Store\<close>, \<open>Issuance_Store\<close>, \<open>Either_Store\<close>: the two store interfaces as
    locales (\<open>record_store\<close>, \<open>status_store\<close>, joined with frame laws in \<open>issuance_store\<close>), both stores
    interpreted, and the sum of the two that a configured process runs on. \<open>Store_Agree\<close> relates the
    two: they answer every sequence of calls within the contract alike, up to the printing of \<open>jsonb\<close>
    and the two clocks (\<open>stores_agree\<close>).
  \<^item> \<open>Signing\<close>, \<open>Status_List\<close>, \<open>Sd_Jwt\<close>, \<open>Mdoc\<close>: the signing key and the three signed artefacts, proved
    from the reader's side: slots read back, disclosures decode and match their digests, the digests of
    an mdoc are those of its items.
  \<^item> \<open>Service\<close>, \<open>Service_Issue\<close>, \<open>Service_Props\<close>, \<open>Service_Status\<close>, \<open>Listing\<close>: the service. The issuing
    half is proved once for every \<open>issuance_store\<close>. \<open>Service_Status\<close> is an interleaving semantics of the
    handlers around the status list, with the mutex the code takes, and shows that what is published
    after a revocation has returned says so, and that no handler panics or fails with a bare error
    (\<open>service_errors\<close>). \<open>Issue_Threads\<close> interleaves credential requests at every access to shared state,
    with each other and with the steps of \<open>Service_Status\<close>: alone a request is \<open>IssueCredential\<close>, and
    concurrently, while the replay store is not full, no registered nonce, DPoP proof or index serves
    twice. \<open>Service_Live\<close> is the converse of the safety facts for the in-memory store: what the checks
    do not refuse is issued, revoked and published. \<open>Listing\<close> is the paginated listing.
  \<^item> \<open>Registry\<close>, \<open>Credential_Config\<close>, \<open>Settings\<close>: catalogue, advertised configurations, environment.
  \<^item> \<open>Http_Api\<close>, \<open>Web_Ui\<close>, \<open>Http_Routes\<close>, \<open>Http_Props\<close>, \<open>Http_Live\<close>: handlers, JSON documents, the static
    user interface under its base path, routing table with \<open>ServeMux\<close>'s redirects and CORS wrapper, and
    what clients can observe and cause: only what is authorized is served, and what is authorized is
    served. \<open>Json_Fuel\<close> proves the fuel of the JSON parser enough.
  \<^item> \<open>Startup\<close>, \<open>Issuer_Run\<close>: \<open>issuer_main\<close> from environment to initial state, and the running issuer as
    a step relation over whole HTTP requests and catalogue refreshes; \<open>issuer_starts_configured\<close> says
    where its key, certificate, catalogue and store come from, \<open>revoked_forever\<close> follows a revocation
    through every run, and \<open>Run_Bounds\<close> bounds the replay memory in every run.

  \<^bold>\<open>Bounds.\<close> The JSON parser's fuel is twice the length of the document and two. No larger amount
  changes the result of parsing (\<open>Json_Fuel\<close>), so no document is refused for lack of it; nesting is
  limited to 10000 as in Go. Trimming uses the length of the string. \<open>sort.Slice\<close> is insertion sort up
  to twelve elements, as in the library, and an unknown permutation beyond. The status list has room
  while its next index is below the largest 64-bit integer. Replay and denylist statements hold below
  the limits of the two caches, which they state.

  \<^bold>\<open>Not modelled.\<close> The file server over the embedded files of the user interface (\<open>web\<close>) is an argument,
  asked for the path below the base (\<open>Web_Ui\<close>), and so is the embedded OpenAPI document; of the embedded
  database schema (\<open>db\<close>) only what its statements do to the tables is modelled. Log lines, timeouts and
  the network listener are left out, as is the case mapping of non-ASCII runes that cannot reach an
  ASCII letter. Each store call, and each database transaction, is one step; over HTTP (\<open>Issuer_Run\<close>)
  whole requests are. A slice field given three times in one registry document keeps elements of the
  second occurrence only.
\<close>

end
